theory Spec2Isabelle
  imports Complex_Main "HOL-Library.Word"
begin

section \<open>Rope operators of CablesCustomOps: data model\<close>

text \<open>
  The repository holds two operators, Rope2D (\<^verbatim>\<open>src/unnamed/part_000\<close>) and Rope3D
  (\<^verbatim>\<open>src/Ops.Local.Custom.Rope3D/Ops.Local.Custom.Rope3D.js\<close>).  The 3D source is the 2D
  source with a third coordinate added everywhere, so the 3D records extend the 2D ones.

  JavaScript numbers are modelled as \<^typ>\<open>real\<close>: rounding, infinities and NaN are not
  modelled.  The integer ports are \<^typ>\<open>int\<close>, and \<^verbatim>\<open>v | 0\<close> is the conversion to a signed
  32-bit integer.  Reading a property of \<^verbatim>\<open>undefined\<close> (an array read past the end) throws a
  TypeError in JavaScript; a function that can do so returns an \<^typ>\<open>'a option\<close>, and
  \<^term>\<open>None\<close> is the thrown TypeError.
\<close>

record point2 =
  x :: real
  y :: real

record point3 = point2 +
  z :: real

text \<open>The values of the operator's input ports, as \<^verbatim>\<open>inX.get()\<close> reads them.\<close>

record ports2 =
  inTopX :: real
  inTopY :: real
  inBottomX :: real
  inBottomY :: real
  inSegments :: int
  inLength :: real
  inGravity :: real
  inIter :: int
  inDamping :: real

record ports3 = ports2 +
  inTopZ :: real
  inBottomZ :: real

text \<open>
  The module-level variables.  \<^verbatim>\<open>null\<close> in the \<^verbatim>\<open>last*\<close> variables is \<^term>\<open>None\<close>.  The two
  arrays hold distinct objects (every \<^verbatim>\<open>push\<close> of \<^verbatim>\<open>initRope\<close> pushes a fresh object literal),
  so they are two lists of values.
\<close>

record 'p rope2 =
  positions :: "'p list"
  prevPositions :: "'p list"
  lastTime :: real
  isSleeping :: bool
  sleepCounter :: nat
  lastTopX :: "real option"
  lastTopY :: "real option"
  lastBottomX :: "real option"
  lastBottomY :: "real option"

record 'p rope3 = "'p rope2" +
  lastTopZ :: "real option"
  lastBottomZ :: "real option"

type_synonym state2 = "point2 rope2"
type_synonym state3 = "point3 rope3"

definition SLEEP_FRAMES :: nat where
  "SLEEP_FRAMES = 6"

definition VEL_EPS :: real where
  "VEL_EPS = 1 / 1000"

definition INPUT_EPS :: real where
  "INPUT_EPS = 1 / 100000"

text \<open>\<^verbatim>\<open>v | 0\<close> on an integral number: ToInt32, the value modulo \<open>2^32\<close> read as signed.\<close>

definition to_int32 :: "int \<Rightarrow> int" where
  "to_int32 v = sint (word_of_int v :: 32 word)"

text \<open>A \<^verbatim>\<open>null\<close> operand of a subtraction is converted to the number 0.\<close>

definition num :: "real option \<Rightarrow> real" where
  "num v = (case v of None \<Rightarrow> 0 | Some r \<Rightarrow> r)"

text \<open>\<^verbatim>\<open>Math.hypot\<close> with two and with three arguments.\<close>

definition hypot2 :: "real \<Rightarrow> real \<Rightarrow> real" where
  "hypot2 dx dy = sqrt (dx * dx + dy * dy)"

definition hypot3 :: "real \<Rightarrow> real \<Rightarrow> real \<Rightarrow> real" where
  "hypot3 dx dy dz = sqrt (dx * dx + dy * dy + dz * dz)"

text \<open>The ports of the operators; \<open>TopZ\<close> and \<open>BottomZ\<close> exist in Rope3D only.\<close>

datatype port = Update | TopX | TopY | TopZ | BottomX | BottomY | BottomZ
  | Segments | Length | Gravity | Iter | Damping

section \<open>Rope3D\<close>

subsection \<open>initRope\<close>

text \<open>One turn of the loop of \<^verbatim>\<open>initRope\<close>: both arrays get a new point.\<close>

definition initRope3_push ::
  "real \<Rightarrow> real \<Rightarrow> real \<Rightarrow> real \<Rightarrow> nat \<Rightarrow> point3 list \<times> point3 list \<Rightarrow> point3 list \<times> point3 list" where
  "initRope3_push topX topY topZ segLen i acc =
     (let px = topX; py = topY - segLen * real i; pz = topZ
      in (fst acc @ [\<lparr>x = px, y = py, z = pz\<rparr>], snd acc @ [\<lparr>x = px, y = py, z = pz\<rparr>]))"

definition initRope3 :: "ports3 \<Rightarrow> real \<Rightarrow> real \<Rightarrow> real \<Rightarrow> state3 \<Rightarrow> state3" where
  "initRope3 P topX topY topZ st =
     (let n = nat (max 1 (to_int32 (inSegments P)));
          L = inLength P;
          segLen = L / real n;
          acc = fold (initRope3_push topX topY topZ segLen) [0..<Suc n] ([], [])
      in st\<lparr>positions := fst acc, prevPositions := snd acc,
            isSleeping := False, sleepCounter := 0\<rparr>)"

text \<open>
  The \<^verbatim>\<open>onChange\<close> handlers: the ports Segments, Rope Length, Top X, Top Y and Top Z have
  one, and each calls \<^verbatim>\<open>initRope\<close> with the current top position.  The other ports have no
  handler.  \<open>P\<close> holds the port values after the change.
\<close>

definition onChange3 :: "port \<Rightarrow> ports3 \<Rightarrow> state3 \<Rightarrow> state3" where
  "onChange3 p P st =
     (if p \<in> {Segments, Length, TopX, TopY, TopZ}
      then initRope3 P (inTopX P) (inTopY P) (inTopZ P) st
      else st)"

subsection \<open>step\<close>

text \<open>
  One turn of the Verlet loop, for the point \<open>i\<close>.  The accumulator holds the two arrays
  and \<^verbatim>\<open>maxVel\<close>.
\<close>

definition verlet3 ::
  "real \<Rightarrow> real \<Rightarrow> real \<Rightarrow> nat \<Rightarrow> point3 list \<times> point3 list \<times> real
     \<Rightarrow> point3 list \<times> point3 list \<times> real" where
  "verlet3 g dt damping i acc =
     (let pos = fst acc; prv = fst (snd acc); maxVel = snd (snd acc);
          p = pos ! i; prev = prv ! i;
          oldX = x p; oldY = y p; oldZ = z p;
          vx = (x p - x prev) * damping;
          vy = (y p - y prev) * damping;
          vz = (z p - z prev) * damping;
          prev' = prev\<lparr>x := oldX, y := oldY, z := oldZ\<rparr>;
          p' = p\<lparr>x := x p + vx, y := y p + (vy + g * dt * dt), z := z p + vz\<rparr>;
          vMag = max (max \<bar>vx\<bar> \<bar>vy\<bar>) \<bar>vz\<bar>
      in (pos[i := p'], prv[i := prev'], if vMag > maxVel then vMag else maxVel))"

text \<open>
  One turn of the inner constraint loop, for the segment \<open>i\<close> of a chain of \<open>n\<close> segments.
  \<^verbatim>\<open>if (!dist) continue\<close> leaves the array as it is.
\<close>

definition constrain3 :: "real \<Rightarrow> nat \<Rightarrow> nat \<Rightarrow> point3 list \<Rightarrow> point3 list" where
  "constrain3 restLen n i pos =
     (let p1 = pos ! i; p2 = pos ! (i + 1);
          dx = x p2 - x p1;
          dy = y p2 - y p1;
          dz = z p2 - z p1;
          dist = hypot3 dx dy dz
      in if dist = 0 then pos
         else
           let diff = (dist - restLen) / dist
           in if i = 0 then
                pos[i + 1 := p2\<lparr>x := x p2 - dx * diff, y := y p2 - dy * diff, z := z p2 - dz * diff\<rparr>]
              else if i = n - 1 then
                pos[i := p1\<lparr>x := x p1 + dx * diff, y := y p1 + dy * diff, z := z p1 + dz * diff\<rparr>]
              else
                let half = diff * 0.5
                in (pos[i := p1\<lparr>x := x p1 + dx * half, y := y p1 + dy * half, z := z p1 + dz * half\<rparr>])
                     [i + 1 := p2\<lparr>x := x p2 - dx * half, y := y p2 - dy * half, z := z p2 - dz * half\<rparr>])"

text \<open>One pass of the constraint solver: the segments \<open>0..n-1\<close> in index order.\<close>

definition constraint_pass3 :: "real \<Rightarrow> nat \<Rightarrow> point3 list \<Rightarrow> point3 list" where
  "constraint_pass3 restLen n pos = fold (constrain3 restLen n) [0..<n] pos"

text \<open>The outer constraint loop: \<open>iters\<close> passes.\<close>

definition solve3 :: "real \<Rightarrow> nat \<Rightarrow> nat \<Rightarrow> point3 list \<Rightarrow> point3 list" where
  "solve3 restLen n iters pos = fold (\<lambda>iter. constraint_pass3 restLen n) [0..<iters] pos"

text \<open>The Verlet loop over the points \<open>1..n-1\<close>, with \<^verbatim>\<open>maxVel\<close> starting at 0.\<close>

definition integrate3 ::
  "real \<Rightarrow> real \<Rightarrow> real \<Rightarrow> nat \<Rightarrow> point3 list \<Rightarrow> point3 list \<Rightarrow> point3 list \<times> point3 list \<times> real" where
  "integrate3 g dt damping n pos prv = fold (verlet3 g dt damping) [1..<n] (pos, prv, 0)"

text \<open>
  \<^verbatim>\<open>step\<close>.  \<open>n = positions.length - 1\<close> is at most 0 exactly when the array has fewer than
  two points.  The first read of \<^verbatim>\<open>prevPositions\<close> is at index \<open>n\<close>, its largest index in the
  function: it throws when \<^verbatim>\<open>prevPositions\<close> is shorter than \<^verbatim>\<open>positions\<close>, and no later read
  can.  The result is the new state and the returned \<^verbatim>\<open>maxVel\<close>.
\<close>

definition step3 ::
  "ports3 \<Rightarrow> real \<Rightarrow> real \<Rightarrow> real \<Rightarrow> real \<Rightarrow> real \<Rightarrow> real \<Rightarrow> real \<Rightarrow> state3
     \<Rightarrow> (state3 \<times> real) option" where
  "step3 P dt topX topY topZ bottomX bottomY bottomZ st =
     (let n = length (positions st) - 1
      in if n < 1 then Some (st, 0)
         else if length (prevPositions st) \<le> n then None
         else
           let g = inGravity P;
               L = inLength P;
               restLen = L / real n;
               iters = nat (max 1 (to_int32 (inIter P)));
               damping = inDamping P;
               pos1 = (positions st)[n := (positions st ! n)\<lparr>x := bottomX, y := bottomY, z := bottomZ\<rparr>];
               prv1 = (prevPositions st)
                        [n := (prevPositions st ! n)\<lparr>x := x (pos1 ! n), y := y (pos1 ! n), z := z (pos1 ! n)\<rparr>];
               acc = integrate3 g dt damping n pos1 prv1;
               pos2 = fst acc; prv2 = fst (snd acc); maxVel = snd (snd acc);
               pos3 = pos2[0 := (pos2 ! 0)\<lparr>x := topX, y := topY, z := topZ\<rparr>];
               prv3 = prv2[0 := (prv2 ! 0)\<lparr>x := x (pos3 ! 0), y := y (pos3 ! 0), z := z (pos3 ! 0)\<rparr>];
               pos4 = solve3 restLen n iters pos3
           in Some (st\<lparr>positions := pos4, prevPositions := prv3\<rparr>, maxVel))"

subsection \<open>onTriggered\<close>

text \<open>
  The loop that copies every current position into the previous position of the same
  index.  It reads \<^verbatim>\<open>prevPositions[i]\<close> for every index of \<^verbatim>\<open>positions\<close>.
\<close>

definition freeze3 :: "point3 list \<Rightarrow> point3 list \<Rightarrow> point3 list option" where
  "freeze3 pos prv =
     (if length prv < length pos then None
      else Some (fold (\<lambda>i pv. pv[i := (pv ! i)\<lparr>x := x (pos ! i), y := y (pos ! i), z := z (pos ! i)\<rparr>])
                   [0..<length pos] prv))"

definition inputsMoved3 :: "ports3 \<Rightarrow> state3 \<Rightarrow> bool" where
  "inputsMoved3 P st \<longleftrightarrow>
     lastTopX st = None \<or>
     \<bar>inTopX P - num (lastTopX st)\<bar> > INPUT_EPS \<or>
     \<bar>inTopY P - num (lastTopY st)\<bar> > INPUT_EPS \<or>
     \<bar>inTopZ P - num (lastTopZ st)\<bar> > INPUT_EPS \<or>
     \<bar>inBottomX P - num (lastBottomX st)\<bar> > INPUT_EPS \<or>
     \<bar>inBottomY P - num (lastBottomY st)\<bar> > INPUT_EPS \<or>
     \<bar>inBottomZ P - num (lastBottomZ st)\<bar> > INPUT_EPS"

text \<open>
  The time step of a frame, in seconds and clamped to 0.05.  \<open>now\<close> is the value of
  \<^verbatim>\<open>performance.now()\<close> at the start of the handler.
\<close>

definition frame_dt :: "real \<Rightarrow> real \<Rightarrow> real" where
  "frame_dt now lastT = (let dt = (now - lastT) / 1000 in if dt > 0.05 then 0.05 else dt)"

text \<open>
  The handler up to the wake-up test: the clock and the remembered inputs stored, and the
  rope initialised when \<^verbatim>\<open>positions\<close> is empty.
\<close>

definition begin3 :: "real \<Rightarrow> ports3 \<Rightarrow> state3 \<Rightarrow> state3" where
  "begin3 now P st =
     (let st1 = st\<lparr>lastTime := now,
                   lastTopX := Some (inTopX P), lastTopY := Some (inTopY P),
                   lastTopZ := Some (inTopZ P),
                   lastBottomX := Some (inBottomX P), lastBottomY := Some (inBottomY P),
                   lastBottomZ := Some (inBottomZ P)\<rparr>
      in if positions st1 = [] then initRope3 P (inTopX P) (inTopY P) (inTopZ P) st1 else st1)"

text \<open>
  The wake-up: when the rope sleeps and the inputs moved.  \<open>now'\<close> is the second reading of
  the clock.  The result is the state and the \<open>dt\<close> that \<^verbatim>\<open>step\<close> will get.
\<close>

definition wake3 :: "real \<Rightarrow> bool \<Rightarrow> real \<Rightarrow> state3 \<Rightarrow> (state3 \<times> real) option" where
  "wake3 now' moved dt st =
     (if isSleeping st \<and> moved then
        (case freeze3 (positions st) (prevPositions st) of
           None \<Rightarrow> None
         | Some prv \<Rightarrow>
             Some (st\<lparr>isSleeping := False, sleepCounter := 0, prevPositions := prv, lastTime := now'\<rparr>, 0))
      else Some (st, dt))"

text \<open>The physics of an awake frame: \<^verbatim>\<open>step\<close>, then the sleep counter.\<close>

definition physics3 :: "ports3 \<Rightarrow> bool \<Rightarrow> real \<Rightarrow> state3 \<Rightarrow> state3 option" where
  "physics3 P moved dt st =
     (case step3 P dt (inTopX P) (inTopY P) (inTopZ P) (inBottomX P) (inBottomY P) (inBottomZ P) st of
        None \<Rightarrow> None
      | Some (st1, maxVel) \<Rightarrow>
          if \<not> moved \<and> maxVel < VEL_EPS then
            (let st2 = st1\<lparr>sleepCounter := sleepCounter st1 + 1\<rparr>
             in if sleepCounter st2 \<ge> SLEEP_FRAMES then
                  (case freeze3 (positions st2) (prevPositions st2) of
                     None \<Rightarrow> None
                   | Some prv \<Rightarrow> Some (st2\<lparr>isSleeping := True, prevPositions := prv\<rparr>))
                else Some st2)
          else Some (st1\<lparr>sleepCounter := 0\<rparr>))"

definition flat3 :: "point3 list \<Rightarrow> real list" where
  "flat3 pos = concat (map (\<lambda>p. [x p, y p, z p]) pos)"

text \<open>
  \<^verbatim>\<open>inUpdate.onTriggered\<close>: the new state and the array given to the output port.
\<close>

definition onTriggered3 :: "real \<Rightarrow> real \<Rightarrow> ports3 \<Rightarrow> state3 \<Rightarrow> (state3 \<times> real list) option" where
  "onTriggered3 now now' P st =
     (let dt = frame_dt now (lastTime st);
          moved = inputsMoved3 P st;
          st1 = begin3 now P st
      in case wake3 now' moved dt st1 of
           None \<Rightarrow> None
         | Some (st2, dt2) \<Rightarrow>
             if \<not> isSleeping st2 then
               (case physics3 P moved dt2 st2 of
                  None \<Rightarrow> None
                | Some st3 \<Rightarrow> Some (st3, flat3 (positions st3)))
             else Some (st2, flat3 (positions st2)))"

text \<open>
  A run of frames: each frame gives the two clock readings and the port values of one
  call of the handler.
\<close>

fun run3 :: "(real \<times> real \<times> ports3) list \<Rightarrow> state3 \<Rightarrow> state3 option" where
  "run3 [] st = Some st"
| "run3 ((now, now', P) # fs) st =
     (case onTriggered3 now now' P st of
        None \<Rightarrow> None
      | Some (st', out) \<Rightarrow> run3 fs st')"

text \<open>
  A frame is still when the inputs did not move and, if the frame calls \<^verbatim>\<open>step\<close>, the
  returned \<^verbatim>\<open>maxVel\<close> is below \<^verbatim>\<open>VEL_EPS\<close>.  In a frame whose inputs did not move there is
  no wake-up, so \<^verbatim>\<open>step\<close> is called exactly when the rope is awake after the first part of
  the handler, and it gets the clamped \<open>dt\<close>.
\<close>

definition still3 :: "real \<Rightarrow> ports3 \<Rightarrow> state3 \<Rightarrow> bool" where
  "still3 now P st \<longleftrightarrow>
     \<not> inputsMoved3 P st \<and>
     (isSleeping (begin3 now P st) \<or>
      (case step3 P (frame_dt now (lastTime st)) (inTopX P) (inTopY P) (inTopZ P)
              (inBottomX P) (inBottomY P) (inBottomZ P) (begin3 now P st) of
         None \<Rightarrow> False
       | Some (st1, maxVel) \<Rightarrow> maxVel < VEL_EPS))"

fun still_run3 :: "(real \<times> real \<times> ports3) list \<Rightarrow> state3 \<Rightarrow> bool" where
  "still_run3 [] st = True"
| "still_run3 ((now, now', P) # fs) st =
     (still3 now P st \<and>
      (case onTriggered3 now now' P st of
         None \<Rightarrow> False
       | Some (st', out) \<Rightarrow> still_run3 fs st'))"

fun unmoved_run3 :: "(real \<times> real \<times> ports3) list \<Rightarrow> state3 \<Rightarrow> bool" where
  "unmoved_run3 [] st = True"
| "unmoved_run3 ((now, now', P) # fs) st =
     (\<not> inputsMoved3 P st \<and>
      (case onTriggered3 now now' P st of
         None \<Rightarrow> False
       | Some (st', out) \<Rightarrow> unmoved_run3 fs st'))"


section \<open>Rope2D\<close>

subsection \<open>initRope\<close>

text \<open>One turn of the loop of \<^verbatim>\<open>initRope\<close>: both arrays get a new point.\<close>

definition initRope2_push ::
  "real \<Rightarrow> real \<Rightarrow> real \<Rightarrow> nat \<Rightarrow> point2 list \<times> point2 list \<Rightarrow> point2 list \<times> point2 list" where
  "initRope2_push topX topY segLen i acc =
     (let px = topX; py = topY - segLen * real i
      in (fst acc @ [\<lparr>x = px, y = py\<rparr>], snd acc @ [\<lparr>x = px, y = py\<rparr>]))"

definition initRope2 :: "ports2 \<Rightarrow> real \<Rightarrow> real \<Rightarrow> state2 \<Rightarrow> state2" where
  "initRope2 P topX topY st =
     (let n = nat (max 1 (to_int32 (inSegments P)));
          L = inLength P;
          segLen = L / real n;
          acc = fold (initRope2_push topX topY segLen) [0..<Suc n] ([], [])
      in st\<lparr>positions := fst acc, prevPositions := snd acc,
            isSleeping := False, sleepCounter := 0\<rparr>)"

text \<open>
  The \<^verbatim>\<open>onChange\<close> handlers: the ports Segments, Rope Length, Top X and Top Y have
  one, and each calls \<^verbatim>\<open>initRope\<close> with the current top position.  The other ports have no
  handler.  \<open>P\<close> holds the port values after the change.
\<close>

definition onChange2 :: "port \<Rightarrow> ports2 \<Rightarrow> state2 \<Rightarrow> state2" where
  "onChange2 p P st =
     (if p \<in> {Segments, Length, TopX, TopY}
      then initRope2 P (inTopX P) (inTopY P) st
      else st)"

subsection \<open>step\<close>

text \<open>
  One turn of the Verlet loop, for the point \<open>i\<close>.  The accumulator holds the two arrays
  and \<^verbatim>\<open>maxVel\<close>.
\<close>

definition verlet2 ::
  "real \<Rightarrow> real \<Rightarrow> real \<Rightarrow> nat \<Rightarrow> point2 list \<times> point2 list \<times> real
     \<Rightarrow> point2 list \<times> point2 list \<times> real" where
  "verlet2 g dt damping i acc =
     (let pos = fst acc; prv = fst (snd acc); maxVel = snd (snd acc);
          p = pos ! i; prev = prv ! i;
          oldX = x p; oldY = y p;
          vx = (x p - x prev) * damping;
          vy = (y p - y prev) * damping;
          prev' = prev\<lparr>x := oldX, y := oldY\<rparr>;
          p' = p\<lparr>x := x p + vx, y := y p + (vy + g * dt * dt)\<rparr>;
          vMag = max \<bar>vx\<bar> \<bar>vy\<bar>
      in (pos[i := p'], prv[i := prev'], if vMag > maxVel then vMag else maxVel))"

text \<open>
  One turn of the inner constraint loop, for the segment \<open>i\<close> of a chain of \<open>n\<close> segments.
  \<^verbatim>\<open>if (!dist) continue\<close> leaves the array as it is.
\<close>

definition constrain2 :: "real \<Rightarrow> nat \<Rightarrow> nat \<Rightarrow> point2 list \<Rightarrow> point2 list" where
  "constrain2 restLen n i pos =
     (let p1 = pos ! i; p2 = pos ! (i + 1);
          dx = x p2 - x p1;
          dy = y p2 - y p1;
          dist = hypot2 dx dy
      in if dist = 0 then pos
         else
           let diff = (dist - restLen) / dist
           in if i = 0 then
                pos[i + 1 := p2\<lparr>x := x p2 - dx * diff, y := y p2 - dy * diff\<rparr>]
              else if i = n - 1 then
                pos[i := p1\<lparr>x := x p1 + dx * diff, y := y p1 + dy * diff\<rparr>]
              else
                let half = diff * 0.5
                in (pos[i := p1\<lparr>x := x p1 + dx * half, y := y p1 + dy * half\<rparr>])
                     [i + 1 := p2\<lparr>x := x p2 - dx * half, y := y p2 - dy * half\<rparr>])"

text \<open>One pass of the constraint solver: the segments \<open>0..n-1\<close> in index order.\<close>

definition constraint_pass2 :: "real \<Rightarrow> nat \<Rightarrow> point2 list \<Rightarrow> point2 list" where
  "constraint_pass2 restLen n pos = fold (constrain2 restLen n) [0..<n] pos"

text \<open>The outer constraint loop: \<open>iters\<close> passes.\<close>

definition solve2 :: "real \<Rightarrow> nat \<Rightarrow> nat \<Rightarrow> point2 list \<Rightarrow> point2 list" where
  "solve2 restLen n iters pos = fold (\<lambda>iter. constraint_pass2 restLen n) [0..<iters] pos"

text \<open>The Verlet loop over the points \<open>1..n-1\<close>, with \<^verbatim>\<open>maxVel\<close> starting at 0.\<close>

definition integrate2 ::
  "real \<Rightarrow> real \<Rightarrow> real \<Rightarrow> nat \<Rightarrow> point2 list \<Rightarrow> point2 list \<Rightarrow> point2 list \<times> point2 list \<times> real" where
  "integrate2 g dt damping n pos prv = fold (verlet2 g dt damping) [1..<n] (pos, prv, 0)"

text \<open>
  \<^verbatim>\<open>step\<close>.  \<open>n = positions.length - 1\<close> is at most 0 exactly when the array has fewer than
  two points.  The first read of \<^verbatim>\<open>prevPositions\<close> is at index \<open>n\<close>, its largest index in the
  function: it throws when \<^verbatim>\<open>prevPositions\<close> is shorter than \<^verbatim>\<open>positions\<close>, and no later read
  can.  The result is the new state and the returned \<^verbatim>\<open>maxVel\<close>.
\<close>

definition step2 ::
  "ports2 \<Rightarrow> real \<Rightarrow> real \<Rightarrow> real \<Rightarrow> real \<Rightarrow> real \<Rightarrow> state2
     \<Rightarrow> (state2 \<times> real) option" where
  "step2 P dt topX topY bottomX bottomY st =
     (let n = length (positions st) - 1
      in if n < 1 then Some (st, 0)
         else if length (prevPositions st) \<le> n then None
         else
           let g = inGravity P;
               L = inLength P;
               restLen = L / real n;
               iters = nat (max 1 (to_int32 (inIter P)));
               damping = inDamping P;
               pos1 = (positions st)[n := (positions st ! n)\<lparr>x := bottomX, y := bottomY\<rparr>];
               prv1 = (prevPositions st)
                        [n := (prevPositions st ! n)\<lparr>x := x (pos1 ! n), y := y (pos1 ! n)\<rparr>];
               acc = integrate2 g dt damping n pos1 prv1;
               pos2 = fst acc; prv2 = fst (snd acc); maxVel = snd (snd acc);
               pos3 = pos2[0 := (pos2 ! 0)\<lparr>x := topX, y := topY\<rparr>];
               prv3 = prv2[0 := (prv2 ! 0)\<lparr>x := x (pos3 ! 0), y := y (pos3 ! 0)\<rparr>];
               pos4 = solve2 restLen n iters pos3
           in Some (st\<lparr>positions := pos4, prevPositions := prv3\<rparr>, maxVel))"

subsection \<open>onTriggered\<close>

text \<open>
  The loop that copies every current position into the previous position of the same
  index.  It reads \<^verbatim>\<open>prevPositions[i]\<close> for every index of \<^verbatim>\<open>positions\<close>.
\<close>

definition freeze2 :: "point2 list \<Rightarrow> point2 list \<Rightarrow> point2 list option" where
  "freeze2 pos prv =
     (if length prv < length pos then None
      else Some (fold (\<lambda>i pv. pv[i := (pv ! i)\<lparr>x := x (pos ! i), y := y (pos ! i)\<rparr>])
                   [0..<length pos] prv))"

definition inputsMoved2 :: "ports2 \<Rightarrow> state2 \<Rightarrow> bool" where
  "inputsMoved2 P st \<longleftrightarrow>
     lastTopX st = None \<or>
     \<bar>inTopX P - num (lastTopX st)\<bar> > INPUT_EPS \<or>
     \<bar>inTopY P - num (lastTopY st)\<bar> > INPUT_EPS \<or>
     \<bar>inBottomX P - num (lastBottomX st)\<bar> > INPUT_EPS \<or>
     \<bar>inBottomY P - num (lastBottomY st)\<bar> > INPUT_EPS"

text \<open>
  The handler up to the wake-up test: the clock and the remembered inputs stored, and the
  rope initialised when \<^verbatim>\<open>positions\<close> is empty.
\<close>

definition begin2 :: "real \<Rightarrow> ports2 \<Rightarrow> state2 \<Rightarrow> state2" where
  "begin2 now P st =
     (let st1 = st\<lparr>lastTime := now,
                   lastTopX := Some (inTopX P), lastTopY := Some (inTopY P),
                   lastBottomX := Some (inBottomX P), lastBottomY := Some (inBottomY P)\<rparr>
      in if positions st1 = [] then initRope2 P (inTopX P) (inTopY P) st1 else st1)"

text \<open>
  The wake-up: when the rope sleeps and the inputs moved.  \<open>now'\<close> is the second reading of
  the clock.  The result is the state and the \<open>dt\<close> that \<^verbatim>\<open>step\<close> will get.
\<close>

definition wake2 :: "real \<Rightarrow> bool \<Rightarrow> real \<Rightarrow> state2 \<Rightarrow> (state2 \<times> real) option" where
  "wake2 now' moved dt st =
     (if isSleeping st \<and> moved then
        (case freeze2 (positions st) (prevPositions st) of
           None \<Rightarrow> None
         | Some prv \<Rightarrow>
             Some (st\<lparr>isSleeping := False, sleepCounter := 0, prevPositions := prv, lastTime := now'\<rparr>, 0))
      else Some (st, dt))"

text \<open>The physics of an awake frame: \<^verbatim>\<open>step\<close>, then the sleep counter.\<close>

definition physics2 :: "ports2 \<Rightarrow> bool \<Rightarrow> real \<Rightarrow> state2 \<Rightarrow> state2 option" where
  "physics2 P moved dt st =
     (case step2 P dt (inTopX P) (inTopY P) (inBottomX P) (inBottomY P) st of
        None \<Rightarrow> None
      | Some (st1, maxVel) \<Rightarrow>
          if \<not> moved \<and> maxVel < VEL_EPS then
            (let st2 = st1\<lparr>sleepCounter := sleepCounter st1 + 1\<rparr>
             in if sleepCounter st2 \<ge> SLEEP_FRAMES then
                  (case freeze2 (positions st2) (prevPositions st2) of
                     None \<Rightarrow> None
                   | Some prv \<Rightarrow> Some (st2\<lparr>isSleeping := True, prevPositions := prv\<rparr>))
                else Some st2)
          else Some (st1\<lparr>sleepCounter := 0\<rparr>))"

definition flat2 :: "point2 list \<Rightarrow> real list" where
  "flat2 pos = concat (map (\<lambda>p. [x p, y p, 0]) pos)"

text \<open>
  \<^verbatim>\<open>inUpdate.onTriggered\<close>: the new state and the array given to the output port.
\<close>

definition onTriggered2 :: "real \<Rightarrow> real \<Rightarrow> ports2 \<Rightarrow> state2 \<Rightarrow> (state2 \<times> real list) option" where
  "onTriggered2 now now' P st =
     (let dt = frame_dt now (lastTime st);
          moved = inputsMoved2 P st;
          st1 = begin2 now P st
      in case wake2 now' moved dt st1 of
           None \<Rightarrow> None
         | Some (st2, dt2) \<Rightarrow>
             if \<not> isSleeping st2 then
               (case physics2 P moved dt2 st2 of
                  None \<Rightarrow> None
                | Some st3 \<Rightarrow> Some (st3, flat2 (positions st3)))
             else Some (st2, flat2 (positions st2)))"

text \<open>
  A run of frames: each frame gives the two clock readings and the port values of one
  call of the handler.
\<close>

fun run2 :: "(real \<times> real \<times> ports2) list \<Rightarrow> state2 \<Rightarrow> state2 option" where
  "run2 [] st = Some st"
| "run2 ((now, now', P) # fs) st =
     (case onTriggered2 now now' P st of
        None \<Rightarrow> None
      | Some (st', out) \<Rightarrow> run2 fs st')"

text \<open>
  A frame is still when the inputs did not move and, if the frame calls \<^verbatim>\<open>step\<close>, the
  returned \<^verbatim>\<open>maxVel\<close> is below \<^verbatim>\<open>VEL_EPS\<close>.  In a frame whose inputs did not move there is
  no wake-up, so \<^verbatim>\<open>step\<close> is called exactly when the rope is awake after the first part of
  the handler, and it gets the clamped \<open>dt\<close>.
\<close>

definition still2 :: "real \<Rightarrow> ports2 \<Rightarrow> state2 \<Rightarrow> bool" where
  "still2 now P st \<longleftrightarrow>
     \<not> inputsMoved2 P st \<and>
     (isSleeping (begin2 now P st) \<or>
      (case step2 P (frame_dt now (lastTime st)) (inTopX P) (inTopY P)
              (inBottomX P) (inBottomY P) (begin2 now P st) of
         None \<Rightarrow> False
       | Some (st1, maxVel) \<Rightarrow> maxVel < VEL_EPS))"

fun still_run2 :: "(real \<times> real \<times> ports2) list \<Rightarrow> state2 \<Rightarrow> bool" where
  "still_run2 [] st = True"
| "still_run2 ((now, now', P) # fs) st =
     (still2 now P st \<and>
      (case onTriggered2 now now' P st of
         None \<Rightarrow> False
       | Some (st', out) \<Rightarrow> still_run2 fs st'))"

fun unmoved_run2 :: "(real \<times> real \<times> ports2) list \<Rightarrow> state2 \<Rightarrow> bool" where
  "unmoved_run2 [] st = True"
| "unmoved_run2 ((now, now', P) # fs) st =
     (\<not> inputsMoved2 P st \<and>
      (case onTriggered2 now now' P st of
         None \<Rightarrow> False
       | Some (st', out) \<Rightarrow> unmoved_run2 fs st'))"

section \<open>The divisions of step\<close>

text \<open>
  In the definitions above a quotient of the source is the division of the reals, which is
  total: it has a value for the divisor 0 too.  A quotient of JavaScript with the divisor 0
  is \<^verbatim>\<open>Infinity\<close>, \<^verbatim>\<open>-Infinity\<close> or \<^verbatim>\<open>NaN\<close>, none of them a real number.  To state where \<^verbatim>\<open>step\<close>
  divides, \<^verbatim>\<open>step\<close> and its constraint loops are given a second time, with every \<^verbatim>\<open>/\<close> of the
  source as the partial operation \<open>js_div\<close>, which has no result for the divisor 0.  A run that
  evaluates such a quotient ends with the fault \<open>DivByZero\<close>; a run that reads a property of
  \<^verbatim>\<open>undefined\<close> ends with the fault \<open>TypeError\<close>.
\<close>

datatype fault = TypeError | DivByZero

definition js_div :: "real \<Rightarrow> real \<Rightarrow> real option" where
  "js_div a b = (if b = 0 then None else Some (a / b))"

subsection \<open>Rope3D\<close>

text \<open>
  One turn of the inner constraint loop.  \<^verbatim>\<open>if (!dist) continue\<close> comes before the quotient
  \<^verbatim>\<open>(dist - restLen) / dist\<close>.
\<close>

definition constrain3_checked :: "real \<Rightarrow> nat \<Rightarrow> nat \<Rightarrow> point3 list \<Rightarrow> point3 list option" where
  "constrain3_checked restLen n i pos =
     (let p1 = pos ! i; p2 = pos ! (i + 1);
          dx = x p2 - x p1;
          dy = y p2 - y p1;
          dz = z p2 - z p1;
          dist = hypot3 dx dy dz
      in if dist = 0 then Some pos
         else
           case js_div (dist - restLen) dist of
             None \<Rightarrow> None
           | Some diff \<Rightarrow>
               Some (if i = 0 then
                  pos[i + 1 := p2\<lparr>x := x p2 - dx * diff, y := y p2 - dy * diff, z := z p2 - dz * diff\<rparr>]
                else if i = n - 1 then
                  pos[i := p1\<lparr>x := x p1 + dx * diff, y := y p1 + dy * diff, z := z p1 + dz * diff\<rparr>]
                else
                  let half = diff * 0.5
                  in (pos[i := p1\<lparr>x := x p1 + dx * half, y := y p1 + dy * half, z := z p1 + dz * half\<rparr>])
                       [i + 1 := p2\<lparr>x := x p2 - dx * half, y := y p2 - dy * half, z := z p2 - dz * half\<rparr>]))"

text \<open>A turn of the loop after a fault does not run.\<close>

definition checked_turn3 :: "real \<Rightarrow> nat \<Rightarrow> nat \<Rightarrow> point3 list option \<Rightarrow> point3 list option" where
  "checked_turn3 restLen n i acc =
     (case acc of None \<Rightarrow> None | Some pos \<Rightarrow> constrain3_checked restLen n i pos)"

definition constraint_pass3_checked :: "real \<Rightarrow> nat \<Rightarrow> point3 list option \<Rightarrow> point3 list option" where
  "constraint_pass3_checked restLen n acc = fold (checked_turn3 restLen n) [0..<n] acc"

definition solve3_checked :: "real \<Rightarrow> nat \<Rightarrow> nat \<Rightarrow> point3 list \<Rightarrow> point3 list option" where
  "solve3_checked restLen n iters pos =
     fold (\<lambda>iter. constraint_pass3_checked restLen n) [0..<iters] (Some pos)"

text \<open>
  \<^verbatim>\<open>step\<close>.  The quotient \<^verbatim>\<open>L / n\<close> is evaluated after the test \<^verbatim>\<open>n < 1\<close> and before the first
  read of \<^verbatim>\<open>prevPositions\<close>.
\<close>

definition step3_checked ::
  "ports3 \<Rightarrow> real \<Rightarrow> real \<Rightarrow> real \<Rightarrow> real \<Rightarrow> real \<Rightarrow> real \<Rightarrow> real \<Rightarrow> state3
     \<Rightarrow> fault + (state3 \<times> real)" where
  "step3_checked P dt topX topY topZ bottomX bottomY bottomZ st =
     (let n = length (positions st) - 1
      in if n < 1 then Inr (st, 0)
         else
           case js_div (inLength P) (real n) of
             None \<Rightarrow> Inl DivByZero
           | Some restLen \<Rightarrow>
               if length (prevPositions st) \<le> n then Inl TypeError
               else
                 let g = inGravity P;
                     iters = nat (max 1 (to_int32 (inIter P)));
                     damping = inDamping P;
                     pos1 = (positions st)[n := (positions st ! n)\<lparr>x := bottomX, y := bottomY, z := bottomZ\<rparr>];
                     prv1 = (prevPositions st)
                              [n := (prevPositions st ! n)\<lparr>x := x (pos1 ! n), y := y (pos1 ! n), z := z (pos1 ! n)\<rparr>];
                     acc = integrate3 g dt damping n pos1 prv1;
                     pos2 = fst acc; prv2 = fst (snd acc); maxVel = snd (snd acc);
                     pos3 = pos2[0 := (pos2 ! 0)\<lparr>x := topX, y := topY, z := topZ\<rparr>];
                     prv3 = prv2[0 := (prv2 ! 0)\<lparr>x := x (pos3 ! 0), y := y (pos3 ! 0), z := z (pos3 ! 0)\<rparr>]
                 in case solve3_checked restLen n iters pos3 of
                      None \<Rightarrow> Inl DivByZero
                    | Some pos4 \<Rightarrow> Inr (st\<lparr>positions := pos4, prevPositions := prv3\<rparr>, maxVel))"

subsection \<open>Rope2D\<close>

text \<open>
  One turn of the inner constraint loop.  \<^verbatim>\<open>if (!dist) continue\<close> comes before the quotient
  \<^verbatim>\<open>(dist - restLen) / dist\<close>.
\<close>

definition constrain2_checked :: "real \<Rightarrow> nat \<Rightarrow> nat \<Rightarrow> point2 list \<Rightarrow> point2 list option" where
  "constrain2_checked restLen n i pos =
     (let p1 = pos ! i; p2 = pos ! (i + 1);
          dx = x p2 - x p1;
          dy = y p2 - y p1;
          dist = hypot2 dx dy
      in if dist = 0 then Some pos
         else
           case js_div (dist - restLen) dist of
             None \<Rightarrow> None
           | Some diff \<Rightarrow>
               Some (if i = 0 then
                  pos[i + 1 := p2\<lparr>x := x p2 - dx * diff, y := y p2 - dy * diff\<rparr>]
                else if i = n - 1 then
                  pos[i := p1\<lparr>x := x p1 + dx * diff, y := y p1 + dy * diff\<rparr>]
                else
                  let half = diff * 0.5
                  in (pos[i := p1\<lparr>x := x p1 + dx * half, y := y p1 + dy * half\<rparr>])
                       [i + 1 := p2\<lparr>x := x p2 - dx * half, y := y p2 - dy * half\<rparr>]))"

text \<open>A turn of the loop after a fault does not run.\<close>

definition checked_turn2 :: "real \<Rightarrow> nat \<Rightarrow> nat \<Rightarrow> point2 list option \<Rightarrow> point2 list option" where
  "checked_turn2 restLen n i acc =
     (case acc of None \<Rightarrow> None | Some pos \<Rightarrow> constrain2_checked restLen n i pos)"

definition constraint_pass2_checked :: "real \<Rightarrow> nat \<Rightarrow> point2 list option \<Rightarrow> point2 list option" where
  "constraint_pass2_checked restLen n acc = fold (checked_turn2 restLen n) [0..<n] acc"

definition solve2_checked :: "real \<Rightarrow> nat \<Rightarrow> nat \<Rightarrow> point2 list \<Rightarrow> point2 list option" where
  "solve2_checked restLen n iters pos =
     fold (\<lambda>iter. constraint_pass2_checked restLen n) [0..<iters] (Some pos)"

text \<open>
  \<^verbatim>\<open>step\<close>.  The quotient \<^verbatim>\<open>L / n\<close> is evaluated after the test \<^verbatim>\<open>n < 1\<close> and before the first
  read of \<^verbatim>\<open>prevPositions\<close>.
\<close>

definition step2_checked ::
  "ports2 \<Rightarrow> real \<Rightarrow> real \<Rightarrow> real \<Rightarrow> real \<Rightarrow> real \<Rightarrow> state2
     \<Rightarrow> fault + (state2 \<times> real)" where
  "step2_checked P dt topX topY bottomX bottomY st =
     (let n = length (positions st) - 1
      in if n < 1 then Inr (st, 0)
         else
           case js_div (inLength P) (real n) of
             None \<Rightarrow> Inl DivByZero
           | Some restLen \<Rightarrow>
               if length (prevPositions st) \<le> n then Inl TypeError
               else
                 let g = inGravity P;
                     iters = nat (max 1 (to_int32 (inIter P)));
                     damping = inDamping P;
                     pos1 = (positions st)[n := (positions st ! n)\<lparr>x := bottomX, y := bottomY\<rparr>];
                     prv1 = (prevPositions st)
                              [n := (prevPositions st ! n)\<lparr>x := x (pos1 ! n), y := y (pos1 ! n)\<rparr>];
                     acc = integrate2 g dt damping n pos1 prv1;
                     pos2 = fst acc; prv2 = fst (snd acc); maxVel = snd (snd acc);
                     pos3 = pos2[0 := (pos2 ! 0)\<lparr>x := topX, y := topY\<rparr>];
                     prv3 = prv2[0 := (prv2 ! 0)\<lparr>x := x (pos3 ! 0), y := y (pos3 ! 0)\<rparr>]
                 in case solve2_checked restLen n iters pos3 of
                      None \<Rightarrow> Inl DivByZero
                    | Some pos4 \<Rightarrow> Inr (st\<lparr>positions := pos4, prevPositions := prv3\<rparr>, maxVel))"

section \<open>Reachable states\<close>

text \<open>
  The state when the operator is loaded (\<open>t0\<close> is the clock reading then), and the states
  that the handlers can produce from it.
\<close>

definition start3 :: "real \<Rightarrow> state3" where
  "start3 t0 =
     \<lparr>positions = [], prevPositions = [], lastTime = t0, isSleeping = False, sleepCounter = 0,
      lastTopX = None, lastTopY = None, lastBottomX = None, lastBottomY = None,
      lastTopZ = None, lastBottomZ = None\<rparr>"

definition start2 :: "real \<Rightarrow> state2" where
  "start2 t0 =
     \<lparr>positions = [], prevPositions = [], lastTime = t0, isSleeping = False, sleepCounter = 0,
      lastTopX = None, lastTopY = None, lastBottomX = None, lastBottomY = None\<rparr>"

inductive reachable3 :: "state3 \<Rightarrow> bool" where
  "reachable3 (start3 t0)"
| "reachable3 st \<Longrightarrow> reachable3 (onChange3 p P st)"
| "reachable3 st \<Longrightarrow> onTriggered3 now now' P st = Some (st', out) \<Longrightarrow> reachable3 st'"

inductive reachable2 :: "state2 \<Rightarrow> bool" where
  "reachable2 (start2 t0)"
| "reachable2 st \<Longrightarrow> reachable2 (onChange2 p P st)"
| "reachable2 st \<Longrightarrow> onTriggered2 now now' P st = Some (st', out) \<Longrightarrow> reachable2 st'"

section \<open>Notions used in the statements\<close>

text \<open>
  The largest absolute component of the damped velocity of a point, from its current and
  its previous position.
\<close>

definition vMag3 :: "real \<Rightarrow> point3 \<Rightarrow> point3 \<Rightarrow> real" where
  "vMag3 damping p prev =
     max (max \<bar>(x p - x prev) * damping\<bar> \<bar>(y p - y prev) * damping\<bar>) \<bar>(z p - z prev) * damping\<bar>"

definition vMag2 :: "real \<Rightarrow> point2 \<Rightarrow> point2 \<Rightarrow> real" where
  "vMag2 damping p prev = max \<bar>(x p - x prev) * damping\<bar> \<bar>(y p - y prev) * damping\<bar>"

text \<open>
  The length of the segment \<open>i\<close> of a chain, its correction factor for the rest length
  \<open>restLen\<close>, and the point \<open>p\<close> moved by \<open>k\<close> times the vector from \<open>p1\<close> to \<open>p2\<close>.
\<close>

definition seg_dist3 :: "point3 list \<Rightarrow> nat \<Rightarrow> real" where
  "seg_dist3 pos i =
     hypot3 (x (pos ! (i + 1)) - x (pos ! i)) (y (pos ! (i + 1)) - y (pos ! i))
       (z (pos ! (i + 1)) - z (pos ! i))"

definition seg_corr3 :: "real \<Rightarrow> point3 list \<Rightarrow> nat \<Rightarrow> real" where
  "seg_corr3 restLen pos i = (seg_dist3 pos i - restLen) / seg_dist3 pos i"

definition moved3 :: "point3 \<Rightarrow> point3 \<Rightarrow> point3 \<Rightarrow> real \<Rightarrow> point3" where
  "moved3 p p1 p2 k =
     \<lparr>x = x p + (x p2 - x p1) * k, y = y p + (y p2 - y p1) * k, z = z p + (z p2 - z p1) * k\<rparr>"

definition seg_dist2 :: "point2 list \<Rightarrow> nat \<Rightarrow> real" where
  "seg_dist2 pos i =
     hypot2 (x (pos ! (i + 1)) - x (pos ! i)) (y (pos ! (i + 1)) - y (pos ! i))"

definition seg_corr2 :: "real \<Rightarrow> point2 list \<Rightarrow> nat \<Rightarrow> real" where
  "seg_corr2 restLen pos i = (seg_dist2 pos i - restLen) / seg_dist2 pos i"

definition moved2 :: "point2 \<Rightarrow> point2 \<Rightarrow> point2 \<Rightarrow> real \<Rightarrow> point2" where
  "moved2 p p1 p2 k = \<lparr>x = x p + (x p2 - x p1) * k, y = y p + (y p2 - y p1) * k\<rparr>"

text \<open>
  The array that \<^verbatim>\<open>step\<close> gives to the constraint solver: the end point pinned, the free
  points integrated, the top point pinned.
\<close>

definition pinned3 ::
  "ports3 \<Rightarrow> real \<Rightarrow> real \<Rightarrow> real \<Rightarrow> real \<Rightarrow> real \<Rightarrow> real \<Rightarrow> real \<Rightarrow> state3 \<Rightarrow> point3 list" where
  "pinned3 P dt tX tY tZ bX bY bZ st =
     (let n = length (positions st) - 1
      in (fst (integrate3 (inGravity P) dt (inDamping P) n
                ((positions st)[n := \<lparr>x = bX, y = bY, z = bZ\<rparr>])
                ((prevPositions st)[n := \<lparr>x = bX, y = bY, z = bZ\<rparr>])))
           [0 := \<lparr>x = tX, y = tY, z = tZ\<rparr>])"

definition pinned2 ::
  "ports2 \<Rightarrow> real \<Rightarrow> real \<Rightarrow> real \<Rightarrow> real \<Rightarrow> real \<Rightarrow> state2 \<Rightarrow> point2 list" where
  "pinned2 P dt tX tY bX bY st =
     (let n = length (positions st) - 1
      in (fst (integrate2 (inGravity P) dt (inDamping P) n
                ((positions st)[n := \<lparr>x = bX, y = bY\<rparr>])
                ((prevPositions st)[n := \<lparr>x = bX, y = bY\<rparr>])))
           [0 := \<lparr>x = tX, y = tY\<rparr>])"

text \<open>
  The motion update in the words of the specification: a free point with current position
  \<open>p\<close> and previous position \<open>prev\<close> gets the velocity \<open>(p - prev) * damping\<close> added on
  every axis, and \<open>gravity * dt\<^sup>2\<close> on the y axis.  The chain after the motion update and
  the pinning of both ends: point 0 is the supplied top position, the last point the
  supplied bottom position, and every point between them is the moved point of the state
  before the call.
\<close>

definition spec_moved3 :: "real \<Rightarrow> real \<Rightarrow> real \<Rightarrow> point3 \<Rightarrow> point3 \<Rightarrow> point3" where
  "spec_moved3 gravity dt damping p prev =
     \<lparr>x = x p + (x p - x prev) * damping,
      y = y p + (y p - y prev) * damping + gravity * dt\<^sup>2,
      z = z p + (z p - z prev) * damping\<rparr>"

definition spec_motion3 ::
  "ports3 \<Rightarrow> real \<Rightarrow> real \<Rightarrow> real \<Rightarrow> real \<Rightarrow> real \<Rightarrow> real \<Rightarrow> real \<Rightarrow> state3 \<Rightarrow> point3 list" where
  "spec_motion3 P dt tX tY tZ bX bY bZ st =
     map (\<lambda>i. if i = 0 then \<lparr>x = tX, y = tY, z = tZ\<rparr>
              else if i = length (positions st) - 1 then \<lparr>x = bX, y = bY, z = bZ\<rparr>
              else spec_moved3 (inGravity P) dt (inDamping P) (positions st ! i) (prevPositions st ! i))
       [0..<length (positions st)]"

definition spec_moved2 :: "real \<Rightarrow> real \<Rightarrow> real \<Rightarrow> point2 \<Rightarrow> point2 \<Rightarrow> point2" where
  "spec_moved2 gravity dt damping p prev =
     \<lparr>x = x p + (x p - x prev) * damping,
      y = y p + (y p - y prev) * damping + gravity * dt\<^sup>2\<rparr>"

definition spec_motion2 ::
  "ports2 \<Rightarrow> real \<Rightarrow> real \<Rightarrow> real \<Rightarrow> real \<Rightarrow> real \<Rightarrow> state2 \<Rightarrow> point2 list" where
  "spec_motion2 P dt tX tY bX bY st =
     map (\<lambda>i. if i = 0 then \<lparr>x = tX, y = tY\<rparr>
              else if i = length (positions st) - 1 then \<lparr>x = bX, y = bY\<rparr>
              else spec_moved2 (inGravity P) dt (inDamping P) (positions st ! i) (prevPositions st ! i))
       [0..<length (positions st)]"

section \<open>Example configurations\<close>

text \<open>
  The default port values of the sources, with two segments, and a chain of three points
  hanging from the origin.
\<close>

definition example_ports3 :: ports3 where
  "example_ports3 =
     \<lparr>inTopX = 0, inTopY = 1.5, inBottomX = 0, inBottomY = -0.5, inSegments = 2, inLength = 2,
      inGravity = -9.8, inIter = 8, inDamping = 0.94, inTopZ = 0, inBottomZ = 0\<rparr>"

definition example_ports2 :: ports2 where
  "example_ports2 =
     \<lparr>inTopX = 0, inTopY = 1.5, inBottomX = 0, inBottomY = -0.5, inSegments = 2, inLength = 2,
      inGravity = -9.8, inIter = 8, inDamping = 0.94\<rparr>"

definition example_rope3 :: state3 where
  "example_rope3 =
     \<lparr>positions = [\<lparr>x = 0, y = 0, z = 0\<rparr>, \<lparr>x = 0, y = -1, z = 0\<rparr>, \<lparr>x = 0, y = -2, z = 0\<rparr>],
      prevPositions = [\<lparr>x = 0, y = 0, z = 0\<rparr>, \<lparr>x = 0, y = -1, z = 0\<rparr>, \<lparr>x = 0, y = -2, z = 0\<rparr>],
      lastTime = 0, isSleeping = False, sleepCounter = 0,
      lastTopX = None, lastTopY = None, lastBottomX = None, lastBottomY = None,
      lastTopZ = None, lastBottomZ = None\<rparr>"

definition example_rope2 :: state2 where
  "example_rope2 =
     \<lparr>positions = [\<lparr>x = 0, y = 0\<rparr>, \<lparr>x = 0, y = -1\<rparr>, \<lparr>x = 0, y = -2\<rparr>],
      prevPositions = [\<lparr>x = 0, y = 0\<rparr>, \<lparr>x = 0, y = -1\<rparr>, \<lparr>x = 0, y = -2\<rparr>],
      lastTime = 0, isSleeping = False, sleepCounter = 0,
      lastTopX = None, lastTopY = None, lastBottomX = None, lastBottomY = None\<rparr>"

text \<open>
  A rope of one segment of length 2, as \<^verbatim>\<open>initRope\<close> leaves it for the top position at the
  origin.
\<close>

definition single_ports3 :: ports3 where
  "single_ports3 =
     \<lparr>inTopX = 0, inTopY = 0, inBottomX = 0, inBottomY = -4, inSegments = 1, inLength = 2,
      inGravity = -9.8, inIter = 8, inDamping = 0.94, inTopZ = 0, inBottomZ = 0\<rparr>"

definition single_ports2 :: ports2 where
  "single_ports2 =
     \<lparr>inTopX = 0, inTopY = 0, inBottomX = 0, inBottomY = -4, inSegments = 1, inLength = 2,
      inGravity = -9.8, inIter = 8, inDamping = 0.94\<rparr>"

definition single_rope3 :: state3 where
  "single_rope3 =
     \<lparr>positions = [\<lparr>x = 0, y = 0, z = 0\<rparr>, \<lparr>x = 0, y = -2, z = 0\<rparr>],
      prevPositions = [\<lparr>x = 0, y = 0, z = 0\<rparr>, \<lparr>x = 0, y = -2, z = 0\<rparr>],
      lastTime = 0, isSleeping = False, sleepCounter = 0,
      lastTopX = None, lastTopY = None, lastBottomX = None, lastBottomY = None,
      lastTopZ = None, lastBottomZ = None\<rparr>"

definition single_rope2 :: state2 where
  "single_rope2 =
     \<lparr>positions = [\<lparr>x = 0, y = 0\<rparr>, \<lparr>x = 0, y = -2\<rparr>],
      prevPositions = [\<lparr>x = 0, y = 0\<rparr>, \<lparr>x = 0, y = -2\<rparr>],
      lastTime = 0, isSleeping = False, sleepCounter = 0,
      lastTopX = None, lastTopY = None, lastBottomX = None, lastBottomY = None\<rparr>"

text \<open>
  The chain of three points asleep, with the inputs of the last frame remembered: the top
  at the origin and the bottom at \<open>(0, -2, 0)\<close>.
\<close>

definition sleeping_rope3 :: state3 where
  "sleeping_rope3 =
     example_rope3\<lparr>isSleeping := True, sleepCounter := 6,
       lastTopX := Some 0, lastTopY := Some 0, lastTopZ := Some 0,
       lastBottomX := Some 0, lastBottomY := Some (-2), lastBottomZ := Some 0\<rparr>"

definition sleeping_rope2 :: state2 where
  "sleeping_rope2 =
     example_rope2\<lparr>isSleeping := True, sleepCounter := 6,
       lastTopX := Some 0, lastTopY := Some 0,
       lastBottomX := Some 0, lastBottomY := Some (-2)\<rparr>"

text \<open>
  The same chain awake and at rest, and the port values that hold its ends where they
  are: every segment has the rest length 1.
\<close>

definition resting_ports3 :: ports3 where
  "resting_ports3 = example_ports3\<lparr>inTopY := 0, inBottomY := -2\<rparr>"

definition resting_ports2 :: ports2 where
  "resting_ports2 = example_ports2\<lparr>inTopY := 0, inBottomY := -2\<rparr>"

definition resting_rope3 :: "nat \<Rightarrow> state3" where
  "resting_rope3 c = sleeping_rope3\<lparr>isSleeping := False, sleepCounter := c\<rparr>"

definition resting_rope2 :: "nat \<Rightarrow> state2" where
  "resting_rope2 c = sleeping_rope2\<lparr>isSleeping := False, sleepCounter := c\<rparr>"

text \<open>
  A chain of three segments on the y axis whose point 2 is moving down: its previous
  position is half a unit above its current one.
\<close>

definition moving_ports3 :: ports3 where
  "moving_ports3 =
     \<lparr>inTopX = 0, inTopY = 0, inBottomX = 0, inBottomY = -3, inSegments = 3, inLength = 3,
      inGravity = -8, inIter = 1, inDamping = 1 / 2, inTopZ = 0, inBottomZ = 0\<rparr>"

definition moving_ports2 :: ports2 where
  "moving_ports2 =
     \<lparr>inTopX = 0, inTopY = 0, inBottomX = 0, inBottomY = -3, inSegments = 3, inLength = 3,
      inGravity = -8, inIter = 1, inDamping = 1 / 2\<rparr>"

definition moving_rope3 :: state3 where
  "moving_rope3 =
     \<lparr>positions = [\<lparr>x = 0, y = 0, z = 0\<rparr>, \<lparr>x = 0, y = -1, z = 0\<rparr>,
                   \<lparr>x = 0, y = -2, z = 0\<rparr>, \<lparr>x = 0, y = -3, z = 0\<rparr>],
      prevPositions = [\<lparr>x = 0, y = 0, z = 0\<rparr>, \<lparr>x = 0, y = -1, z = 0\<rparr>,
                       \<lparr>x = 0, y = -3 / 2, z = 0\<rparr>, \<lparr>x = 0, y = -3, z = 0\<rparr>],
      lastTime = 0, isSleeping = False, sleepCounter = 0,
      lastTopX = None, lastTopY = None, lastBottomX = None, lastBottomY = None,
      lastTopZ = None, lastBottomZ = None\<rparr>"

definition moving_rope2 :: state2 where
  "moving_rope2 =
     \<lparr>positions = [\<lparr>x = 0, y = 0\<rparr>, \<lparr>x = 0, y = -1\<rparr>, \<lparr>x = 0, y = -2\<rparr>, \<lparr>x = 0, y = -3\<rparr>],
      prevPositions = [\<lparr>x = 0, y = 0\<rparr>, \<lparr>x = 0, y = -1\<rparr>, \<lparr>x = 0, y = -3 / 2\<rparr>, \<lparr>x = 0, y = -3\<rparr>],
      lastTime = 0, isSleeping = False, sleepCounter = 0,
      lastTopX = None, lastTopY = None, lastBottomX = None, lastBottomY = None\<rparr>"

text \<open>
  A rope of two segments whose three points are all at the origin, at rest, with no
  gravity: after the motion update every segment has length 0.
\<close>

definition collapsed_ports3 :: ports3 where
  "collapsed_ports3 =
     \<lparr>inTopX = 0, inTopY = 0, inBottomX = 0, inBottomY = 0, inSegments = 2, inLength = 2,
      inGravity = 0, inIter = 8, inDamping = 0.94, inTopZ = 0, inBottomZ = 0\<rparr>"

definition collapsed_ports2 :: ports2 where
  "collapsed_ports2 =
     \<lparr>inTopX = 0, inTopY = 0, inBottomX = 0, inBottomY = 0, inSegments = 2, inLength = 2,
      inGravity = 0, inIter = 8, inDamping = 0.94\<rparr>"

definition collapsed_rope3 :: state3 where
  "collapsed_rope3 =
     \<lparr>positions = [\<lparr>x = 0, y = 0, z = 0\<rparr>, \<lparr>x = 0, y = 0, z = 0\<rparr>, \<lparr>x = 0, y = 0, z = 0\<rparr>],
      prevPositions = [\<lparr>x = 0, y = 0, z = 0\<rparr>, \<lparr>x = 0, y = 0, z = 0\<rparr>, \<lparr>x = 0, y = 0, z = 0\<rparr>],
      lastTime = 0, isSleeping = False, sleepCounter = 0,
      lastTopX = None, lastTopY = None, lastBottomX = None, lastBottomY = None,
      lastTopZ = None, lastBottomZ = None\<rparr>"

definition collapsed_rope2 :: state2 where
  "collapsed_rope2 =
     \<lparr>positions = [\<lparr>x = 0, y = 0\<rparr>, \<lparr>x = 0, y = 0\<rparr>, \<lparr>x = 0, y = 0\<rparr>],
      prevPositions = [\<lparr>x = 0, y = 0\<rparr>, \<lparr>x = 0, y = 0\<rparr>, \<lparr>x = 0, y = 0\<rparr>],
      lastTime = 0, isSleeping = False, sleepCounter = 0,
      lastTopX = None, lastTopY = None, lastBottomX = None, lastBottomY = None\<rparr>"

section \<open>The loops of Rope3D\<close>

lemma fold_invariant:
  "(\<And>i s. i \<in> set js \<Longrightarrow> Q s \<Longrightarrow> Q (f i s)) \<Longrightarrow> Q s \<Longrightarrow> Q (fold f js s)"
  by (induction js arbitrary: s) auto

lemma initRope3_push_fold:
  "fold (initRope3_push tX tY tZ s) [0..<k] ([], []) =
     (map (\<lambda>i. \<lparr>x = tX, y = tY - s * real i, z = tZ\<rparr>) [0..<k],
      map (\<lambda>i. \<lparr>x = tX, y = tY - s * real i, z = tZ\<rparr>) [0..<k])"
  by (induction k) (simp_all add: initRope3_push_def Let_def)

lemma length_constrain3 [simp]: "length (constrain3 r n i pos) = length pos"
  by (simp add: constrain3_def Let_def)

lemma length_constraint_pass3 [simp]: "length (constraint_pass3 r n pos) = length pos"
  unfolding constraint_pass3_def
  by (rule fold_invariant [where Q = "\<lambda>s. length s = length pos"]) simp_all

lemma length_solve3 [simp]: "length (solve3 r n k pos) = length pos"
  unfolding solve3_def
  by (rule fold_invariant [where Q = "\<lambda>s. length s = length pos"]) simp_all

lemma constrain3_keeps_0: "constrain3 r n i pos ! 0 = pos ! 0"
  by (simp add: constrain3_def Let_def)

lemma constrain3_keeps_n: "i < n \<Longrightarrow> 2 \<le> n \<Longrightarrow> constrain3 r n i pos ! n = pos ! n"
  by (auto simp add: constrain3_def Let_def)

lemma pass3_keeps_0: "constraint_pass3 r n pos ! 0 = pos ! 0"
  unfolding constraint_pass3_def
  by (rule fold_invariant [where Q = "\<lambda>s. s ! 0 = pos ! 0"]) (simp_all add: constrain3_keeps_0)

lemma pass3_keeps_n: "2 \<le> n \<Longrightarrow> constraint_pass3 r n pos ! n = pos ! n"
  unfolding constraint_pass3_def
  by (rule fold_invariant [where Q = "\<lambda>s. s ! n = pos ! n"]) (simp_all add: constrain3_keeps_n)

lemma solve3_keeps_0: "solve3 r n k pos ! 0 = pos ! 0"
  unfolding solve3_def
  by (rule fold_invariant [where Q = "\<lambda>s. s ! 0 = pos ! 0"]) (simp_all add: pass3_keeps_0)

lemma solve3_keeps_n: "2 \<le> n \<Longrightarrow> solve3 r n k pos ! n = pos ! n"
  unfolding solve3_def
  by (rule fold_invariant [where Q = "\<lambda>s. s ! n = pos ! n"]) (simp_all add: pass3_keeps_n)

lemma solve3_funpow: "solve3 r n k pos = (constraint_pass3 r n ^^ k) pos"
  unfolding solve3_def by (induction k) simp_all

lemma verlet3_length:
  "length (fst (verlet3 g dt d i acc)) = length (fst acc) \<and>
   length (fst (snd (verlet3 g dt d i acc))) = length (fst (snd acc))"
  by (simp add: verlet3_def Let_def)

lemma verlet3_fold_length:
  "length (fst (fold (verlet3 g dt d) js acc)) = length (fst acc) \<and>
   length (fst (snd (fold (verlet3 g dt d) js acc))) = length (fst (snd acc))"
  by (rule fold_invariant [where Q = "\<lambda>s. length (fst s) = length (fst acc) \<and>
        length (fst (snd s)) = length (fst (snd acc))"]) (simp_all add: verlet3_length)

lemma verlet3_other:
  "j \<noteq> i \<Longrightarrow> fst (verlet3 g dt d i acc) ! j = fst acc ! j \<and>
     fst (snd (verlet3 g dt d i acc)) ! j = fst (snd acc) ! j"
  by (simp add: verlet3_def Let_def)

lemma verlet3_fold_other:
  "j \<notin> set js \<Longrightarrow> fst (fold (verlet3 g dt d) js acc) ! j = fst acc ! j \<and>
     fst (snd (fold (verlet3 g dt d) js acc)) ! j = fst (snd acc) ! j"
proof (induction js arbitrary: acc)
  case Nil
  then show ?case by simp
next
  case (Cons a js)
  then have "j \<noteq> a" and "j \<notin> set js" by auto
  with Cons.IH [of "verlet3 g dt d a acc"] verlet3_other [of j a g dt d acc]
  show ?case by simp
qed

lemma verlet3_at:
  "i < length (fst acc) \<Longrightarrow> i < length (fst (snd acc)) \<Longrightarrow>
   fst (verlet3 g dt d i acc) ! i =
     \<lparr>x = x (fst acc ! i) + (x (fst acc ! i) - x (fst (snd acc) ! i)) * d,
      y = y (fst acc ! i) + ((y (fst acc ! i) - y (fst (snd acc) ! i)) * d + g * dt * dt),
      z = z (fst acc ! i) + (z (fst acc ! i) - z (fst (snd acc) ! i)) * d\<rparr> \<and>
   fst (snd (verlet3 g dt d i acc)) ! i = fst acc ! i"
  by (simp add: verlet3_def Let_def)

lemma verlet3_fold_at:
  "distinct js \<Longrightarrow> i \<in> set js \<Longrightarrow> i < length (fst acc) \<Longrightarrow> i < length (fst (snd acc)) \<Longrightarrow>
   fst (fold (verlet3 g dt d) js acc) ! i =
     \<lparr>x = x (fst acc ! i) + (x (fst acc ! i) - x (fst (snd acc) ! i)) * d,
      y = y (fst acc ! i) + ((y (fst acc ! i) - y (fst (snd acc) ! i)) * d + g * dt * dt),
      z = z (fst acc ! i) + (z (fst acc ! i) - z (fst (snd acc) ! i)) * d\<rparr> \<and>
   fst (snd (fold (verlet3 g dt d) js acc)) ! i = fst acc ! i"
proof (induction js arbitrary: acc)
  case Nil
  then show ?case by simp
next
  case (Cons a js)
  show ?case
  proof (cases "i = a")
    case True
    with Cons.prems have "i \<notin> set js" by simp
    from verlet3_fold_other [OF this, of g dt d "verlet3 g dt d a acc"]
      verlet3_at [OF Cons.prems(3,4), of g dt d] True
    show ?thesis by simp
  next
    case False
    with Cons.prems have a: "distinct js" "i \<in> set js" by auto
    have l: "i < length (fst (verlet3 g dt d a acc))" "i < length (fst (snd (verlet3 g dt d a acc)))"
      using Cons.prems(3,4) by (simp_all add: verlet3_length)
    from Cons.IH [OF a l] verlet3_other [OF False, of g dt d acc]
    show ?thesis by simp
  qed
qed

lemma verlet3_maxVel:
  "snd (snd (verlet3 g dt d i acc)) = max (snd (snd acc)) (vMag3 d (fst acc ! i) (fst (snd acc) ! i))"
  by (simp add: verlet3_def Let_def vMag3_def max_def)

lemma verlet3_fold_maxVel:
  "distinct js \<Longrightarrow>
   snd (snd (fold (verlet3 g dt d) js acc)) =
     Max (insert (snd (snd acc)) ((\<lambda>i. vMag3 d (fst acc ! i) (fst (snd acc) ! i)) ` set js))"
proof (induction js arbitrary: acc)
  case Nil
  then show ?case by simp
next
  case (Cons a js)
  let ?acc = "verlet3 g dt d a acc"
  from Cons.prems have d: "distinct js" and a: "a \<notin> set js" by simp_all
  have same: "(\<lambda>i. vMag3 d (fst ?acc ! i) (fst (snd ?acc) ! i)) ` set js =
        (\<lambda>i. vMag3 d (fst acc ! i) (fst (snd acc) ! i)) ` set js"
  proof (rule image_cong [OF refl])
    fix i assume "i \<in> set js"
    with a have "i \<noteq> a" by auto
    from verlet3_other [OF this, of g dt d acc]
    show "vMag3 d (fst ?acc ! i) (fst (snd ?acc) ! i) = vMag3 d (fst acc ! i) (fst (snd acc) ! i)"
      by simp
  qed
  have "snd (snd (fold (verlet3 g dt d) (a # js) acc)) =
      Max (insert (snd (snd ?acc)) ((\<lambda>i. vMag3 d (fst ?acc ! i) (fst (snd ?acc) ! i)) ` set js))"
    using Cons.IH [OF d, of ?acc] by simp
  also have "\<dots> = Max (insert (max (snd (snd acc)) (vMag3 d (fst acc ! a) (fst (snd acc) ! a)))
        ((\<lambda>i. vMag3 d (fst acc ! i) (fst (snd acc) ! i)) ` set js))"
    by (simp only: same verlet3_maxVel)
  also have "\<dots> = Max (insert (snd (snd acc)) ((\<lambda>i. vMag3 d (fst acc ! i) (fst (snd acc) ! i)) ` set (a # js)))"
  proof (cases "js = []")
    case True
    then show ?thesis by (simp add: max.commute)
  next
    case False
    then show ?thesis
      by (simp add: max.assoc max.left_commute max.commute)
  qed
  finally show ?case .
qed

lemma upd3_eq [simp]: "(p::point3)\<lparr>x := a, y := b, z := c\<rparr> = \<lparr>x = a, y = b, z = c\<rparr>"
  by simp

lemma integrate3_length [simp]:
  "length (fst (integrate3 g dt d n pos prv)) = length pos"
  "length (fst (snd (integrate3 g dt d n pos prv))) = length prv"
  unfolding integrate3_def using verlet3_fold_length [of g dt d "[1..<n]" "(pos, prv, 0)"] by simp_all

lemma integrate3_other:
  "j = 0 \<or> n \<le> j \<Longrightarrow>
   fst (integrate3 g dt d n pos prv) ! j = pos ! j \<and>
   fst (snd (integrate3 g dt d n pos prv)) ! j = prv ! j"
  unfolding integrate3_def
  using verlet3_fold_other [of j "[1..<n]" g dt d "(pos, prv, 0)"] by auto

lemma integrate3_free:
  "1 \<le> i \<Longrightarrow> i < n \<Longrightarrow> i < length pos \<Longrightarrow> i < length prv \<Longrightarrow>
   fst (integrate3 g dt d n pos prv) ! i =
     \<lparr>x = x (pos ! i) + (x (pos ! i) - x (prv ! i)) * d,
      y = y (pos ! i) + ((y (pos ! i) - y (prv ! i)) * d + g * dt * dt),
      z = z (pos ! i) + (z (pos ! i) - z (prv ! i)) * d\<rparr> \<and>
   fst (snd (integrate3 g dt d n pos prv)) ! i = pos ! i"
  unfolding integrate3_def
  using verlet3_fold_at [of "[1..<n]" i "(pos, prv, 0)" g dt d] by simp

lemma integrate3_maxVel:
  "snd (snd (integrate3 g dt d n pos prv)) =
     Max (insert 0 ((\<lambda>i. vMag3 d (pos ! i) (prv ! i)) ` {1..<n}))"
  unfolding integrate3_def
  using verlet3_fold_maxVel [of "[1..<n]" g dt d "(pos, prv, 0)"] by simp

lemma step3_unfold:
  assumes "2 \<le> length (positions st)" "length (positions st) \<le> length (prevPositions st)"
  shows "step3 P dt tX tY tZ bX bY bZ st =
    (let n = length (positions st) - 1;
         top = \<lparr>x = tX, y = tY, z = tZ\<rparr>; bottom = \<lparr>x = bX, y = bY, z = bZ\<rparr>;
         acc = integrate3 (inGravity P) dt (inDamping P) n
                 ((positions st)[n := bottom]) ((prevPositions st)[n := bottom])
     in Some (st\<lparr>positions := solve3 (inLength P / real n) n (nat (max 1 (to_int32 (inIter P))))
                                  ((fst acc)[0 := top]),
                 prevPositions := (fst (snd acc))[0 := top]\<rparr>,
              snd (snd acc)))"
proof -
  from assms have "positions st \<noteq> []" "prevPositions st \<noteq> []" by auto
  with assms show ?thesis by (simp add: step3_def Let_def)
qed

lemma step3_short: "length (positions st) < 2 \<Longrightarrow> step3 P dt tX tY tZ bX bY bZ st = Some (st, 0)"
  by (simp add: step3_def Let_def) 

lemma step3_pins_top:
  assumes "2 \<le> length (positions st)" "length (positions st) \<le> length (prevPositions st)"
  shows "\<exists>st' mv. step3 P dt tX tY tZ bX bY bZ st = Some (st', mv) \<and>
           length (positions st') = length (positions st) \<and>
           length (prevPositions st') = length (prevPositions st) \<and>
           positions st' ! 0 = \<lparr>x = tX, y = tY, z = tZ\<rparr> \<and>
           prevPositions st' ! 0 = \<lparr>x = tX, y = tY, z = tZ\<rparr>"
proof -
  from assms have "positions st \<noteq> []" "prevPositions st \<noteq> []" by auto
  with assms show ?thesis by (simp add: step3_unfold Let_def solve3_keeps_0)
qed

lemma step3_pins_bottom:
  assumes "3 \<le> length (positions st)" "length (positions st) \<le> length (prevPositions st)"
    and "step3 P dt tX tY tZ bX bY bZ st = Some (st', mv)"
  shows "positions st' ! (length (positions st) - 1) = \<lparr>x = bX, y = bY, z = bZ\<rparr>"
proof -
  let ?n = "length (positions st) - 1"
  have n: "2 \<le> ?n" "?n \<noteq> 0" "?n < length (positions st)" using assms(1) by simp_all
  have "2 \<le> length (positions st)" using assms(1) by simp
  from step3_unfold [OF this assms(2), of P dt tX tY tZ bX bY bZ] assms(3)
  have "positions st' = solve3 (inLength P / real ?n) ?n (nat (max 1 (to_int32 (inIter P))))
      ((fst (integrate3 (inGravity P) dt (inDamping P) ?n
          ((positions st)[?n := \<lparr>x = bX, y = bY, z = bZ\<rparr>])
          ((prevPositions st)[?n := \<lparr>x = bX, y = bY, z = bZ\<rparr>])))[0 := \<lparr>x = tX, y = tY, z = tZ\<rparr>])"
    by (auto simp add: Let_def)
  then show ?thesis
    using n by (simp add: solve3_keeps_n integrate3_other)
qed

lemma hypot3_axis [simp]: "hypot3 0 b 0 = \<bar>b\<bar>"
  by (simp add: hypot3_def)

lemma pass3_one: "constraint_pass3 r (Suc 0) pos = constrain3 r (Suc 0) 0 pos"
  by (simp add: constraint_pass3_def)

lemma integrate3_one: "integrate3 g dt d (Suc 0) pos prv = (pos, prv, 0)"
  by (simp add: integrate3_def)

lemma to_int32_id: "- (2 ^ 31) \<le> v \<Longrightarrow> v < 2 ^ 31 \<Longrightarrow> to_int32 v = v"
  unfolding to_int32_def by (simp add: sint_sbintrunc' signed_take_bit_int_eq_self)

lemma initRope3_positions:
  "positions (initRope3 P tX tY tZ st) =
     map (\<lambda>i. \<lparr>x = tX, y = tY - inLength P / real (nat (max 1 (to_int32 (inSegments P)))) * real i, z = tZ\<rparr>)
       [0..<Suc (nat (max 1 (to_int32 (inSegments P))))]"
  by (simp only: initRope3_def Let_def initRope3_push_fold) simp

lemma initRope3_prevPositions:
  "prevPositions (initRope3 P tX tY tZ st) = positions (initRope3 P tX tY tZ st)"
  by (simp only: initRope3_def Let_def initRope3_push_fold) simp

lemma initRope3_flags:
  "isSleeping (initRope3 P tX tY tZ st) = False"
  "sleepCounter (initRope3 P tX tY tZ st) = 0"
  "lastTime (initRope3 P tX tY tZ st) = lastTime st"
  "lastTopX (initRope3 P tX tY tZ st) = lastTopX st"
  "lastTopY (initRope3 P tX tY tZ st) = lastTopY st"
  "lastTopZ (initRope3 P tX tY tZ st) = lastTopZ st"
  "lastBottomX (initRope3 P tX tY tZ st) = lastBottomX st"
  "lastBottomY (initRope3 P tX tY tZ st) = lastBottomY st"
  "lastBottomZ (initRope3 P tX tY tZ st) = lastBottomZ st"
  by (simp_all add: initRope3_def Let_def)

lemma initRope3_idem:
  "initRope3 P tX tY tZ (initRope3 P tX tY tZ st) = initRope3 P tX tY tZ st"
  by (simp add: initRope3_def Let_def)

lemma initRope3_length:
  "length (positions (initRope3 P tX tY tZ st)) = nat (max 1 (to_int32 (inSegments P))) + 1"
  by (simp add: initRope3_positions)

lemma point3_eta [simp]: "\<lparr>x = x r, y = y r, z = z r\<rparr> = (r::point3)"
  by simp

lemma freeze_fold:
  "k \<le> length pos \<Longrightarrow> k \<le> length prv \<Longrightarrow>
   fold (\<lambda>i pv. pv[i := pos ! i]) [0..<k] prv = take k pos @ drop k prv"
proof (induction k)
  case 0
  then show ?case by simp
next
  case (Suc k)
  then have k: "k < length pos" "k < length prv" by simp_all
  have d: "drop k prv = prv ! k # drop (Suc k) prv"
    using k by (simp add: Cons_nth_drop_Suc)
  have "(take k pos @ drop k prv)[k := pos ! k] = take (Suc k) pos @ drop (Suc k) prv"
    using k by (subst d) (simp add: list_update_append take_Suc_conv_app_nth)
  with Suc show ?case by simp
qed

lemma freeze3_Some:
  "length pos \<le> length prv \<Longrightarrow> freeze3 pos prv = Some (pos @ drop (length pos) prv)"
  by (simp add: freeze3_def freeze_fold)

lemma freeze3_eq: "length prv = length pos \<Longrightarrow> freeze3 pos prv = Some pos"
  by (simp add: freeze3_Some)

lemma freeze3_None: "length prv < length pos \<Longrightarrow> freeze3 pos prv = None"
  by (simp add: freeze3_def)

lemma begin3_keep:
  "positions st \<noteq> [] \<Longrightarrow>
   begin3 now P st = st\<lparr>lastTime := now,
                   lastTopX := Some (inTopX P), lastTopY := Some (inTopY P),
                   lastTopZ := Some (inTopZ P),
                   lastBottomX := Some (inBottomX P), lastBottomY := Some (inBottomY P),
                   lastBottomZ := Some (inBottomZ P)\<rparr>"
  by (simp add: begin3_def Let_def)

lemma begin3_positions_ne: "positions (begin3 now P st) \<noteq> []"
  by (simp add: begin3_def Let_def initRope3_positions del: upt_Suc)

lemma begin3_fresh:
  "positions st = [] \<Longrightarrow> \<not> isSleeping (begin3 now P st) \<and> sleepCounter (begin3 now P st) = 0"
  by (simp add: begin3_def Let_def initRope3_flags)

lemma step3_SomeD:
  assumes "step3 P dt tX tY tZ bX bY bZ st = Some (st', mv)"
  shows "length (positions st') = length (positions st)"
    and "length (prevPositions st') = length (prevPositions st)"
    and "isSleeping st' = isSleeping st"
    and "sleepCounter st' = sleepCounter st"
    and "2 \<le> length (positions st) \<Longrightarrow> length (positions st) \<le> length (prevPositions st)"
proof -
  have "length (positions st') = length (positions st) \<and>
        length (prevPositions st') = length (prevPositions st) \<and>
        isSleeping st' = isSleeping st \<and> sleepCounter st' = sleepCounter st \<and>
        (2 \<le> length (positions st) \<longrightarrow> length (positions st) \<le> length (prevPositions st))"
  proof (cases "length (positions st) < 2")
    case True
    with assms show ?thesis by (simp add: step3_short)
  next
    case False
    show ?thesis
    proof (cases "length (positions st) \<le> length (prevPositions st)")
      case True
      with False assms show ?thesis by (auto simp add: step3_unfold Let_def)
    next
      case False
      with \<open>\<not> length (positions st) < 2\<close>
      have "\<not> length (positions st) - 1 < 1" "length (prevPositions st) \<le> length (positions st) - 1"
        by simp_all
      with assms show ?thesis
        by (simp add: step3_def)
    qed
  qed
  then show "length (positions st') = length (positions st)"
    and "length (prevPositions st') = length (prevPositions st)"
    and "isSleeping st' = isSleeping st"
    and "sleepCounter st' = sleepCounter st"
    and "2 \<le> length (positions st) \<Longrightarrow> length (positions st) \<le> length (prevPositions st)"
    by simp_all
qed

lemma onTriggered3_asleep:
  assumes "isSleeping st" "positions st \<noteq> []" "\<not> inputsMoved3 P st"
  shows "onTriggered3 now now' P st =
    Some (st\<lparr>lastTime := now,
             lastTopX := Some (inTopX P), lastTopY := Some (inTopY P),
             lastTopZ := Some (inTopZ P),
             lastBottomX := Some (inBottomX P), lastBottomY := Some (inBottomY P),
             lastBottomZ := Some (inBottomZ P)\<rparr>, flat3 (positions st))"
  using assms by (simp add: onTriggered3_def Let_def begin3_keep wake3_def)

lemma onTriggered3_wake:
  assumes "isSleeping st" "positions st \<noteq> []" "inputsMoved3 P st"
    and "length (prevPositions st) = length (positions st)"
    and "step3 P 0 (inTopX P) (inTopY P) (inTopZ P) (inBottomX P) (inBottomY P) (inBottomZ P)
           ((begin3 now P st)\<lparr>isSleeping := False, sleepCounter := 0,
               prevPositions := positions st, lastTime := now'\<rparr>) = Some (st1, mv)"
  shows "onTriggered3 now now' P st = Some (st1\<lparr>sleepCounter := 0\<rparr>, flat3 (positions st1))"
  using assms
  by (simp add: onTriggered3_def Let_def begin3_keep wake3_def freeze3_eq physics3_def
      step3_SomeD(3) [OF assms(5)])

lemma begin3_same:
  "positions st \<noteq> [] \<Longrightarrow> isSleeping (begin3 now P st) = isSleeping st"
  "positions st \<noteq> [] \<Longrightarrow> sleepCounter (begin3 now P st) = sleepCounter st"
  "positions st \<noteq> [] \<Longrightarrow> positions (begin3 now P st) = positions st"
  "positions st \<noteq> [] \<Longrightarrow> prevPositions (begin3 now P st) = prevPositions st"
  by (simp_all add: begin3_keep)

lemma still3_frame:
  assumes still: "still3 now P st"
    and run: "onTriggered3 now now' P st = Some (st', out)"
    and inv: "k = 0 \<or> (positions st \<noteq> [] \<and> (isSleeping st \<or> k \<le> sleepCounter st))"
  shows "positions st' \<noteq> [] \<and>
         (isSleeping st' \<or> (Suc k \<le> sleepCounter st' \<and> sleepCounter st' < SLEEP_FRAMES))"
proof -
  let ?b = "begin3 now P st"
  let ?dt = "frame_dt now (lastTime st)"
  from still have nm: "\<not> inputsMoved3 P st" by (simp add: still3_def)
  have ne: "positions ?b \<noteq> []" by (rule begin3_positions_ne)
  show ?thesis
  proof (cases "isSleeping ?b")
    case True
    with run nm have "st' = ?b"
      by (simp add: onTriggered3_def Let_def wake3_def)
    with True ne show ?thesis by simp
  next
    case False
    with still obtain s1 mv where
      st: "step3 P ?dt (inTopX P) (inTopY P) (inTopZ P) (inBottomX P) (inBottomY P) (inBottomZ P) ?b
            = Some (s1, mv)" and mv: "mv < VEL_EPS"
      by (auto simp add: still3_def split: option.splits)
    have c: "sleepCounter s1 = sleepCounter ?b" and l: "length (positions s1) = length (positions ?b)"
      and a: "\<not> isSleeping s1"
      using step3_SomeD(1,3,4) [OF st] False by simp_all
    have k: "k \<le> sleepCounter ?b"
    proof (cases "k = 0")
      case True
      then show ?thesis by simp
    next
      case False
      with inv have p: "positions st \<noteq> []" and "isSleeping st \<or> k \<le> sleepCounter st" by simp_all
      with \<open>\<not> isSleeping ?b\<close> show ?thesis by (simp add: begin3_same)
    qed
    from run nm False st mv
    have r: "physics3 P False ?dt ?b = Some st'"
      by (simp add: onTriggered3_def Let_def wake3_def split: option.splits)
    show ?thesis
    proof (cases "SLEEP_FRAMES \<le> sleepCounter s1 + 1")
      case True
      with r st mv obtain prv where "st' = s1\<lparr>sleepCounter := sleepCounter s1 + 1, isSleeping := True, prevPositions := prv\<rparr>"
        by (auto simp add: physics3_def Let_def split: option.splits)
      with l ne show ?thesis by auto
    next
      case False
      with r st mv have "st' = s1\<lparr>sleepCounter := sleepCounter s1 + 1\<rparr>"
        by (simp add: physics3_def Let_def)
      with l ne c k False show ?thesis by auto
    qed
  qed
qed

lemma still_run3_inv:
  "still_run3 fs st \<Longrightarrow> fs \<noteq> [] \<Longrightarrow>
   k = 0 \<or> (positions st \<noteq> [] \<and> (isSleeping st \<or> k \<le> sleepCounter st)) \<Longrightarrow>
   \<exists>st'. run3 fs st = Some st' \<and> positions st' \<noteq> [] \<and>
     (isSleeping st' \<or> (k + length fs \<le> sleepCounter st' \<and> sleepCounter st' < SLEEP_FRAMES))"
proof (induction fs arbitrary: st k)
  case Nil
  then show ?case by simp
next
  case (Cons f fs)
  obtain now now' P where f: "f = (now, now', P)" by (cases f) auto
  from Cons.prems(1) f obtain s1 out where
    s: "still3 now P st" and r: "onTriggered3 now now' P st = Some (s1, out)" and rest: "still_run3 fs s1"
    by (auto split: option.splits)
  from still3_frame [OF s r Cons.prems(3)]
  have i1: "positions s1 \<noteq> []"
    "isSleeping s1 \<or> (Suc k \<le> sleepCounter s1 \<and> sleepCounter s1 < SLEEP_FRAMES)" by simp_all
  show ?case
  proof (cases "fs = []")
    case True
    with f r i1 show ?thesis by simp
  next
    case False
    from i1 have "Suc k = 0 \<or> (positions s1 \<noteq> [] \<and> (isSleeping s1 \<or> Suc k \<le> sleepCounter s1))"
      by auto
    from Cons.IH [OF rest False this] f r show ?thesis by simp
  qed
qed

lemma still_run3_sleeps:
  assumes "still_run3 fs st" "length fs = SLEEP_FRAMES"
  shows "\<exists>st'. run3 fs st = Some st' \<and> isSleeping st' \<and> positions st' \<noteq> []"
proof -
  from assms(2) have "fs \<noteq> []" by (auto simp add: SLEEP_FRAMES_def)
  from still_run3_inv [OF assms(1) this, of 0] assms(2) show ?thesis by auto
qed

lemma unmoved_run3_frozen:
  "unmoved_run3 fs st \<Longrightarrow> isSleeping st \<Longrightarrow> positions st \<noteq> [] \<Longrightarrow>
   \<exists>st'. run3 fs st = Some st' \<and> isSleeping st' \<and> positions st' = positions st \<and>
     prevPositions st' = prevPositions st"
proof (induction fs arbitrary: st)
  case Nil
  then show ?case by simp
next
  case (Cons f fs)
  obtain now now' P where f: "f = (now, now', P)" by (cases f) auto
  from Cons.prems f have nm: "\<not> inputsMoved3 P st" by simp
  note r = onTriggered3_asleep [OF Cons.prems(2,3) nm, of now now']
  let ?s = "st\<lparr>lastTime := now,
             lastTopX := Some (inTopX P), lastTopY := Some (inTopY P),
             lastTopZ := Some (inTopZ P),
             lastBottomX := Some (inBottomX P), lastBottomY := Some (inBottomY P),
             lastBottomZ := Some (inBottomZ P)\<rparr>"
  from Cons.prems(1) f r have "unmoved_run3 fs ?s" by simp
  from Cons.IH [OF this] Cons.prems(2,3) f r show ?case by simp
qed

lemma step3_total:
  assumes "length (positions st) \<le> length (prevPositions st)"
  shows "\<exists>st' mv. step3 P dt tX tY tZ bX bY bZ st = Some (st', mv) \<and>
           length (positions st') = length (positions st) \<and>
           length (prevPositions st') = length (prevPositions st) \<and>
           isSleeping st' = isSleeping st \<and> sleepCounter st' = sleepCounter st"
proof (cases "length (positions st) < 2")
  case True
  then show ?thesis by (simp add: step3_short)
next
  case False
  then have "2 \<le> length (positions st)" by simp
  from step3_unfold [OF this assms, of P dt tX tY tZ bX bY bZ]
  show ?thesis by (simp add: Let_def)
qed

lemma physics3_total:
  assumes "length (prevPositions st) = length (positions st)"
  shows "\<exists>s. physics3 P moved dt st = Some s \<and>
           length (positions s) = length (positions st) \<and>
           length (prevPositions s) = length (positions st)"
proof -
  from assms have "length (positions st) \<le> length (prevPositions st)" by simp
  from step3_total [OF this, of P dt "inTopX P" "inTopY P" "inTopZ P" "inBottomX P" "inBottomY P" "inBottomZ P"]
  obtain s1 mv where s: "step3 P dt (inTopX P) (inTopY P) (inTopZ P) (inBottomX P) (inBottomY P) (inBottomZ P) st
      = Some (s1, mv)"
    and sl: "length (positions s1) = length (positions st)" "length (prevPositions s1) = length (positions st)"
    using assms by auto
  show ?thesis
  proof (cases "\<not> moved \<and> mv < VEL_EPS")
    case True
    show ?thesis
    proof (cases "SLEEP_FRAMES \<le> sleepCounter s1 + 1")
      case True
      with \<open>\<not> moved \<and> mv < VEL_EPS\<close> s sl show ?thesis
        by (simp add: physics3_def Let_def freeze3_eq)
    next
      case False
      with \<open>\<not> moved \<and> mv < VEL_EPS\<close> s sl show ?thesis
        by (simp add: physics3_def Let_def)
    qed
  next
    case False
    with s sl show ?thesis by (auto simp add: physics3_def)
  qed
qed

lemma onTriggered3_begin:
  assumes len: "length (prevPositions (begin3 now P st)) = length (positions (begin3 now P st))"
  shows "\<exists>st' out. onTriggered3 now now' P st = Some (st', out) \<and>
           length (positions st') = length (positions (begin3 now P st)) \<and>
           length (prevPositions st') = length (positions (begin3 now P st))"
proof -
  let ?b = "begin3 now P st"
  have "\<exists>w dt2. wake3 now' (inputsMoved3 P st) (frame_dt now (lastTime st)) ?b = Some (w, dt2) \<and>
      length (positions w) = length (positions ?b) \<and> length (prevPositions w) = length (positions ?b)"
  proof (cases "isSleeping ?b \<and> inputsMoved3 P st")
    case True
    with len show ?thesis by (simp add: wake3_def freeze3_eq)
  next
    case False
    then have "wake3 now' (inputsMoved3 P st) (frame_dt now (lastTime st)) ?b =
        Some (?b, frame_dt now (lastTime st))"
      unfolding wake3_def by (rule if_not_P)
    with len show ?thesis by simp
  qed
  then obtain w dt2 where w: "wake3 now' (inputsMoved3 P st) (frame_dt now (lastTime st)) ?b = Some (w, dt2)"
    and wl: "length (positions w) = length (positions ?b)" "length (prevPositions w) = length (positions ?b)"
    by auto
  show ?thesis
  proof (cases "isSleeping w")
    case True
    with w wl show ?thesis by (simp add: onTriggered3_def Let_def)
  next
    case False
    from wl have "length (prevPositions w) = length (positions w)" by simp
    from physics3_total [OF this, of P "inputsMoved3 P st" dt2] wl
    obtain s2 where p: "physics3 P (inputsMoved3 P st) dt2 w = Some s2"
      and pl: "length (positions s2) = length (positions ?b)" "length (prevPositions s2) = length (positions ?b)"
      by auto
    from w False p pl show ?thesis by (simp add: onTriggered3_def Let_def)
  qed
qed

lemma onTriggered3_chain:
  assumes ne: "positions st \<noteq> []" and len: "length (prevPositions st) = length (positions st)"
  shows "\<exists>st' out. onTriggered3 now now' P st = Some (st', out) \<and>
           length (positions st') = length (positions st) \<and>
           length (prevPositions st') = length (positions st)"
  using onTriggered3_begin [of now P st now'] ne len by (simp add: begin3_same)

lemma begin3_lengths:
  "length (prevPositions st) = length (positions st) \<Longrightarrow>
   length (prevPositions (begin3 now P st)) = length (positions (begin3 now P st))"
  by (simp add: begin3_def Let_def initRope3_prevPositions)

lemma onTriggered3_total:
  assumes "length (prevPositions st) = length (positions st)"
  shows "\<exists>st' out. onTriggered3 now now' P st = Some (st', out) \<and> positions st' \<noteq> [] \<and>
           length (prevPositions st') = length (positions st')"
proof -
  from onTriggered3_begin [OF begin3_lengths [OF assms], of now now' P]
  obtain st' out where r: "onTriggered3 now now' P st = Some (st', out)"
    and l: "length (positions st') = length (positions (begin3 now P st))"
      "length (prevPositions st') = length (positions (begin3 now P st))"
    by blast
  from l begin3_positions_ne [of now P st] have "positions st' \<noteq> []" by auto
  with r l show ?thesis by simp
qed

lemma run3_chain:
  "positions st \<noteq> [] \<Longrightarrow> length (prevPositions st) = length (positions st) \<Longrightarrow>
   \<exists>st'. run3 fs st = Some st' \<and> length (positions st') = length (positions st) \<and>
     length (prevPositions st') = length (positions st)"
proof (induction fs arbitrary: st)
  case Nil
  then show ?case by simp
next
  case (Cons f fs)
  obtain now now' P where f: "f = (now, now', P)" by (cases f) auto
  from onTriggered3_chain [OF Cons.prems, of now now' P]
  obtain s1 out where r: "onTriggered3 now now' P st = Some (s1, out)"
    and l: "length (positions s1) = length (positions st)" "length (prevPositions s1) = length (positions st)"
    by auto
  from l Cons.prems(1) have "positions s1 \<noteq> []" "length (prevPositions s1) = length (positions s1)"
    by auto
  from Cons.IH [OF this] f r l show ?case by simp
qed
lemma constrain3_cases:
  assumes "0 < seg_dist3 pos i"
  shows "constrain3 r n i pos =
    (if i = 0 then pos[i + 1 := moved3 (pos ! (i + 1)) (pos ! i) (pos ! (i + 1)) (- seg_corr3 r pos i)]
     else if i = n - 1 then pos[i := moved3 (pos ! i) (pos ! i) (pos ! (i + 1)) (seg_corr3 r pos i)]
     else pos[i := moved3 (pos ! i) (pos ! i) (pos ! (i + 1)) (seg_corr3 r pos i / 2),
              i + 1 := moved3 (pos ! (i + 1)) (pos ! i) (pos ! (i + 1)) (- (seg_corr3 r pos i / 2))])"
  using assms
  by (simp add: constrain3_def Let_def seg_dist3_def seg_corr3_def moved3_def)

lemma step3_solver:
  assumes "2 \<le> length (positions st)" "length (positions st) \<le> length (prevPositions st)"
  shows "\<exists>st' mv. step3 P dt tX tY tZ bX bY bZ st = Some (st', mv) \<and>
    positions st' =
      (constraint_pass3 (inLength P / real (length (positions st) - 1)) (length (positions st) - 1)
         ^^ nat (max 1 (to_int32 (inIter P)))) (pinned3 P dt tX tY tZ bX bY bZ st)"
  by (simp add: step3_unfold [OF assms] Let_def pinned3_def solve3_funpow)

lemma iters_id: "1 \<le> k \<Longrightarrow> k < 2 ^ 31 \<Longrightarrow> nat (max 1 (to_int32 k)) = nat k"
  by (simp add: to_int32_id)

lemma fold_upt_Suc: "fold f [0..<Suc k] s = f k (fold f [0..<k] s)"
  by simp
lemma step3_motion:
  assumes n: "length (positions st) = n + 1" "1 \<le> n"
    and len: "length (positions st) \<le> length (prevPositions st)"
  shows "\<exists>st' mv. step3 P dt tX tY tZ bX bY bZ st = Some (st', mv) \<and>
    (\<forall>i. 1 \<le> i \<and> i < n \<longrightarrow>
       pinned3 P dt tX tY tZ bX bY bZ st ! i =
         \<lparr>x = x (positions st ! i) + (x (positions st ! i) - x (prevPositions st ! i)) * inDamping P,
          y = y (positions st ! i) + (y (positions st ! i) - y (prevPositions st ! i)) * inDamping P
                + inGravity P * dt\<^sup>2,
          z = z (positions st ! i) + (z (positions st ! i) - z (prevPositions st ! i)) * inDamping P\<rparr> \<and>
       prevPositions st' ! i = positions st ! i) \<and>
    mv = Max (insert 0 ((\<lambda>i. vMag3 (inDamping P) (positions st ! i) (prevPositions st ! i)) ` {1..<n}))"
proof -
  let ?b = "\<lparr>x = bX, y = bY, z = bZ\<rparr>"
  let ?pos1 = "(positions st)[n := ?b]" and ?prv1 = "(prevPositions st)[n := ?b]"
  let ?acc = "integrate3 (inGravity P) dt (inDamping P) n ?pos1 ?prv1"
  from n have two: "2 \<le> length (positions st)" and nn: "length (positions st) - Suc 0 = n" by simp_all
  have r: "step3 P dt tX tY tZ bX bY bZ st =
      Some (st\<lparr>positions := solve3 (inLength P / real n) n (nat (max 1 (to_int32 (inIter P))))
                                ((fst ?acc)[0 := \<lparr>x = tX, y = tY, z = tZ\<rparr>]),
               prevPositions := (fst (snd ?acc))[0 := \<lparr>x = tX, y = tY, z = tZ\<rparr>]\<rparr>,
            snd (snd ?acc))"
    using step3_unfold [OF two len, of P dt tX tY tZ bX bY bZ] by (simp add: Let_def nn)
  have pin: "pinned3 P dt tX tY tZ bX bY bZ st = (fst ?acc)[0 := \<lparr>x = tX, y = tY, z = tZ\<rparr>]"
    by (simp add: pinned3_def Let_def nn)
  have free: "fst ?acc ! i =
         \<lparr>x = x (positions st ! i) + (x (positions st ! i) - x (prevPositions st ! i)) * inDamping P,
          y = y (positions st ! i) + (y (positions st ! i) - y (prevPositions st ! i)) * inDamping P
                + inGravity P * dt\<^sup>2,
          z = z (positions st ! i) + (z (positions st ! i) - z (prevPositions st ! i)) * inDamping P\<rparr> \<and>
       fst (snd ?acc) ! i = positions st ! i" if i: "1 \<le> i" "i < n" for i
  proof -
    from i n len have l: "i < length ?pos1" "i < length ?prv1" by simp_all
    from integrate3_free [OF i l, of "inGravity P" dt "inDamping P"] i
    show ?thesis by (simp add: power2_eq_square)
  qed
  have "(\<lambda>i. vMag3 (inDamping P) (?pos1 ! i) (?prv1 ! i)) ` {1..<n} =
        (\<lambda>i. vMag3 (inDamping P) (positions st ! i) (prevPositions st ! i)) ` {1..<n}"
    by (rule image_cong) simp_all
  then have mv: "snd (snd ?acc) =
      Max (insert 0 ((\<lambda>i. vMag3 (inDamping P) (positions st ! i) (prevPositions st ! i)) ` {1..<n}))"
    by (simp add: integrate3_maxVel)
  from r pin free mv show ?thesis by simp
qed
lemma hypot3_zero: "hypot3 dx dy dz = 0 \<longleftrightarrow> dx = 0 \<and> dy = 0 \<and> dz = 0"
proof -
  have "dx * dx + dy * dy + dz * dz = 0 \<longleftrightarrow> dx = 0 \<and> dy = 0 \<and> dz = 0"
    using sum_power2_eq_zero_iff [of "dx" "dy"] 
    by (auto simp add: add_nonneg_eq_0_iff)
  then show ?thesis by (simp add: hypot3_def)
qed

lemma hypot3_nonneg: "0 \<le> hypot3 dx dy dz"
  by (simp add: hypot3_def)

lemma seg_dist3_zero: "seg_dist3 pos i = 0 \<longleftrightarrow> pos ! i = pos ! (i + 1)"
proof -
  have "\<And>p q :: point3. p = q \<longleftrightarrow> x p = x q \<and> y p = y q \<and> z p = z q"
    by auto
  then show ?thesis by (auto simp add: seg_dist3_def hypot3_zero)
qed

lemma constrain3_skip: "pos ! i = pos ! (i + 1) \<Longrightarrow> constrain3 r n i pos = pos"
  by (simp add: constrain3_def Let_def hypot3_def)

lemma pass3_split:
  "i < n \<Longrightarrow> constraint_pass3 r n pos =
     fold (constrain3 r n) [Suc i..<n] (constrain3 r n i (fold (constrain3 r n) [0..<i] pos))"
proof -
  assume "i < n"
  then have "[0..<n] = [0..<i] @ i # [Suc i..<n]"
    by (metis upt_conv_Cons upt_add_eq_append le0 le_add_diff_inverse less_imp_le add_0)
  then show ?thesis by (simp add: constraint_pass3_def)
qed

lemma reachable3_chain:
  "reachable3 st \<Longrightarrow>
   length (prevPositions st) = length (positions st) \<and> (isSleeping st \<longrightarrow> positions st \<noteq> [])"
proof (induction rule: reachable3.induct)
  case (1 t0)
  show ?case by (simp add: start3_def)
next
  case (2 st p P)
  then show ?case by (simp add: onChange3_def initRope3_prevPositions initRope3_flags)
next
  case (3 st now now' P st' out)
  then have "length (prevPositions st) = length (positions st)" by simp
  from onTriggered3_total [OF this, of now now' P] 3(2) show ?case by simp
qed

lemma Max_insert_0_nonneg:
  fixes S :: "real set"
  assumes "finite S" "S \<noteq> {}" "\<forall>v\<in>S. 0 \<le> v"
  shows "Max (insert 0 S) = Max S"
proof -
  from assms(1,2) have "Max S \<in> S" by (rule Max_in)
  with assms(3) have "0 \<le> Max S" by simp
  with assms(1,2) show ?thesis by (simp add: max_def)
qed

lemma vMag3_nonneg: "0 \<le> vMag3 d p q"
  by (simp add: vMag3_def le_max_iff_disj)

lemma maxVel3_free:
  "2 \<le> n \<Longrightarrow>
   Max (insert 0 ((\<lambda>i. vMag3 d (pos ! i) (prv ! i)) ` {1..<n})) =
   Max ((\<lambda>i. vMag3 d (pos ! i) (prv ! i)) ` {1..<n})"
  by (rule Max_insert_0_nonneg) (auto simp add: vMag3_nonneg)
lemma pinned3_spec:
  assumes n: "length (positions st) = n + 1" "1 \<le> n"
    and len: "length (positions st) \<le> length (prevPositions st)"
  shows "pinned3 P dt tX tY tZ bX bY bZ st = spec_motion3 P dt tX tY tZ bX bY bZ st"
proof (rule nth_equalityI)
  show "length (pinned3 P dt tX tY tZ bX bY bZ st) = length (spec_motion3 P dt tX tY tZ bX bY bZ st)"
    by (simp add: pinned3_def spec_motion3_def Let_def)
next
  fix i assume "i < length (pinned3 P dt tX tY tZ bX bY bZ st)"
  then have i: "i < n + 1" using n by (simp add: pinned3_def Let_def)
  let ?b = "\<lparr>x = bX, y = bY, z = bZ\<rparr>"
  let ?pos1 = "(positions st)[n := ?b]" and ?prv1 = "(prevPositions st)[n := ?b]"
  let ?acc = "integrate3 (inGravity P) dt (inDamping P) n ?pos1 ?prv1"
  from n have nn: "length (positions st) - Suc 0 = n" by simp
  have pin: "pinned3 P dt tX tY tZ bX bY bZ st = (fst ?acc)[0 := \<lparr>x = tX, y = tY, z = tZ\<rparr>]"
    by (simp add: pinned3_def Let_def nn)
  have sp: "spec_motion3 P dt tX tY tZ bX bY bZ st ! i =
      (if i = 0 then \<lparr>x = tX, y = tY, z = tZ\<rparr>
       else if i = n then ?b
       else spec_moved3 (inGravity P) dt (inDamping P) (positions st ! i) (prevPositions st ! i))"
    using i n by (simp add: spec_motion3_def nn del: upt_Suc)
  show "pinned3 P dt tX tY tZ bX bY bZ st ! i = spec_motion3 P dt tX tY tZ bX bY bZ st ! i"
  proof (cases "i = 0")
    case True
    with n sp show ?thesis by (simp add: pin)
  next
    case False
    show ?thesis
    proof (cases "i = n")
      case True
      with n False sp integrate3_other [of n n "inGravity P" dt "inDamping P" ?pos1 ?prv1]
      show ?thesis by (simp add: pin)
    next
      case nf: False
      with False i have f: "1 \<le> i" "i < n" by simp_all
      from f n len have l: "i < length ?pos1" "i < length ?prv1" by simp_all
      from integrate3_free [OF f l, of "inGravity P" dt "inDamping P"] f False nf sp
      show ?thesis by (simp add: pin spec_moved3_def power2_eq_square)
    qed
  qed
qed

lemma step3_result:
  assumes n: "length (positions st) = n + 1" "1 \<le> n"
    and len: "length (positions st) \<le> length (prevPositions st)"
  shows "\<exists>st' mv. step3 P dt tX tY tZ bX bY bZ st = Some (st', mv) \<and>
    positions st' = solve3 (inLength P / real n) n (nat (max 1 (to_int32 (inIter P))))
                      (spec_motion3 P dt tX tY tZ bX bY bZ st) \<and>
    prevPositions st' ! 0 = \<lparr>x = tX, y = tY, z = tZ\<rparr> \<and>
    prevPositions st' ! n = \<lparr>x = bX, y = bY, z = bZ\<rparr>"
proof -
  let ?b = "\<lparr>x = bX, y = bY, z = bZ\<rparr>"
  let ?pos1 = "(positions st)[n := ?b]" and ?prv1 = "(prevPositions st)[n := ?b]"
  let ?acc = "integrate3 (inGravity P) dt (inDamping P) n ?pos1 ?prv1"
  from n have two: "2 \<le> length (positions st)" and nn: "length (positions st) - Suc 0 = n" by simp_all
  from n len have ne: "prevPositions st \<noteq> []" "n < length (prevPositions st)" "n \<noteq> 0" by auto
  have r: "step3 P dt tX tY tZ bX bY bZ st =
      Some (st\<lparr>positions := solve3 (inLength P / real n) n (nat (max 1 (to_int32 (inIter P))))
                                (pinned3 P dt tX tY tZ bX bY bZ st),
               prevPositions := (fst (snd ?acc))[0 := \<lparr>x = tX, y = tY, z = tZ\<rparr>]\<rparr>,
            snd (snd ?acc))"
    using step3_unfold [OF two len, of P dt tX tY tZ bX bY bZ] by (simp add: Let_def nn pinned3_def)
  have "fst (snd ?acc) ! n = ?prv1 ! n"
    using integrate3_other [of n n "inGravity P" dt "inDamping P" ?pos1 ?prv1] by simp
  with ne have "(fst (snd ?acc))[0 := \<lparr>x = tX, y = tY, z = tZ\<rparr>] ! n = ?b" by simp
  with r ne show ?thesis by (simp add: pinned3_spec [OF n len])
qed
lemma fold_fixed: "(\<And>i. i \<in> set xs \<Longrightarrow> f i a = a) \<Longrightarrow> fold f xs a = a"
  by (induction xs) simp_all

lemma constrain3_checked_eq: "constrain3_checked r n i pos = Some (constrain3 r n i pos)"
  by (simp add: constrain3_checked_def constrain3_def js_div_def Let_def)

lemma checked_fold3:
  "fold (checked_turn3 r n) js (Some pos) = Some (fold (constrain3 r n) js pos)"
  by (induction js arbitrary: pos) (simp_all add: checked_turn3_def constrain3_checked_eq)

lemma pass3_checked_eq:
  "constraint_pass3_checked r n (Some pos) = Some (constraint_pass3 r n pos)"
  by (simp add: constraint_pass3_checked_def constraint_pass3_def checked_fold3)

lemma solve3_checked_fold:
  "fold (\<lambda>iter. constraint_pass3_checked r n) js (Some pos) =
     Some (fold (\<lambda>iter. constraint_pass3 r n) js pos)"
  by (induction js arbitrary: pos) (simp_all add: pass3_checked_eq)

lemma solve3_checked_eq: "solve3_checked r n k pos = Some (solve3 r n k pos)"
  by (simp add: solve3_checked_def solve3_def solve3_checked_fold)

lemma step3_checked_eq:
  "step3_checked P dt tX tY tZ bX bY bZ st =
     (case step3 P dt tX tY tZ bX bY bZ st of None \<Rightarrow> Inl TypeError | Some res \<Rightarrow> Inr res)"
proof (cases "length (positions st) - 1 < 1")
  case True
  then show ?thesis by (simp add: step3_checked_def step3_def Let_def)
next
  case False
  then have "real (length (positions st) - 1) \<noteq> 0" by simp
  with False show ?thesis
    by (simp add: step3_checked_def step3_def Let_def js_div_def solve3_checked_eq)
qed

lemma step3_checked_no_div:
  "step3_checked P dt tX tY tZ bX bY bZ st \<noteq> Inl DivByZero"
  by (simp add: step3_checked_eq split: option.split)

lemma pass3_coincident:
  assumes "\<And>i. i < n \<Longrightarrow> pos ! i = pos ! (i + 1)"
  shows "constraint_pass3 r n pos = pos"
  unfolding constraint_pass3_def
  by (rule fold_fixed) (simp add: constrain3_skip assms)

lemma solve3_coincident:
  assumes "\<And>i. i < n \<Longrightarrow> pos ! i = pos ! (i + 1)"
  shows "solve3 r n k pos = pos"
  unfolding solve3_def
  by (rule fold_fixed) (simp add: pass3_coincident assms)

section \<open>The loops of Rope2D\<close>

lemma initRope2_push_fold:
  "fold (initRope2_push tX tY s) [0..<k] ([], []) =
     (map (\<lambda>i. \<lparr>x = tX, y = tY - s * real i\<rparr>) [0..<k],
      map (\<lambda>i. \<lparr>x = tX, y = tY - s * real i\<rparr>) [0..<k])"
  by (induction k) (simp_all add: initRope2_push_def Let_def)

lemma length_constrain2 [simp]: "length (constrain2 r n i pos) = length pos"
  by (simp add: constrain2_def Let_def)

lemma length_constraint_pass2 [simp]: "length (constraint_pass2 r n pos) = length pos"
  unfolding constraint_pass2_def
  by (rule fold_invariant [where Q = "\<lambda>s. length s = length pos"]) simp_all

lemma length_solve2 [simp]: "length (solve2 r n k pos) = length pos"
  unfolding solve2_def
  by (rule fold_invariant [where Q = "\<lambda>s. length s = length pos"]) simp_all

lemma constrain2_keeps_0: "constrain2 r n i pos ! 0 = pos ! 0"
  by (simp add: constrain2_def Let_def)

lemma constrain2_keeps_n: "i < n \<Longrightarrow> 2 \<le> n \<Longrightarrow> constrain2 r n i pos ! n = pos ! n"
  by (auto simp add: constrain2_def Let_def)

lemma pass2_keeps_0: "constraint_pass2 r n pos ! 0 = pos ! 0"
  unfolding constraint_pass2_def
  by (rule fold_invariant [where Q = "\<lambda>s. s ! 0 = pos ! 0"]) (simp_all add: constrain2_keeps_0)

lemma pass2_keeps_n: "2 \<le> n \<Longrightarrow> constraint_pass2 r n pos ! n = pos ! n"
  unfolding constraint_pass2_def
  by (rule fold_invariant [where Q = "\<lambda>s. s ! n = pos ! n"]) (simp_all add: constrain2_keeps_n)

lemma solve2_keeps_0: "solve2 r n k pos ! 0 = pos ! 0"
  unfolding solve2_def
  by (rule fold_invariant [where Q = "\<lambda>s. s ! 0 = pos ! 0"]) (simp_all add: pass2_keeps_0)

lemma solve2_keeps_n: "2 \<le> n \<Longrightarrow> solve2 r n k pos ! n = pos ! n"
  unfolding solve2_def
  by (rule fold_invariant [where Q = "\<lambda>s. s ! n = pos ! n"]) (simp_all add: pass2_keeps_n)

lemma solve2_funpow: "solve2 r n k pos = (constraint_pass2 r n ^^ k) pos"
  unfolding solve2_def by (induction k) simp_all

lemma verlet2_length:
  "length (fst (verlet2 g dt d i acc)) = length (fst acc) \<and>
   length (fst (snd (verlet2 g dt d i acc))) = length (fst (snd acc))"
  by (simp add: verlet2_def Let_def)

lemma verlet2_fold_length:
  "length (fst (fold (verlet2 g dt d) js acc)) = length (fst acc) \<and>
   length (fst (snd (fold (verlet2 g dt d) js acc))) = length (fst (snd acc))"
  by (rule fold_invariant [where Q = "\<lambda>s. length (fst s) = length (fst acc) \<and>
        length (fst (snd s)) = length (fst (snd acc))"]) (simp_all add: verlet2_length)

lemma verlet2_other:
  "j \<noteq> i \<Longrightarrow> fst (verlet2 g dt d i acc) ! j = fst acc ! j \<and>
     fst (snd (verlet2 g dt d i acc)) ! j = fst (snd acc) ! j"
  by (simp add: verlet2_def Let_def)

lemma verlet2_fold_other:
  "j \<notin> set js \<Longrightarrow> fst (fold (verlet2 g dt d) js acc) ! j = fst acc ! j \<and>
     fst (snd (fold (verlet2 g dt d) js acc)) ! j = fst (snd acc) ! j"
proof (induction js arbitrary: acc)
  case Nil
  then show ?case by simp
next
  case (Cons a js)
  then have "j \<noteq> a" and "j \<notin> set js" by auto
  with Cons.IH [of "verlet2 g dt d a acc"] verlet2_other [of j a g dt d acc]
  show ?case by simp
qed

lemma verlet2_at:
  "i < length (fst acc) \<Longrightarrow> i < length (fst (snd acc)) \<Longrightarrow>
   fst (verlet2 g dt d i acc) ! i =
     \<lparr>x = x (fst acc ! i) + (x (fst acc ! i) - x (fst (snd acc) ! i)) * d,
      y = y (fst acc ! i) + ((y (fst acc ! i) - y (fst (snd acc) ! i)) * d + g * dt * dt)\<rparr> \<and>
   fst (snd (verlet2 g dt d i acc)) ! i = fst acc ! i"
  by (simp add: verlet2_def Let_def)

lemma verlet2_fold_at:
  "distinct js \<Longrightarrow> i \<in> set js \<Longrightarrow> i < length (fst acc) \<Longrightarrow> i < length (fst (snd acc)) \<Longrightarrow>
   fst (fold (verlet2 g dt d) js acc) ! i =
     \<lparr>x = x (fst acc ! i) + (x (fst acc ! i) - x (fst (snd acc) ! i)) * d,
      y = y (fst acc ! i) + ((y (fst acc ! i) - y (fst (snd acc) ! i)) * d + g * dt * dt)\<rparr> \<and>
   fst (snd (fold (verlet2 g dt d) js acc)) ! i = fst acc ! i"
proof (induction js arbitrary: acc)
  case Nil
  then show ?case by simp
next
  case (Cons a js)
  show ?case
  proof (cases "i = a")
    case True
    with Cons.prems have "i \<notin> set js" by simp
    from verlet2_fold_other [OF this, of g dt d "verlet2 g dt d a acc"]
      verlet2_at [OF Cons.prems(3,4), of g dt d] True
    show ?thesis by simp
  next
    case False
    with Cons.prems have a: "distinct js" "i \<in> set js" by auto
    have l: "i < length (fst (verlet2 g dt d a acc))" "i < length (fst (snd (verlet2 g dt d a acc)))"
      using Cons.prems(3,4) by (simp_all add: verlet2_length)
    from Cons.IH [OF a l] verlet2_other [OF False, of g dt d acc]
    show ?thesis by simp
  qed
qed

lemma verlet2_maxVel:
  "snd (snd (verlet2 g dt d i acc)) = max (snd (snd acc)) (vMag2 d (fst acc ! i) (fst (snd acc) ! i))"
  by (simp add: verlet2_def Let_def vMag2_def max_def)

lemma verlet2_fold_maxVel:
  "distinct js \<Longrightarrow>
   snd (snd (fold (verlet2 g dt d) js acc)) =
     Max (insert (snd (snd acc)) ((\<lambda>i. vMag2 d (fst acc ! i) (fst (snd acc) ! i)) ` set js))"
proof (induction js arbitrary: acc)
  case Nil
  then show ?case by simp
next
  case (Cons a js)
  let ?acc = "verlet2 g dt d a acc"
  from Cons.prems have d: "distinct js" and a: "a \<notin> set js" by simp_all
  have same: "(\<lambda>i. vMag2 d (fst ?acc ! i) (fst (snd ?acc) ! i)) ` set js =
        (\<lambda>i. vMag2 d (fst acc ! i) (fst (snd acc) ! i)) ` set js"
  proof (rule image_cong [OF refl])
    fix i assume "i \<in> set js"
    with a have "i \<noteq> a" by auto
    from verlet2_other [OF this, of g dt d acc]
    show "vMag2 d (fst ?acc ! i) (fst (snd ?acc) ! i) = vMag2 d (fst acc ! i) (fst (snd acc) ! i)"
      by simp
  qed
  have "snd (snd (fold (verlet2 g dt d) (a # js) acc)) =
      Max (insert (snd (snd ?acc)) ((\<lambda>i. vMag2 d (fst ?acc ! i) (fst (snd ?acc) ! i)) ` set js))"
    using Cons.IH [OF d, of ?acc] by simp
  also have "\<dots> = Max (insert (max (snd (snd acc)) (vMag2 d (fst acc ! a) (fst (snd acc) ! a)))
        ((\<lambda>i. vMag2 d (fst acc ! i) (fst (snd acc) ! i)) ` set js))"
    by (simp only: same verlet2_maxVel)
  also have "\<dots> = Max (insert (snd (snd acc)) ((\<lambda>i. vMag2 d (fst acc ! i) (fst (snd acc) ! i)) ` set (a # js)))"
  proof (cases "js = []")
    case True
    then show ?thesis by (simp add: max.commute)
  next
    case False
    then show ?thesis
      by (simp add: max.assoc max.left_commute max.commute)
  qed
  finally show ?case .
qed

lemma upd2_eq [simp]: "(p::point2)\<lparr>x := a, y := b\<rparr> = \<lparr>x = a, y = b\<rparr>"
  by simp

lemma integrate2_length [simp]:
  "length (fst (integrate2 g dt d n pos prv)) = length pos"
  "length (fst (snd (integrate2 g dt d n pos prv))) = length prv"
  unfolding integrate2_def using verlet2_fold_length [of g dt d "[1..<n]" "(pos, prv, 0)"] by simp_all

lemma integrate2_other:
  "j = 0 \<or> n \<le> j \<Longrightarrow>
   fst (integrate2 g dt d n pos prv) ! j = pos ! j \<and>
   fst (snd (integrate2 g dt d n pos prv)) ! j = prv ! j"
  unfolding integrate2_def
  using verlet2_fold_other [of j "[1..<n]" g dt d "(pos, prv, 0)"] by auto

lemma integrate2_free:
  "1 \<le> i \<Longrightarrow> i < n \<Longrightarrow> i < length pos \<Longrightarrow> i < length prv \<Longrightarrow>
   fst (integrate2 g dt d n pos prv) ! i =
     \<lparr>x = x (pos ! i) + (x (pos ! i) - x (prv ! i)) * d,
      y = y (pos ! i) + ((y (pos ! i) - y (prv ! i)) * d + g * dt * dt)\<rparr> \<and>
   fst (snd (integrate2 g dt d n pos prv)) ! i = pos ! i"
  unfolding integrate2_def
  using verlet2_fold_at [of "[1..<n]" i "(pos, prv, 0)" g dt d] by simp

lemma integrate2_maxVel:
  "snd (snd (integrate2 g dt d n pos prv)) =
     Max (insert 0 ((\<lambda>i. vMag2 d (pos ! i) (prv ! i)) ` {1..<n}))"
  unfolding integrate2_def
  using verlet2_fold_maxVel [of "[1..<n]" g dt d "(pos, prv, 0)"] by simp

lemma step2_unfold:
  assumes "2 \<le> length (positions st)" "length (positions st) \<le> length (prevPositions st)"
  shows "step2 P dt tX tY bX bY st =
    (let n = length (positions st) - 1;
         top = \<lparr>x = tX, y = tY\<rparr>; bottom = \<lparr>x = bX, y = bY\<rparr>;
         acc = integrate2 (inGravity P) dt (inDamping P) n
                 ((positions st)[n := bottom]) ((prevPositions st)[n := bottom])
     in Some (st\<lparr>positions := solve2 (inLength P / real n) n (nat (max 1 (to_int32 (inIter P))))
                                  ((fst acc)[0 := top]),
                 prevPositions := (fst (snd acc))[0 := top]\<rparr>,
              snd (snd acc)))"
proof -
  from assms have "positions st \<noteq> []" "prevPositions st \<noteq> []" by auto
  with assms show ?thesis by (simp add: step2_def Let_def)
qed

lemma step2_short: "length (positions st) < 2 \<Longrightarrow> step2 P dt tX tY bX bY st = Some (st, 0)"
  by (simp add: step2_def Let_def) 

lemma step2_pins_top:
  assumes "2 \<le> length (positions st)" "length (positions st) \<le> length (prevPositions st)"
  shows "\<exists>st' mv. step2 P dt tX tY bX bY st = Some (st', mv) \<and>
           length (positions st') = length (positions st) \<and>
           length (prevPositions st') = length (prevPositions st) \<and>
           positions st' ! 0 = \<lparr>x = tX, y = tY\<rparr> \<and>
           prevPositions st' ! 0 = \<lparr>x = tX, y = tY\<rparr>"
proof -
  from assms have "positions st \<noteq> []" "prevPositions st \<noteq> []" by auto
  with assms show ?thesis by (simp add: step2_unfold Let_def solve2_keeps_0)
qed

lemma step2_pins_bottom:
  assumes "3 \<le> length (positions st)" "length (positions st) \<le> length (prevPositions st)"
    and "step2 P dt tX tY bX bY st = Some (st', mv)"
  shows "positions st' ! (length (positions st) - 1) = \<lparr>x = bX, y = bY\<rparr>"
proof -
  let ?n = "length (positions st) - 1"
  have n: "2 \<le> ?n" "?n \<noteq> 0" "?n < length (positions st)" using assms(1) by simp_all
  have "2 \<le> length (positions st)" using assms(1) by simp
  from step2_unfold [OF this assms(2), of P dt tX tY bX bY] assms(3)
  have "positions st' = solve2 (inLength P / real ?n) ?n (nat (max 1 (to_int32 (inIter P))))
      ((fst (integrate2 (inGravity P) dt (inDamping P) ?n
          ((positions st)[?n := \<lparr>x = bX, y = bY\<rparr>])
          ((prevPositions st)[?n := \<lparr>x = bX, y = bY\<rparr>])))[0 := \<lparr>x = tX, y = tY\<rparr>])"
    by (auto simp add: Let_def)
  then show ?thesis
    using n by (simp add: solve2_keeps_n integrate2_other)
qed

lemma hypot2_axis [simp]: "hypot2 0 b = \<bar>b\<bar>"
  by (simp add: hypot2_def)

lemma pass2_one: "constraint_pass2 r (Suc 0) pos = constrain2 r (Suc 0) 0 pos"
  by (simp add: constraint_pass2_def)

lemma integrate2_one: "integrate2 g dt d (Suc 0) pos prv = (pos, prv, 0)"
  by (simp add: integrate2_def)

lemma initRope2_positions:
  "positions (initRope2 P tX tY st) =
     map (\<lambda>i. \<lparr>x = tX, y = tY - inLength P / real (nat (max 1 (to_int32 (inSegments P)))) * real i\<rparr>)
       [0..<Suc (nat (max 1 (to_int32 (inSegments P))))]"
  by (simp only: initRope2_def Let_def initRope2_push_fold) simp

lemma initRope2_prevPositions:
  "prevPositions (initRope2 P tX tY st) = positions (initRope2 P tX tY st)"
  by (simp only: initRope2_def Let_def initRope2_push_fold) simp

lemma initRope2_flags:
  "isSleeping (initRope2 P tX tY st) = False"
  "sleepCounter (initRope2 P tX tY st) = 0"
  "lastTime (initRope2 P tX tY st) = lastTime st"
  "lastTopX (initRope2 P tX tY st) = lastTopX st"
  "lastTopY (initRope2 P tX tY st) = lastTopY st"
  "lastBottomX (initRope2 P tX tY st) = lastBottomX st"
  "lastBottomY (initRope2 P tX tY st) = lastBottomY st"
  by (simp_all add: initRope2_def Let_def)

lemma initRope2_idem:
  "initRope2 P tX tY (initRope2 P tX tY st) = initRope2 P tX tY st"
  by (simp add: initRope2_def Let_def)

lemma initRope2_length:
  "length (positions (initRope2 P tX tY st)) = nat (max 1 (to_int32 (inSegments P))) + 1"
  by (simp add: initRope2_positions)

lemma point2_eta [simp]: "\<lparr>x = x r, y = y r\<rparr> = (r::point2)"
  by simp

lemma freeze2_Some:
  "length pos \<le> length prv \<Longrightarrow> freeze2 pos prv = Some (pos @ drop (length pos) prv)"
  by (simp add: freeze2_def freeze_fold)

lemma freeze2_eq: "length prv = length pos \<Longrightarrow> freeze2 pos prv = Some pos"
  by (simp add: freeze2_Some)

lemma freeze2_None: "length prv < length pos \<Longrightarrow> freeze2 pos prv = None"
  by (simp add: freeze2_def)

lemma begin2_keep:
  "positions st \<noteq> [] \<Longrightarrow>
   begin2 now P st = st\<lparr>lastTime := now,
                   lastTopX := Some (inTopX P), lastTopY := Some (inTopY P),
                   lastBottomX := Some (inBottomX P), lastBottomY := Some (inBottomY P)\<rparr>"
  by (simp add: begin2_def Let_def)

lemma begin2_positions_ne: "positions (begin2 now P st) \<noteq> []"
  by (simp add: begin2_def Let_def initRope2_positions del: upt_Suc)

lemma begin2_fresh:
  "positions st = [] \<Longrightarrow> \<not> isSleeping (begin2 now P st) \<and> sleepCounter (begin2 now P st) = 0"
  by (simp add: begin2_def Let_def initRope2_flags)

lemma step2_SomeD:
  assumes "step2 P dt tX tY bX bY st = Some (st', mv)"
  shows "length (positions st') = length (positions st)"
    and "length (prevPositions st') = length (prevPositions st)"
    and "isSleeping st' = isSleeping st"
    and "sleepCounter st' = sleepCounter st"
    and "2 \<le> length (positions st) \<Longrightarrow> length (positions st) \<le> length (prevPositions st)"
proof -
  have "length (positions st') = length (positions st) \<and>
        length (prevPositions st') = length (prevPositions st) \<and>
        isSleeping st' = isSleeping st \<and> sleepCounter st' = sleepCounter st \<and>
        (2 \<le> length (positions st) \<longrightarrow> length (positions st) \<le> length (prevPositions st))"
  proof (cases "length (positions st) < 2")
    case True
    with assms show ?thesis by (simp add: step2_short)
  next
    case False
    show ?thesis
    proof (cases "length (positions st) \<le> length (prevPositions st)")
      case True
      with False assms show ?thesis by (auto simp add: step2_unfold Let_def)
    next
      case False
      with \<open>\<not> length (positions st) < 2\<close>
      have "\<not> length (positions st) - 1 < 1" "length (prevPositions st) \<le> length (positions st) - 1"
        by simp_all
      with assms show ?thesis
        by (simp add: step2_def)
    qed
  qed
  then show "length (positions st') = length (positions st)"
    and "length (prevPositions st') = length (prevPositions st)"
    and "isSleeping st' = isSleeping st"
    and "sleepCounter st' = sleepCounter st"
    and "2 \<le> length (positions st) \<Longrightarrow> length (positions st) \<le> length (prevPositions st)"
    by simp_all
qed

lemma onTriggered2_asleep:
  assumes "isSleeping st" "positions st \<noteq> []" "\<not> inputsMoved2 P st"
  shows "onTriggered2 now now' P st =
    Some (st\<lparr>lastTime := now,
             lastTopX := Some (inTopX P), lastTopY := Some (inTopY P),
             lastBottomX := Some (inBottomX P), lastBottomY := Some (inBottomY P)\<rparr>, flat2 (positions st))"
  using assms by (simp add: onTriggered2_def Let_def begin2_keep wake2_def)

lemma onTriggered2_wake:
  assumes "isSleeping st" "positions st \<noteq> []" "inputsMoved2 P st"
    and "length (prevPositions st) = length (positions st)"
    and "step2 P 0 (inTopX P) (inTopY P) (inBottomX P) (inBottomY P)
           ((begin2 now P st)\<lparr>isSleeping := False, sleepCounter := 0,
               prevPositions := positions st, lastTime := now'\<rparr>) = Some (st1, mv)"
  shows "onTriggered2 now now' P st = Some (st1\<lparr>sleepCounter := 0\<rparr>, flat2 (positions st1))"
  using assms
  by (simp add: onTriggered2_def Let_def begin2_keep wake2_def freeze2_eq physics2_def
      step2_SomeD(3) [OF assms(5)])

lemma begin2_same:
  "positions st \<noteq> [] \<Longrightarrow> isSleeping (begin2 now P st) = isSleeping st"
  "positions st \<noteq> [] \<Longrightarrow> sleepCounter (begin2 now P st) = sleepCounter st"
  "positions st \<noteq> [] \<Longrightarrow> positions (begin2 now P st) = positions st"
  "positions st \<noteq> [] \<Longrightarrow> prevPositions (begin2 now P st) = prevPositions st"
  by (simp_all add: begin2_keep)

lemma still2_frame:
  assumes still: "still2 now P st"
    and run: "onTriggered2 now now' P st = Some (st', out)"
    and inv: "k = 0 \<or> (positions st \<noteq> [] \<and> (isSleeping st \<or> k \<le> sleepCounter st))"
  shows "positions st' \<noteq> [] \<and>
         (isSleeping st' \<or> (Suc k \<le> sleepCounter st' \<and> sleepCounter st' < SLEEP_FRAMES))"
proof -
  let ?b = "begin2 now P st"
  let ?dt = "frame_dt now (lastTime st)"
  from still have nm: "\<not> inputsMoved2 P st" by (simp add: still2_def)
  have ne: "positions ?b \<noteq> []" by (rule begin2_positions_ne)
  show ?thesis
  proof (cases "isSleeping ?b")
    case True
    with run nm have "st' = ?b"
      by (simp add: onTriggered2_def Let_def wake2_def)
    with True ne show ?thesis by simp
  next
    case False
    with still obtain s1 mv where
      st: "step2 P ?dt (inTopX P) (inTopY P) (inBottomX P) (inBottomY P) ?b
            = Some (s1, mv)" and mv: "mv < VEL_EPS"
      by (auto simp add: still2_def split: option.splits)
    have c: "sleepCounter s1 = sleepCounter ?b" and l: "length (positions s1) = length (positions ?b)"
      and a: "\<not> isSleeping s1"
      using step2_SomeD(1,3,4) [OF st] False by simp_all
    have k: "k \<le> sleepCounter ?b"
    proof (cases "k = 0")
      case True
      then show ?thesis by simp
    next
      case False
      with inv have p: "positions st \<noteq> []" and "isSleeping st \<or> k \<le> sleepCounter st" by simp_all
      with \<open>\<not> isSleeping ?b\<close> show ?thesis by (simp add: begin2_same)
    qed
    from run nm False st mv
    have r: "physics2 P False ?dt ?b = Some st'"
      by (simp add: onTriggered2_def Let_def wake2_def split: option.splits)
    show ?thesis
    proof (cases "SLEEP_FRAMES \<le> sleepCounter s1 + 1")
      case True
      with r st mv obtain prv where "st' = s1\<lparr>sleepCounter := sleepCounter s1 + 1, isSleeping := True, prevPositions := prv\<rparr>"
        by (auto simp add: physics2_def Let_def split: option.splits)
      with l ne show ?thesis by auto
    next
      case False
      with r st mv have "st' = s1\<lparr>sleepCounter := sleepCounter s1 + 1\<rparr>"
        by (simp add: physics2_def Let_def)
      with l ne c k False show ?thesis by auto
    qed
  qed
qed

lemma still_run2_inv:
  "still_run2 fs st \<Longrightarrow> fs \<noteq> [] \<Longrightarrow>
   k = 0 \<or> (positions st \<noteq> [] \<and> (isSleeping st \<or> k \<le> sleepCounter st)) \<Longrightarrow>
   \<exists>st'. run2 fs st = Some st' \<and> positions st' \<noteq> [] \<and>
     (isSleeping st' \<or> (k + length fs \<le> sleepCounter st' \<and> sleepCounter st' < SLEEP_FRAMES))"
proof (induction fs arbitrary: st k)
  case Nil
  then show ?case by simp
next
  case (Cons f fs)
  obtain now now' P where f: "f = (now, now', P)" by (cases f) auto
  from Cons.prems(1) f obtain s1 out where
    s: "still2 now P st" and r: "onTriggered2 now now' P st = Some (s1, out)" and rest: "still_run2 fs s1"
    by (auto split: option.splits)
  from still2_frame [OF s r Cons.prems(3)]
  have i1: "positions s1 \<noteq> []"
    "isSleeping s1 \<or> (Suc k \<le> sleepCounter s1 \<and> sleepCounter s1 < SLEEP_FRAMES)" by simp_all
  show ?case
  proof (cases "fs = []")
    case True
    with f r i1 show ?thesis by simp
  next
    case False
    from i1 have "Suc k = 0 \<or> (positions s1 \<noteq> [] \<and> (isSleeping s1 \<or> Suc k \<le> sleepCounter s1))"
      by auto
    from Cons.IH [OF rest False this] f r show ?thesis by simp
  qed
qed

lemma still_run2_sleeps:
  assumes "still_run2 fs st" "length fs = SLEEP_FRAMES"
  shows "\<exists>st'. run2 fs st = Some st' \<and> isSleeping st' \<and> positions st' \<noteq> []"
proof -
  from assms(2) have "fs \<noteq> []" by (auto simp add: SLEEP_FRAMES_def)
  from still_run2_inv [OF assms(1) this, of 0] assms(2) show ?thesis by auto
qed

lemma unmoved_run2_frozen:
  "unmoved_run2 fs st \<Longrightarrow> isSleeping st \<Longrightarrow> positions st \<noteq> [] \<Longrightarrow>
   \<exists>st'. run2 fs st = Some st' \<and> isSleeping st' \<and> positions st' = positions st \<and>
     prevPositions st' = prevPositions st"
proof (induction fs arbitrary: st)
  case Nil
  then show ?case by simp
next
  case (Cons f fs)
  obtain now now' P where f: "f = (now, now', P)" by (cases f) auto
  from Cons.prems f have nm: "\<not> inputsMoved2 P st" by simp
  note r = onTriggered2_asleep [OF Cons.prems(2,3) nm, of now now']
  let ?s = "st\<lparr>lastTime := now,
             lastTopX := Some (inTopX P), lastTopY := Some (inTopY P),
             lastBottomX := Some (inBottomX P), lastBottomY := Some (inBottomY P)\<rparr>"
  from Cons.prems(1) f r have "unmoved_run2 fs ?s" by simp
  from Cons.IH [OF this] Cons.prems(2,3) f r show ?case by simp
qed

lemma step2_total:
  assumes "length (positions st) \<le> length (prevPositions st)"
  shows "\<exists>st' mv. step2 P dt tX tY bX bY st = Some (st', mv) \<and>
           length (positions st') = length (positions st) \<and>
           length (prevPositions st') = length (prevPositions st) \<and>
           isSleeping st' = isSleeping st \<and> sleepCounter st' = sleepCounter st"
proof (cases "length (positions st) < 2")
  case True
  then show ?thesis by (simp add: step2_short)
next
  case False
  then have "2 \<le> length (positions st)" by simp
  from step2_unfold [OF this assms, of P dt tX tY bX bY]
  show ?thesis by (simp add: Let_def)
qed

lemma physics2_total:
  assumes "length (prevPositions st) = length (positions st)"
  shows "\<exists>s. physics2 P moved dt st = Some s \<and>
           length (positions s) = length (positions st) \<and>
           length (prevPositions s) = length (positions st)"
proof -
  from assms have "length (positions st) \<le> length (prevPositions st)" by simp
  from step2_total [OF this, of P dt "inTopX P" "inTopY P" "inBottomX P" "inBottomY P"]
  obtain s1 mv where s: "step2 P dt (inTopX P) (inTopY P) (inBottomX P) (inBottomY P) st
      = Some (s1, mv)"
    and sl: "length (positions s1) = length (positions st)" "length (prevPositions s1) = length (positions st)"
    using assms by auto
  show ?thesis
  proof (cases "\<not> moved \<and> mv < VEL_EPS")
    case True
    show ?thesis
    proof (cases "SLEEP_FRAMES \<le> sleepCounter s1 + 1")
      case True
      with \<open>\<not> moved \<and> mv < VEL_EPS\<close> s sl show ?thesis
        by (simp add: physics2_def Let_def freeze2_eq)
    next
      case False
      with \<open>\<not> moved \<and> mv < VEL_EPS\<close> s sl show ?thesis
        by (simp add: physics2_def Let_def)
    qed
  next
    case False
    with s sl show ?thesis by (auto simp add: physics2_def)
  qed
qed

lemma onTriggered2_begin:
  assumes len: "length (prevPositions (begin2 now P st)) = length (positions (begin2 now P st))"
  shows "\<exists>st' out. onTriggered2 now now' P st = Some (st', out) \<and>
           length (positions st') = length (positions (begin2 now P st)) \<and>
           length (prevPositions st') = length (positions (begin2 now P st))"
proof -
  let ?b = "begin2 now P st"
  have "\<exists>w dt2. wake2 now' (inputsMoved2 P st) (frame_dt now (lastTime st)) ?b = Some (w, dt2) \<and>
      length (positions w) = length (positions ?b) \<and> length (prevPositions w) = length (positions ?b)"
  proof (cases "isSleeping ?b \<and> inputsMoved2 P st")
    case True
    with len show ?thesis by (simp add: wake2_def freeze2_eq)
  next
    case False
    then have "wake2 now' (inputsMoved2 P st) (frame_dt now (lastTime st)) ?b =
        Some (?b, frame_dt now (lastTime st))"
      unfolding wake2_def by (rule if_not_P)
    with len show ?thesis by simp
  qed
  then obtain w dt2 where w: "wake2 now' (inputsMoved2 P st) (frame_dt now (lastTime st)) ?b = Some (w, dt2)"
    and wl: "length (positions w) = length (positions ?b)" "length (prevPositions w) = length (positions ?b)"
    by auto
  show ?thesis
  proof (cases "isSleeping w")
    case True
    with w wl show ?thesis by (simp add: onTriggered2_def Let_def)
  next
    case False
    from wl have "length (prevPositions w) = length (positions w)" by simp
    from physics2_total [OF this, of P "inputsMoved2 P st" dt2] wl
    obtain s2 where p: "physics2 P (inputsMoved2 P st) dt2 w = Some s2"
      and pl: "length (positions s2) = length (positions ?b)" "length (prevPositions s2) = length (positions ?b)"
      by auto
    from w False p pl show ?thesis by (simp add: onTriggered2_def Let_def)
  qed
qed

lemma onTriggered2_chain:
  assumes ne: "positions st \<noteq> []" and len: "length (prevPositions st) = length (positions st)"
  shows "\<exists>st' out. onTriggered2 now now' P st = Some (st', out) \<and>
           length (positions st') = length (positions st) \<and>
           length (prevPositions st') = length (positions st)"
  using onTriggered2_begin [of now P st now'] ne len by (simp add: begin2_same)

lemma begin2_lengths:
  "length (prevPositions st) = length (positions st) \<Longrightarrow>
   length (prevPositions (begin2 now P st)) = length (positions (begin2 now P st))"
  by (simp add: begin2_def Let_def initRope2_prevPositions)

lemma onTriggered2_total:
  assumes "length (prevPositions st) = length (positions st)"
  shows "\<exists>st' out. onTriggered2 now now' P st = Some (st', out) \<and> positions st' \<noteq> [] \<and>
           length (prevPositions st') = length (positions st')"
proof -
  from onTriggered2_begin [OF begin2_lengths [OF assms], of now now' P]
  obtain st' out where r: "onTriggered2 now now' P st = Some (st', out)"
    and l: "length (positions st') = length (positions (begin2 now P st))"
      "length (prevPositions st') = length (positions (begin2 now P st))"
    by blast
  from l begin2_positions_ne [of now P st] have "positions st' \<noteq> []" by auto
  with r l show ?thesis by simp
qed

lemma run2_chain:
  "positions st \<noteq> [] \<Longrightarrow> length (prevPositions st) = length (positions st) \<Longrightarrow>
   \<exists>st'. run2 fs st = Some st' \<and> length (positions st') = length (positions st) \<and>
     length (prevPositions st') = length (positions st)"
proof (induction fs arbitrary: st)
  case Nil
  then show ?case by simp
next
  case (Cons f fs)
  obtain now now' P where f: "f = (now, now', P)" by (cases f) auto
  from onTriggered2_chain [OF Cons.prems, of now now' P]
  obtain s1 out where r: "onTriggered2 now now' P st = Some (s1, out)"
    and l: "length (positions s1) = length (positions st)" "length (prevPositions s1) = length (positions st)"
    by auto
  from l Cons.prems(1) have "positions s1 \<noteq> []" "length (prevPositions s1) = length (positions s1)"
    by auto
  from Cons.IH [OF this] f r l show ?case by simp
qed
lemma constrain2_cases:
  assumes "0 < seg_dist2 pos i"
  shows "constrain2 r n i pos =
    (if i = 0 then pos[i + 1 := moved2 (pos ! (i + 1)) (pos ! i) (pos ! (i + 1)) (- seg_corr2 r pos i)]
     else if i = n - 1 then pos[i := moved2 (pos ! i) (pos ! i) (pos ! (i + 1)) (seg_corr2 r pos i)]
     else pos[i := moved2 (pos ! i) (pos ! i) (pos ! (i + 1)) (seg_corr2 r pos i / 2),
              i + 1 := moved2 (pos ! (i + 1)) (pos ! i) (pos ! (i + 1)) (- (seg_corr2 r pos i / 2))])"
  using assms
  by (simp add: constrain2_def Let_def seg_dist2_def seg_corr2_def moved2_def)

lemma step2_solver:
  assumes "2 \<le> length (positions st)" "length (positions st) \<le> length (prevPositions st)"
  shows "\<exists>st' mv. step2 P dt tX tY bX bY st = Some (st', mv) \<and>
    positions st' =
      (constraint_pass2 (inLength P / real (length (positions st) - 1)) (length (positions st) - 1)
         ^^ nat (max 1 (to_int32 (inIter P)))) (pinned2 P dt tX tY bX bY st)"
  by (simp add: step2_unfold [OF assms] Let_def pinned2_def solve2_funpow)

lemma step2_motion:
  assumes n: "length (positions st) = n + 1" "1 \<le> n"
    and len: "length (positions st) \<le> length (prevPositions st)"
  shows "\<exists>st' mv. step2 P dt tX tY bX bY st = Some (st', mv) \<and>
    (\<forall>i. 1 \<le> i \<and> i < n \<longrightarrow>
       pinned2 P dt tX tY bX bY st ! i =
         \<lparr>x = x (positions st ! i) + (x (positions st ! i) - x (prevPositions st ! i)) * inDamping P,
          y = y (positions st ! i) + (y (positions st ! i) - y (prevPositions st ! i)) * inDamping P
                + inGravity P * dt\<^sup>2\<rparr> \<and>
       prevPositions st' ! i = positions st ! i) \<and>
    mv = Max (insert 0 ((\<lambda>i. vMag2 (inDamping P) (positions st ! i) (prevPositions st ! i)) ` {1..<n}))"
proof -
  let ?b = "\<lparr>x = bX, y = bY\<rparr>"
  let ?pos1 = "(positions st)[n := ?b]" and ?prv1 = "(prevPositions st)[n := ?b]"
  let ?acc = "integrate2 (inGravity P) dt (inDamping P) n ?pos1 ?prv1"
  from n have two: "2 \<le> length (positions st)" and nn: "length (positions st) - Suc 0 = n" by simp_all
  have r: "step2 P dt tX tY bX bY st =
      Some (st\<lparr>positions := solve2 (inLength P / real n) n (nat (max 1 (to_int32 (inIter P))))
                                ((fst ?acc)[0 := \<lparr>x = tX, y = tY\<rparr>]),
               prevPositions := (fst (snd ?acc))[0 := \<lparr>x = tX, y = tY\<rparr>]\<rparr>,
            snd (snd ?acc))"
    using step2_unfold [OF two len, of P dt tX tY bX bY] by (simp add: Let_def nn)
  have pin: "pinned2 P dt tX tY bX bY st = (fst ?acc)[0 := \<lparr>x = tX, y = tY\<rparr>]"
    by (simp add: pinned2_def Let_def nn)
  have free: "fst ?acc ! i =
         \<lparr>x = x (positions st ! i) + (x (positions st ! i) - x (prevPositions st ! i)) * inDamping P,
          y = y (positions st ! i) + (y (positions st ! i) - y (prevPositions st ! i)) * inDamping P
                + inGravity P * dt\<^sup>2\<rparr> \<and>
       fst (snd ?acc) ! i = positions st ! i" if i: "1 \<le> i" "i < n" for i
  proof -
    from i n len have l: "i < length ?pos1" "i < length ?prv1" by simp_all
    from integrate2_free [OF i l, of "inGravity P" dt "inDamping P"] i
    show ?thesis by (simp add: power2_eq_square)
  qed
  have "(\<lambda>i. vMag2 (inDamping P) (?pos1 ! i) (?prv1 ! i)) ` {1..<n} =
        (\<lambda>i. vMag2 (inDamping P) (positions st ! i) (prevPositions st ! i)) ` {1..<n}"
    by (rule image_cong) simp_all
  then have mv: "snd (snd ?acc) =
      Max (insert 0 ((\<lambda>i. vMag2 (inDamping P) (positions st ! i) (prevPositions st ! i)) ` {1..<n}))"
    by (simp add: integrate2_maxVel)
  from r pin free mv show ?thesis by simp
qed
lemma hypot2_zero: "hypot2 dx dy = 0 \<longleftrightarrow> dx = 0 \<and> dy = 0"
proof -
  have "dx * dx + dy * dy = 0 \<longleftrightarrow> dx = 0 \<and> dy = 0"
    using sum_power2_eq_zero_iff [of "dx" "dy"] 
    by (auto simp add: add_nonneg_eq_0_iff)
  then show ?thesis by (simp add: hypot2_def)
qed

lemma hypot2_nonneg: "0 \<le> hypot2 dx dy"
  by (simp add: hypot2_def)

lemma seg_dist2_zero: "seg_dist2 pos i = 0 \<longleftrightarrow> pos ! i = pos ! (i + 1)"
proof -
  have "\<And>p q :: point2. p = q \<longleftrightarrow> x p = x q \<and> y p = y q"
    by auto
  then show ?thesis by (auto simp add: seg_dist2_def hypot2_zero)
qed

lemma constrain2_skip: "pos ! i = pos ! (i + 1) \<Longrightarrow> constrain2 r n i pos = pos"
  by (simp add: constrain2_def Let_def hypot2_def)

lemma pass2_split:
  "i < n \<Longrightarrow> constraint_pass2 r n pos =
     fold (constrain2 r n) [Suc i..<n] (constrain2 r n i (fold (constrain2 r n) [0..<i] pos))"
proof -
  assume "i < n"
  then have "[0..<n] = [0..<i] @ i # [Suc i..<n]"
    by (metis upt_conv_Cons upt_add_eq_append le0 le_add_diff_inverse less_imp_le add_0)
  then show ?thesis by (simp add: constraint_pass2_def)
qed

lemma reachable2_chain:
  "reachable2 st \<Longrightarrow>
   length (prevPositions st) = length (positions st) \<and> (isSleeping st \<longrightarrow> positions st \<noteq> [])"
proof (induction rule: reachable2.induct)
  case (1 t0)
  show ?case by (simp add: start2_def)
next
  case (2 st p P)
  then show ?case by (simp add: onChange2_def initRope2_prevPositions initRope2_flags)
next
  case (3 st now now' P st' out)
  then have "length (prevPositions st) = length (positions st)" by simp
  from onTriggered2_total [OF this, of now now' P] 3(2) show ?case by simp
qed

lemma vMag2_nonneg: "0 \<le> vMag2 d p q"
  by (simp add: vMag2_def le_max_iff_disj)

lemma maxVel2_free:
  "2 \<le> n \<Longrightarrow>
   Max (insert 0 ((\<lambda>i. vMag2 d (pos ! i) (prv ! i)) ` {1..<n})) =
   Max ((\<lambda>i. vMag2 d (pos ! i) (prv ! i)) ` {1..<n})"
  by (rule Max_insert_0_nonneg) (auto simp add: vMag2_nonneg)
lemma pinned2_spec:
  assumes n: "length (positions st) = n + 1" "1 \<le> n"
    and len: "length (positions st) \<le> length (prevPositions st)"
  shows "pinned2 P dt tX tY bX bY st = spec_motion2 P dt tX tY bX bY st"
proof (rule nth_equalityI)
  show "length (pinned2 P dt tX tY bX bY st) = length (spec_motion2 P dt tX tY bX bY st)"
    by (simp add: pinned2_def spec_motion2_def Let_def)
next
  fix i assume "i < length (pinned2 P dt tX tY bX bY st)"
  then have i: "i < n + 1" using n by (simp add: pinned2_def Let_def)
  let ?b = "\<lparr>x = bX, y = bY\<rparr>"
  let ?pos1 = "(positions st)[n := ?b]" and ?prv1 = "(prevPositions st)[n := ?b]"
  let ?acc = "integrate2 (inGravity P) dt (inDamping P) n ?pos1 ?prv1"
  from n have nn: "length (positions st) - Suc 0 = n" by simp
  have pin: "pinned2 P dt tX tY bX bY st = (fst ?acc)[0 := \<lparr>x = tX, y = tY\<rparr>]"
    by (simp add: pinned2_def Let_def nn)
  have sp: "spec_motion2 P dt tX tY bX bY st ! i =
      (if i = 0 then \<lparr>x = tX, y = tY\<rparr>
       else if i = n then ?b
       else spec_moved2 (inGravity P) dt (inDamping P) (positions st ! i) (prevPositions st ! i))"
    using i n by (simp add: spec_motion2_def nn del: upt_Suc)
  show "pinned2 P dt tX tY bX bY st ! i = spec_motion2 P dt tX tY bX bY st ! i"
  proof (cases "i = 0")
    case True
    with n sp show ?thesis by (simp add: pin)
  next
    case False
    show ?thesis
    proof (cases "i = n")
      case True
      with n False sp integrate2_other [of n n "inGravity P" dt "inDamping P" ?pos1 ?prv1]
      show ?thesis by (simp add: pin)
    next
      case nf: False
      with False i have f: "1 \<le> i" "i < n" by simp_all
      from f n len have l: "i < length ?pos1" "i < length ?prv1" by simp_all
      from integrate2_free [OF f l, of "inGravity P" dt "inDamping P"] f False nf sp
      show ?thesis by (simp add: pin spec_moved2_def power2_eq_square)
    qed
  qed
qed

lemma step2_result:
  assumes n: "length (positions st) = n + 1" "1 \<le> n"
    and len: "length (positions st) \<le> length (prevPositions st)"
  shows "\<exists>st' mv. step2 P dt tX tY bX bY st = Some (st', mv) \<and>
    positions st' = solve2 (inLength P / real n) n (nat (max 1 (to_int32 (inIter P))))
                      (spec_motion2 P dt tX tY bX bY st) \<and>
    prevPositions st' ! 0 = \<lparr>x = tX, y = tY\<rparr> \<and>
    prevPositions st' ! n = \<lparr>x = bX, y = bY\<rparr>"
proof -
  let ?b = "\<lparr>x = bX, y = bY\<rparr>"
  let ?pos1 = "(positions st)[n := ?b]" and ?prv1 = "(prevPositions st)[n := ?b]"
  let ?acc = "integrate2 (inGravity P) dt (inDamping P) n ?pos1 ?prv1"
  from n have two: "2 \<le> length (positions st)" and nn: "length (positions st) - Suc 0 = n" by simp_all
  from n len have ne: "prevPositions st \<noteq> []" "n < length (prevPositions st)" "n \<noteq> 0" by auto
  have r: "step2 P dt tX tY bX bY st =
      Some (st\<lparr>positions := solve2 (inLength P / real n) n (nat (max 1 (to_int32 (inIter P))))
                                (pinned2 P dt tX tY bX bY st),
               prevPositions := (fst (snd ?acc))[0 := \<lparr>x = tX, y = tY\<rparr>]\<rparr>,
            snd (snd ?acc))"
    using step2_unfold [OF two len, of P dt tX tY bX bY] by (simp add: Let_def nn pinned2_def)
  have "fst (snd ?acc) ! n = ?prv1 ! n"
    using integrate2_other [of n n "inGravity P" dt "inDamping P" ?pos1 ?prv1] by simp
  with ne have "(fst (snd ?acc))[0 := \<lparr>x = tX, y = tY\<rparr>] ! n = ?b" by simp
  with r ne show ?thesis by (simp add: pinned2_spec [OF n len])
qed
lemma constrain2_checked_eq: "constrain2_checked r n i pos = Some (constrain2 r n i pos)"
  by (simp add: constrain2_checked_def constrain2_def js_div_def Let_def)

lemma checked_fold2:
  "fold (checked_turn2 r n) js (Some pos) = Some (fold (constrain2 r n) js pos)"
  by (induction js arbitrary: pos) (simp_all add: checked_turn2_def constrain2_checked_eq)

lemma pass2_checked_eq:
  "constraint_pass2_checked r n (Some pos) = Some (constraint_pass2 r n pos)"
  by (simp add: constraint_pass2_checked_def constraint_pass2_def checked_fold2)

lemma solve2_checked_fold:
  "fold (\<lambda>iter. constraint_pass2_checked r n) js (Some pos) =
     Some (fold (\<lambda>iter. constraint_pass2 r n) js pos)"
  by (induction js arbitrary: pos) (simp_all add: pass2_checked_eq)

lemma solve2_checked_eq: "solve2_checked r n k pos = Some (solve2 r n k pos)"
  by (simp add: solve2_checked_def solve2_def solve2_checked_fold)

lemma step2_checked_eq:
  "step2_checked P dt tX tY bX bY st =
     (case step2 P dt tX tY bX bY st of None \<Rightarrow> Inl TypeError | Some res \<Rightarrow> Inr res)"
proof (cases "length (positions st) - 1 < 1")
  case True
  then show ?thesis by (simp add: step2_checked_def step2_def Let_def)
next
  case False
  then have "real (length (positions st) - 1) \<noteq> 0" by simp
  with False show ?thesis
    by (simp add: step2_checked_def step2_def Let_def js_div_def solve2_checked_eq)
qed

lemma step2_checked_no_div:
  "step2_checked P dt tX tY bX bY st \<noteq> Inl DivByZero"
  by (simp add: step2_checked_eq split: option.split)

lemma pass2_coincident:
  assumes "\<And>i. i < n \<Longrightarrow> pos ! i = pos ! (i + 1)"
  shows "constraint_pass2 r n pos = pos"
  unfolding constraint_pass2_def
  by (rule fold_fixed) (simp add: constrain2_skip assms)

lemma solve2_coincident:
  assumes "\<And>i. i < n \<Longrightarrow> pos ! i = pos ! (i + 1)"
  shows "solve2 r n k pos = pos"
  unfolding solve2_def
  by (rule fold_fixed) (simp add: pass2_coincident assms)

section \<open>The claims\<close>

subsection \<open>Pinned end points\<close>

text \<open>
  Claim C2.  On a chain of at least two segments (\<open>n \<ge> 2\<close>, so \<open>n + 1\<close> points), no turn of
  the constraint loop displaces point 0 or point \<open>n\<close>, and after \<^verbatim>\<open>step\<close> returns, point 0 is
  the supplied top position and point \<open>n\<close> the supplied bottom position.  \<^verbatim>\<open>step\<close> returns
  (no TypeError) when \<^verbatim>\<open>prevPositions\<close> is not shorter than \<^verbatim>\<open>positions\<close>, as it is in every
  reachable state (\<open>reachable3_chain\<close>, \<open>reachable2_chain\<close>).  The first three hypotheses
  and the first two conjuncts are about Rope3D, the others about Rope2D.
\<close>

theorem step_pins_both_ends:
  fixes st :: state3 and s :: state2 and P :: ports3 and Q :: ports2
  assumes "2 \<le> n" "length (positions st) = n + 1"
    and "length (positions st) \<le> length (prevPositions st)"
    and "2 \<le> m" "length (positions s) = m + 1"
    and "length (positions s) \<le> length (prevPositions s)"
  shows "(\<forall>i<n. \<forall>r pos. constrain3 r n i pos ! 0 = pos ! 0 \<and> constrain3 r n i pos ! n = pos ! n) \<and>
         (\<exists>st' mv. step3 P dt tX tY tZ bX bY bZ st = Some (st', mv) \<and>
            positions st' ! 0 = \<lparr>x = tX, y = tY, z = tZ\<rparr> \<and>
            positions st' ! n = \<lparr>x = bX, y = bY, z = bZ\<rparr>) \<and>
         (\<forall>i<m. \<forall>r pos. constrain2 r m i pos ! 0 = pos ! 0 \<and> constrain2 r m i pos ! m = pos ! m) \<and>
         (\<exists>s' mv. step2 Q dt tX tY bX bY s = Some (s', mv) \<and>
            positions s' ! 0 = \<lparr>x = tX, y = tY\<rparr> \<and>
            positions s' ! m = \<lparr>x = bX, y = bY\<rparr>)"
proof (intro conjI)
  show "\<forall>i<n. \<forall>r pos. constrain3 r n i pos ! 0 = pos ! 0 \<and> constrain3 r n i pos ! n = pos ! n"
    using assms(1) by (simp add: constrain3_keeps_0 constrain3_keeps_n)
  show "\<forall>i<m. \<forall>r pos. constrain2 r m i pos ! 0 = pos ! 0 \<and> constrain2 r m i pos ! m = pos ! m"
    using assms(4) by (simp add: constrain2_keeps_0 constrain2_keeps_n)
next
  from assms(1,2) have l: "2 \<le> length (positions st)" "3 \<le> length (positions st)" by simp_all
  from step3_pins_top [OF l(1) assms(3), of P dt tX tY tZ bX bY bZ]
  obtain st' mv where r: "step3 P dt tX tY tZ bX bY bZ st = Some (st', mv)"
    and t: "positions st' ! 0 = \<lparr>x = tX, y = tY, z = tZ\<rparr>" by auto
  from step3_pins_bottom [OF l(2) assms(3) r] assms(2)
  have "positions st' ! n = \<lparr>x = bX, y = bY, z = bZ\<rparr>" by simp
  with r t show "\<exists>st' mv. step3 P dt tX tY tZ bX bY bZ st = Some (st', mv) \<and>
            positions st' ! 0 = \<lparr>x = tX, y = tY, z = tZ\<rparr> \<and>
            positions st' ! n = \<lparr>x = bX, y = bY, z = bZ\<rparr>" by simp
next
  from assms(4,5) have l: "2 \<le> length (positions s)" "3 \<le> length (positions s)" by simp_all
  from step2_pins_top [OF l(1) assms(6), of Q dt tX tY bX bY]
  obtain s' mv where r: "step2 Q dt tX tY bX bY s = Some (s', mv)"
    and t: "positions s' ! 0 = \<lparr>x = tX, y = tY\<rparr>" by auto
  from step2_pins_bottom [OF l(2) assms(6) r] assms(5)
  have "positions s' ! m = \<lparr>x = bX, y = bY\<rparr>" by simp
  with r t show "\<exists>s' mv. step2 Q dt tX tY bX bY s = Some (s', mv) \<and>
            positions s' ! 0 = \<lparr>x = tX, y = tY\<rparr> \<and>
            positions s' ! m = \<lparr>x = bX, y = bY\<rparr>" by simp
qed

theorem step_pins_both_ends_witness:
  "(2::nat) \<le> 2 \<and> length (positions example_rope3) = 2 + 1 \<and>
   length (positions example_rope3) \<le> length (prevPositions example_rope3) \<and>
   length (positions example_rope2) = 2 + 1 \<and>
   length (positions example_rope2) \<le> length (prevPositions example_rope2) \<and>
   (\<exists>st' mv. step3 example_ports3 (1 / 60) 0 1.5 0 0 (-0.5) 0 example_rope3 = Some (st', mv) \<and>
      positions st' ! 0 = \<lparr>x = 0, y = 1.5, z = 0\<rparr> \<and>
      positions st' ! 2 = \<lparr>x = 0, y = -0.5, z = 0\<rparr>) \<and>
   (\<exists>s' mv. step2 example_ports2 (1 / 60) 0 1.5 0 (-0.5) example_rope2 = Some (s', mv) \<and>
      positions s' ! 0 = \<lparr>x = 0, y = 1.5\<rparr> \<and>
      positions s' ! 2 = \<lparr>x = 0, y = -0.5\<rparr>)"
proof -
  have h: "(2::nat) \<le> 2" "length (positions example_rope3) = 2 + 1"
    "length (positions example_rope3) \<le> length (prevPositions example_rope3)"
    "length (positions example_rope2) = 2 + 1"
    "length (positions example_rope2) \<le> length (prevPositions example_rope2)"
    by (simp_all add: example_rope3_def example_rope2_def)
  from step_pins_both_ends [OF h(1,2,3) h(1) h(4,5),
      where P = example_ports3 and Q = example_ports2 and dt = "1 / 60"
        and tX = 0 and tY = "1.5" and tZ = 0 and bX = 0 and bY = "-0.5" and bZ = 0] h
  show ?thesis by simp
qed
lemma single_solve3:
  "solve3 2 (Suc 0) 8 [\<lparr>x = 0, y = 0, z = 0\<rparr>, \<lparr>x = 0, y = -4, z = 0\<rparr>]
     = [\<lparr>x = 0, y = 0, z = 0\<rparr>, \<lparr>x = 0, y = -2, z = 0\<rparr>]"
proof -
  have a: "constrain3 2 (Suc 0) 0 [\<lparr>x = 0, y = 0, z = 0\<rparr>, \<lparr>x = 0, y = -4, z = 0\<rparr>]
      = [\<lparr>x = 0, y = 0, z = 0\<rparr>, \<lparr>x = 0, y = -2, z = 0\<rparr>]"
    by (simp add: constrain3_def Let_def)
  have b: "constrain3 2 (Suc 0) 0 [\<lparr>x = 0, y = 0, z = 0\<rparr>, \<lparr>x = 0, y = -2, z = 0\<rparr>]
      = [\<lparr>x = 0, y = 0, z = 0\<rparr>, \<lparr>x = 0, y = -2, z = 0\<rparr>]"
    by (simp add: constrain3_def Let_def)
  show ?thesis
    by (simp add: solve3_funpow pass3_one eval_nat_numeral funpow_swap1 a b)
qed

lemma single_solve2:
  "solve2 2 (Suc 0) 8 [\<lparr>x = 0, y = 0\<rparr>, \<lparr>x = 0, y = -4\<rparr>]
     = [\<lparr>x = 0, y = 0\<rparr>, \<lparr>x = 0, y = -2\<rparr>]"
proof -
  have a: "constrain2 2 (Suc 0) 0 [\<lparr>x = 0, y = 0\<rparr>, \<lparr>x = 0, y = -4\<rparr>]
      = [\<lparr>x = 0, y = 0\<rparr>, \<lparr>x = 0, y = -2\<rparr>]"
    by (simp add: constrain2_def Let_def)
  have b: "constrain2 2 (Suc 0) 0 [\<lparr>x = 0, y = 0\<rparr>, \<lparr>x = 0, y = -2\<rparr>]
      = [\<lparr>x = 0, y = 0\<rparr>, \<lparr>x = 0, y = -2\<rparr>]"
    by (simp add: constrain2_def Let_def)
  show ?thesis
    by (simp add: solve2_funpow pass2_one eval_nat_numeral funpow_swap1 a b)
qed

lemma to_int32_8: "nat (max 1 (to_int32 8)) = 8"
  by (simp add: to_int32_def)

text \<open>
  Claim C1 says that \<^verbatim>\<open>step\<close> pins both ends for every segment count, also for one segment.
  On the rope of one segment the only segment has index 0, so the branch \<^verbatim>\<open>i === 0\<close> of the
  constraint loop runs and moves point 1, which is the end point: with the top at the
  origin, the bottom input at \<open>(0, -4, 0)\<close> and a rope length of 2, \<^verbatim>\<open>step\<close> leaves the end point
  at \<open>(0, -2, 0)\<close>, not at the supplied bottom position.  The same holds in Rope2D.
\<close>

theorem single_segment_end_displaced:
  "step3 single_ports3 (1 / 60) 0 0 0 0 (-4) 0 single_rope3 =
     Some (single_rope3\<lparr>positions := [\<lparr>x = 0, y = 0, z = 0\<rparr>, \<lparr>x = 0, y = -2, z = 0\<rparr>],
                        prevPositions := [\<lparr>x = 0, y = 0, z = 0\<rparr>, \<lparr>x = 0, y = -4, z = 0\<rparr>]\<rparr>, 0) \<and>
   step2 single_ports2 (1 / 60) 0 0 0 (-4) single_rope2 =
     Some (single_rope2\<lparr>positions := [\<lparr>x = 0, y = 0\<rparr>, \<lparr>x = 0, y = -2\<rparr>],
                        prevPositions := [\<lparr>x = 0, y = 0\<rparr>, \<lparr>x = 0, y = -4\<rparr>]\<rparr>, 0)"
proof
  have p: "positions single_rope3 = [\<lparr>x = 0, y = 0, z = 0\<rparr>, \<lparr>x = 0, y = -2, z = 0\<rparr>]"
    "prevPositions single_rope3 = [\<lparr>x = 0, y = 0, z = 0\<rparr>, \<lparr>x = 0, y = -2, z = 0\<rparr>]"
    by (simp_all add: single_rope3_def)
  have q: "inLength single_ports3 = 2" "inIter single_ports3 = 8"
    by (simp_all add: single_ports3_def)
  have l: "2 \<le> length (positions single_rope3)"
    "length (positions single_rope3) \<le> length (prevPositions single_rope3)"
    by (simp_all add: p)
  show "step3 single_ports3 (1 / 60) 0 0 0 0 (-4) 0 single_rope3 =
     Some (single_rope3\<lparr>positions := [\<lparr>x = 0, y = 0, z = 0\<rparr>, \<lparr>x = 0, y = -2, z = 0\<rparr>],
                        prevPositions := [\<lparr>x = 0, y = 0, z = 0\<rparr>, \<lparr>x = 0, y = -4, z = 0\<rparr>]\<rparr>, 0)"
    by (simp add: step3_unfold [OF l] Let_def p q integrate3_one to_int32_8 single_solve3)
next
  have p: "positions single_rope2 = [\<lparr>x = 0, y = 0\<rparr>, \<lparr>x = 0, y = -2\<rparr>]"
    "prevPositions single_rope2 = [\<lparr>x = 0, y = 0\<rparr>, \<lparr>x = 0, y = -2\<rparr>]"
    by (simp_all add: single_rope2_def)
  have q: "inLength single_ports2 = 2" "inIter single_ports2 = 8"
    by (simp_all add: single_ports2_def)
  have l: "2 \<le> length (positions single_rope2)"
    "length (positions single_rope2) \<le> length (prevPositions single_rope2)"
    by (simp_all add: p)
  show "step2 single_ports2 (1 / 60) 0 0 0 (-4) single_rope2 =
     Some (single_rope2\<lparr>positions := [\<lparr>x = 0, y = 0\<rparr>, \<lparr>x = 0, y = -2\<rparr>],
                        prevPositions := [\<lparr>x = 0, y = 0\<rparr>, \<lparr>x = 0, y = -4\<rparr>]\<rparr>, 0)"
    by (simp add: step2_unfold [OF l] Let_def p q integrate2_one to_int32_8 single_solve2)
qed

subsection \<open>The constraint solver\<close>

text \<open>
  Claim C3.  For a segment \<open>i\<close> of positive length \<open>dist\<close>, with the correction factor
  \<open>(dist - restLen) / dist\<close>: if \<open>i = 0\<close> only point \<open>i + 1\<close> is displaced, by the full
  correction towards point \<open>i\<close>; else if \<open>i = n - 1\<close> only point \<open>i\<close> is displaced, by the
  full correction towards point \<open>i + 1\<close>; else the points \<open>i\<close> and \<open>i + 1\<close> get half the
  correction each, in opposite directions.  A pass handles the segments \<open>0..n-1\<close> in index
  order, each on the array the earlier ones left, and \<^verbatim>\<open>step\<close> runs exactly
  \<^verbatim>\<open>Math.max(1, inIter.get() | 0)\<close> passes on the array with both ends pinned; that number is
  the value of the port when it is between 1 and \<open>2^31 - 1\<close>.  Stated for Rope3D, then for
  Rope2D.
\<close>

theorem constraint_solver_passes:
  fixes pos :: "point3 list" and ps :: "point2 list"
    and st :: state3 and s :: state2 and P :: ports3 and Q :: ports2
  assumes "i < n" "length pos = n + 1" "0 < seg_dist3 pos i"
    and "j < m" "length ps = m + 1" "0 < seg_dist2 ps j"
    and "2 \<le> length (positions st)" "length (positions st) \<le> length (prevPositions st)"
    and "2 \<le> length (positions s)" "length (positions s) \<le> length (prevPositions s)"
  shows
    "constrain3 r n i pos =
       (if i = 0 then pos[i + 1 := moved3 (pos ! (i + 1)) (pos ! i) (pos ! (i + 1)) (- seg_corr3 r pos i)]
        else if i = n - 1 then pos[i := moved3 (pos ! i) (pos ! i) (pos ! (i + 1)) (seg_corr3 r pos i)]
        else pos[i := moved3 (pos ! i) (pos ! i) (pos ! (i + 1)) (seg_corr3 r pos i / 2),
                 i + 1 := moved3 (pos ! (i + 1)) (pos ! i) (pos ! (i + 1)) (- (seg_corr3 r pos i / 2))]) \<and>
     constraint_pass3 r n pos = fold (constrain3 r n) [0..<n] pos \<and>
     fold (constrain3 r n) [0..<Suc i] pos = constrain3 r n i (fold (constrain3 r n) [0..<i] pos) \<and>
     (\<exists>st' mv. step3 P dt tX tY tZ bX bY bZ st = Some (st', mv) \<and>
        positions st' =
          (constraint_pass3 (inLength P / real (length (positions st) - 1)) (length (positions st) - 1)
             ^^ nat (max 1 (to_int32 (inIter P)))) (pinned3 P dt tX tY tZ bX bY bZ st)) \<and>
     (1 \<le> inIter P \<and> inIter P < 2 ^ 31 \<longrightarrow> nat (max 1 (to_int32 (inIter P))) = nat (inIter P)) \<and>
     constrain2 r m j ps =
       (if j = 0 then ps[j + 1 := moved2 (ps ! (j + 1)) (ps ! j) (ps ! (j + 1)) (- seg_corr2 r ps j)]
        else if j = m - 1 then ps[j := moved2 (ps ! j) (ps ! j) (ps ! (j + 1)) (seg_corr2 r ps j)]
        else ps[j := moved2 (ps ! j) (ps ! j) (ps ! (j + 1)) (seg_corr2 r ps j / 2),
                j + 1 := moved2 (ps ! (j + 1)) (ps ! j) (ps ! (j + 1)) (- (seg_corr2 r ps j / 2))]) \<and>
     constraint_pass2 r m ps = fold (constrain2 r m) [0..<m] ps \<and>
     fold (constrain2 r m) [0..<Suc j] ps = constrain2 r m j (fold (constrain2 r m) [0..<j] ps) \<and>
     (\<exists>s' mv. step2 Q dt tX tY bX bY s = Some (s', mv) \<and>
        positions s' =
          (constraint_pass2 (inLength Q / real (length (positions s) - 1)) (length (positions s) - 1)
             ^^ nat (max 1 (to_int32 (inIter Q)))) (pinned2 Q dt tX tY bX bY s)) \<and>
     (1 \<le> inIter Q \<and> inIter Q < 2 ^ 31 \<longrightarrow> nat (max 1 (to_int32 (inIter Q))) = nat (inIter Q))"
proof (intro conjI)
  show "constrain3 r n i pos =
       (if i = 0 then pos[i + 1 := moved3 (pos ! (i + 1)) (pos ! i) (pos ! (i + 1)) (- seg_corr3 r pos i)]
        else if i = n - 1 then pos[i := moved3 (pos ! i) (pos ! i) (pos ! (i + 1)) (seg_corr3 r pos i)]
        else pos[i := moved3 (pos ! i) (pos ! i) (pos ! (i + 1)) (seg_corr3 r pos i / 2),
                 i + 1 := moved3 (pos ! (i + 1)) (pos ! i) (pos ! (i + 1)) (- (seg_corr3 r pos i / 2))])"
    by (rule constrain3_cases [OF assms(3)])
  show "constrain2 r m j ps =
       (if j = 0 then ps[j + 1 := moved2 (ps ! (j + 1)) (ps ! j) (ps ! (j + 1)) (- seg_corr2 r ps j)]
        else if j = m - 1 then ps[j := moved2 (ps ! j) (ps ! j) (ps ! (j + 1)) (seg_corr2 r ps j)]
        else ps[j := moved2 (ps ! j) (ps ! j) (ps ! (j + 1)) (seg_corr2 r ps j / 2),
                j + 1 := moved2 (ps ! (j + 1)) (ps ! j) (ps ! (j + 1)) (- (seg_corr2 r ps j / 2))])"
    by (rule constrain2_cases [OF assms(6)])
  show "constraint_pass3 r n pos = fold (constrain3 r n) [0..<n] pos"
    by (simp add: constraint_pass3_def)
  show "constraint_pass2 r m ps = fold (constrain2 r m) [0..<m] ps"
    by (simp add: constraint_pass2_def)
  show "fold (constrain3 r n) [0..<Suc i] pos = constrain3 r n i (fold (constrain3 r n) [0..<i] pos)"
    by (rule fold_upt_Suc)
  show "fold (constrain2 r m) [0..<Suc j] ps = constrain2 r m j (fold (constrain2 r m) [0..<j] ps)"
    by (rule fold_upt_Suc)
  show "\<exists>st' mv. step3 P dt tX tY tZ bX bY bZ st = Some (st', mv) \<and>
        positions st' =
          (constraint_pass3 (inLength P / real (length (positions st) - 1)) (length (positions st) - 1)
             ^^ nat (max 1 (to_int32 (inIter P)))) (pinned3 P dt tX tY tZ bX bY bZ st)"
    by (rule step3_solver [OF assms(7,8)])
  show "\<exists>s' mv. step2 Q dt tX tY bX bY s = Some (s', mv) \<and>
        positions s' =
          (constraint_pass2 (inLength Q / real (length (positions s) - 1)) (length (positions s) - 1)
             ^^ nat (max 1 (to_int32 (inIter Q)))) (pinned2 Q dt tX tY bX bY s)"
    by (rule step2_solver [OF assms(9,10)])
  show "1 \<le> inIter P \<and> inIter P < 2 ^ 31 \<longrightarrow> nat (max 1 (to_int32 (inIter P))) = nat (inIter P)"
    by (simp add: iters_id)
  show "1 \<le> inIter Q \<and> inIter Q < 2 ^ 31 \<longrightarrow> nat (max 1 (to_int32 (inIter Q))) = nat (inIter Q)"
    by (simp add: iters_id)
qed

theorem constraint_solver_passes_witness:
  "(0::nat) < 2 \<and> length (positions example_rope3) = 2 + 1 \<and>
   0 < seg_dist3 (positions example_rope3) 0 \<and>
   length (positions example_rope2) = 2 + 1 \<and>
   0 < seg_dist2 (positions example_rope2) 0 \<and>
   2 \<le> length (positions example_rope3) \<and>
   length (positions example_rope3) \<le> length (prevPositions example_rope3) \<and>
   2 \<le> length (positions example_rope2) \<and>
   length (positions example_rope2) \<le> length (prevPositions example_rope2) \<and>
   constrain3 1 2 0 (positions example_rope3) =
     (positions example_rope3)
       [1 := moved3 (positions example_rope3 ! 1) (positions example_rope3 ! 0)
               (positions example_rope3 ! 1) (- seg_corr3 1 (positions example_rope3) 0)] \<and>
   (\<exists>st' mv. step3 example_ports3 (1 / 60) 0 1.5 0 0 (-0.5) 0 example_rope3 = Some (st', mv) \<and>
      positions st' =
        (constraint_pass3 (inLength example_ports3 / real (length (positions example_rope3) - 1))
           (length (positions example_rope3) - 1) ^^ nat (max 1 (to_int32 (inIter example_ports3))))
          (pinned3 example_ports3 (1 / 60) 0 1.5 0 0 (-0.5) 0 example_rope3)) \<and>
   (\<exists>s' mv. step2 example_ports2 (1 / 60) 0 1.5 0 (-0.5) example_rope2 = Some (s', mv) \<and>
      positions s' =
        (constraint_pass2 (inLength example_ports2 / real (length (positions example_rope2) - 1))
           (length (positions example_rope2) - 1) ^^ nat (max 1 (to_int32 (inIter example_ports2))))
          (pinned2 example_ports2 (1 / 60) 0 1.5 0 (-0.5) example_rope2))"
proof -
  have h: "(0::nat) < 2" "length (positions example_rope3) = 2 + 1"
    "0 < seg_dist3 (positions example_rope3) 0"
    "length (positions example_rope2) = 2 + 1"
    "0 < seg_dist2 (positions example_rope2) 0"
    "2 \<le> length (positions example_rope3)"
    "length (positions example_rope3) \<le> length (prevPositions example_rope3)"
    "2 \<le> length (positions example_rope2)"
    "length (positions example_rope2) \<le> length (prevPositions example_rope2)"
    by (simp_all add: example_rope3_def example_rope2_def seg_dist3_def seg_dist2_def)
  from constraint_solver_passes [OF h(1,2,3) h(1) h(4,5) h(6,7,8,9),
      where P = example_ports3 and Q = example_ports2 and dt = "1 / 60" and r = 1
        and tX = 0 and tY = "1.5" and tZ = 0 and bX = 0 and bY = "-0.5" and bZ = 0] h
  show ?thesis by simp
qed

subsection \<open>The motion update\<close>

text \<open>
  Claim C4.  For every free point \<open>i\<close> in \<open>1..n-1\<close>, with the velocity
  \<open>v = (current[i] - previous[i]) * damping\<close> of the state before the call, the motion update
  leaves \<open>current[i] + v\<close> in \<open>current[i]\<close>, with \<open>gravity * dt\<^sup>2\<close> added on the y axis only,
  and the old \<open>current[i]\<close> in \<open>previous[i]\<close>.  This is stated of the result of \<^verbatim>\<open>step\<close>: the
  positions that \<^verbatim>\<open>step\<close> leaves are the constraint solver applied to the chain of the moved
  points with both ends pinned (\<open>spec_motion3\<close>, \<open>spec_motion2\<close>), and the previous positions
  after \<^verbatim>\<open>step\<close> are the two pinned ends and the old current positions of the free points.
  The returned value is the largest absolute velocity component over the free points, and
  0 when there is none.  Stated for Rope3D, then for Rope2D.
\<close>

theorem step_motion_update:
  fixes st :: state3 and s :: state2 and P :: ports3 and Q :: ports2
  assumes "length (positions st) = n + 1" "1 \<le> n"
    and "length (positions st) \<le> length (prevPositions st)"
    and "length (positions s) = m + 1" "1 \<le> m"
    and "length (positions s) \<le> length (prevPositions s)"
  shows
    "(\<exists>st' mv. step3 P dt tX tY tZ bX bY bZ st = Some (st', mv) \<and>
       positions st' =
         solve3 (inLength P / real n) n (nat (max 1 (to_int32 (inIter P))))
           (spec_motion3 P dt tX tY tZ bX bY bZ st) \<and>
       prevPositions st' ! 0 = \<lparr>x = tX, y = tY, z = tZ\<rparr> \<and>
       prevPositions st' ! n = \<lparr>x = bX, y = bY, z = bZ\<rparr> \<and>
       (\<forall>i. 1 \<le> i \<and> i < n \<longrightarrow>
          pinned3 P dt tX tY tZ bX bY bZ st ! i =
            \<lparr>x = x (positions st ! i) + (x (positions st ! i) - x (prevPositions st ! i)) * inDamping P,
             y = y (positions st ! i) + (y (positions st ! i) - y (prevPositions st ! i)) * inDamping P
                   + inGravity P * dt\<^sup>2,
             z = z (positions st ! i) + (z (positions st ! i) - z (prevPositions st ! i)) * inDamping P\<rparr> \<and>
          prevPositions st' ! i = positions st ! i) \<and>
       mv = Max (insert 0 ((\<lambda>i. vMag3 (inDamping P) (positions st ! i) (prevPositions st ! i)) ` {1..<n})) \<and>
       (n = 1 \<longrightarrow> mv = 0) \<and>
       (2 \<le> n \<longrightarrow>
          mv = Max ((\<lambda>i. vMag3 (inDamping P) (positions st ! i) (prevPositions st ! i)) ` {1..<n}))) \<and>
     (\<exists>s' mv. step2 Q dt tX tY bX bY s = Some (s', mv) \<and>
       positions s' =
         solve2 (inLength Q / real m) m (nat (max 1 (to_int32 (inIter Q))))
           (spec_motion2 Q dt tX tY bX bY s) \<and>
       prevPositions s' ! 0 = \<lparr>x = tX, y = tY\<rparr> \<and>
       prevPositions s' ! m = \<lparr>x = bX, y = bY\<rparr> \<and>
       (\<forall>i. 1 \<le> i \<and> i < m \<longrightarrow>
          pinned2 Q dt tX tY bX bY s ! i =
            \<lparr>x = x (positions s ! i) + (x (positions s ! i) - x (prevPositions s ! i)) * inDamping Q,
             y = y (positions s ! i) + (y (positions s ! i) - y (prevPositions s ! i)) * inDamping Q
                   + inGravity Q * dt\<^sup>2\<rparr> \<and>
          prevPositions s' ! i = positions s ! i) \<and>
       mv = Max (insert 0 ((\<lambda>i. vMag2 (inDamping Q) (positions s ! i) (prevPositions s ! i)) ` {1..<m})) \<and>
       (m = 1 \<longrightarrow> mv = 0) \<and>
       (2 \<le> m \<longrightarrow>
          mv = Max ((\<lambda>i. vMag2 (inDamping Q) (positions s ! i) (prevPositions s ! i)) ` {1..<m})))"
proof
  from step3_motion [OF assms(1,2,3), of P dt tX tY tZ bX bY bZ]
  obtain st' mv where r: "step3 P dt tX tY tZ bX bY bZ st = Some (st', mv)"
    and f: "\<forall>i. 1 \<le> i \<and> i < n \<longrightarrow>
          pinned3 P dt tX tY tZ bX bY bZ st ! i =
            \<lparr>x = x (positions st ! i) + (x (positions st ! i) - x (prevPositions st ! i)) * inDamping P,
             y = y (positions st ! i) + (y (positions st ! i) - y (prevPositions st ! i)) * inDamping P
                   + inGravity P * dt\<^sup>2,
             z = z (positions st ! i) + (z (positions st ! i) - z (prevPositions st ! i)) * inDamping P\<rparr> \<and>
          prevPositions st' ! i = positions st ! i"
    and v: "mv = Max (insert 0 ((\<lambda>i. vMag3 (inDamping P) (positions st ! i) (prevPositions st ! i)) ` {1..<n}))"
    by blast
  from step3_result [OF assms(1,2,3), of P dt tX tY tZ bX bY bZ] r
  have p: "positions st' =
         solve3 (inLength P / real n) n (nat (max 1 (to_int32 (inIter P))))
           (spec_motion3 P dt tX tY tZ bX bY bZ st)"
    "prevPositions st' ! 0 = \<lparr>x = tX, y = tY, z = tZ\<rparr>"
    "prevPositions st' ! n = \<lparr>x = bX, y = bY, z = bZ\<rparr>"
    by auto
  from v have o: "n = 1 \<longrightarrow> mv = 0" by simp
  have w: "2 \<le> n \<longrightarrow>
      mv = Max ((\<lambda>i. vMag3 (inDamping P) (positions st ! i) (prevPositions st ! i)) ` {1..<n})"
  proof
    assume "2 \<le> n"
    then show "mv = Max ((\<lambda>i. vMag3 (inDamping P) (positions st ! i) (prevPositions st ! i)) ` {1..<n})"
      unfolding v by (rule maxVel3_free)
  qed
  show "\<exists>st' mv. step3 P dt tX tY tZ bX bY bZ st = Some (st', mv) \<and>
       positions st' =
         solve3 (inLength P / real n) n (nat (max 1 (to_int32 (inIter P))))
           (spec_motion3 P dt tX tY tZ bX bY bZ st) \<and>
       prevPositions st' ! 0 = \<lparr>x = tX, y = tY, z = tZ\<rparr> \<and>
       prevPositions st' ! n = \<lparr>x = bX, y = bY, z = bZ\<rparr> \<and>
       (\<forall>i. 1 \<le> i \<and> i < n \<longrightarrow>
          pinned3 P dt tX tY tZ bX bY bZ st ! i =
            \<lparr>x = x (positions st ! i) + (x (positions st ! i) - x (prevPositions st ! i)) * inDamping P,
             y = y (positions st ! i) + (y (positions st ! i) - y (prevPositions st ! i)) * inDamping P
                   + inGravity P * dt\<^sup>2,
             z = z (positions st ! i) + (z (positions st ! i) - z (prevPositions st ! i)) * inDamping P\<rparr> \<and>
          prevPositions st' ! i = positions st ! i) \<and>
       mv = Max (insert 0 ((\<lambda>i. vMag3 (inDamping P) (positions st ! i) (prevPositions st ! i)) ` {1..<n})) \<and>
       (n = 1 \<longrightarrow> mv = 0) \<and>
       (2 \<le> n \<longrightarrow>
          mv = Max ((\<lambda>i. vMag3 (inDamping P) (positions st ! i) (prevPositions st ! i)) ` {1..<n}))"
    using r p f v o w by blast
next
  from step2_motion [OF assms(4,5,6), of Q dt tX tY bX bY]
  obtain s' mv where r: "step2 Q dt tX tY bX bY s = Some (s', mv)"
    and f: "\<forall>i. 1 \<le> i \<and> i < m \<longrightarrow>
          pinned2 Q dt tX tY bX bY s ! i =
            \<lparr>x = x (positions s ! i) + (x (positions s ! i) - x (prevPositions s ! i)) * inDamping Q,
             y = y (positions s ! i) + (y (positions s ! i) - y (prevPositions s ! i)) * inDamping Q
                   + inGravity Q * dt\<^sup>2\<rparr> \<and>
          prevPositions s' ! i = positions s ! i"
    and v: "mv = Max (insert 0 ((\<lambda>i. vMag2 (inDamping Q) (positions s ! i) (prevPositions s ! i)) ` {1..<m}))"
    by blast
  from step2_result [OF assms(4,5,6), of Q dt tX tY bX bY] r
  have p: "positions s' =
         solve2 (inLength Q / real m) m (nat (max 1 (to_int32 (inIter Q))))
           (spec_motion2 Q dt tX tY bX bY s)"
    "prevPositions s' ! 0 = \<lparr>x = tX, y = tY\<rparr>"
    "prevPositions s' ! m = \<lparr>x = bX, y = bY\<rparr>"
    by auto
  from v have o: "m = 1 \<longrightarrow> mv = 0" by simp
  have w: "2 \<le> m \<longrightarrow>
      mv = Max ((\<lambda>i. vMag2 (inDamping Q) (positions s ! i) (prevPositions s ! i)) ` {1..<m})"
  proof
    assume "2 \<le> m"
    then show "mv = Max ((\<lambda>i. vMag2 (inDamping Q) (positions s ! i) (prevPositions s ! i)) ` {1..<m})"
      unfolding v by (rule maxVel2_free)
  qed
  show "\<exists>s' mv. step2 Q dt tX tY bX bY s = Some (s', mv) \<and>
       positions s' =
         solve2 (inLength Q / real m) m (nat (max 1 (to_int32 (inIter Q))))
           (spec_motion2 Q dt tX tY bX bY s) \<and>
       prevPositions s' ! 0 = \<lparr>x = tX, y = tY\<rparr> \<and>
       prevPositions s' ! m = \<lparr>x = bX, y = bY\<rparr> \<and>
       (\<forall>i. 1 \<le> i \<and> i < m \<longrightarrow>
          pinned2 Q dt tX tY bX bY s ! i =
            \<lparr>x = x (positions s ! i) + (x (positions s ! i) - x (prevPositions s ! i)) * inDamping Q,
             y = y (positions s ! i) + (y (positions s ! i) - y (prevPositions s ! i)) * inDamping Q
                   + inGravity Q * dt\<^sup>2\<rparr> \<and>
          prevPositions s' ! i = positions s ! i) \<and>
       mv = Max (insert 0 ((\<lambda>i. vMag2 (inDamping Q) (positions s ! i) (prevPositions s ! i)) ` {1..<m})) \<and>
       (m = 1 \<longrightarrow> mv = 0) \<and>
       (2 \<le> m \<longrightarrow>
          mv = Max ((\<lambda>i. vMag2 (inDamping Q) (positions s ! i) (prevPositions s ! i)) ` {1..<m}))"
    using r p f v o w by blast
qed

lemma moving_spec3:
  "spec_motion3 moving_ports3 (1 / 4) 0 0 0 0 (-3) 0 moving_rope3 =
     [\<lparr>x = 0, y = 0, z = 0\<rparr>, \<lparr>x = 0, y = -3 / 2, z = 0\<rparr>,
      \<lparr>x = 0, y = -11 / 4, z = 0\<rparr>, \<lparr>x = 0, y = -3, z = 0\<rparr>]"
  by (simp add: spec_motion3_def spec_moved3_def moving_ports3_def moving_rope3_def
      eval_nat_numeral power2_eq_square)

lemma moving_solve3:
  "solve3 1 3 (Suc 0)
     [\<lparr>x = 0, y = 0, z = 0\<rparr>, \<lparr>x = 0, y = -3 / 2, z = 0\<rparr>,
      \<lparr>x = 0, y = -11 / 4, z = 0\<rparr>, \<lparr>x = 0, y = -3, z = 0\<rparr>] =
     [\<lparr>x = 0, y = 0, z = 0\<rparr>, \<lparr>x = 0, y = -11 / 8, z = 0\<rparr>,
      \<lparr>x = 0, y = -2, z = 0\<rparr>, \<lparr>x = 0, y = -3, z = 0\<rparr>]"
proof -
  have a: "constrain3 1 3 0
      [\<lparr>x = 0, y = 0, z = 0\<rparr>, \<lparr>x = 0, y = -3 / 2, z = 0\<rparr>,
       \<lparr>x = 0, y = -11 / 4, z = 0\<rparr>, \<lparr>x = 0, y = -3, z = 0\<rparr>] =
      [\<lparr>x = 0, y = 0, z = 0\<rparr>, \<lparr>x = 0, y = -1, z = 0\<rparr>,
       \<lparr>x = 0, y = -11 / 4, z = 0\<rparr>, \<lparr>x = 0, y = -3, z = 0\<rparr>]"
    by (simp add: constrain3_def Let_def)
  have b: "constrain3 1 3 (Suc 0)
      [\<lparr>x = 0, y = 0, z = 0\<rparr>, \<lparr>x = 0, y = -1, z = 0\<rparr>,
       \<lparr>x = 0, y = -11 / 4, z = 0\<rparr>, \<lparr>x = 0, y = -3, z = 0\<rparr>] =
      [\<lparr>x = 0, y = 0, z = 0\<rparr>, \<lparr>x = 0, y = -11 / 8, z = 0\<rparr>,
       \<lparr>x = 0, y = -19 / 8, z = 0\<rparr>, \<lparr>x = 0, y = -3, z = 0\<rparr>]"
    by (simp add: constrain3_def Let_def)
  have c: "constrain3 1 3 (Suc (Suc 0))
      [\<lparr>x = 0, y = 0, z = 0\<rparr>, \<lparr>x = 0, y = -11 / 8, z = 0\<rparr>,
       \<lparr>x = 0, y = -19 / 8, z = 0\<rparr>, \<lparr>x = 0, y = -3, z = 0\<rparr>] =
      [\<lparr>x = 0, y = 0, z = 0\<rparr>, \<lparr>x = 0, y = -11 / 8, z = 0\<rparr>,
       \<lparr>x = 0, y = -2, z = 0\<rparr>, \<lparr>x = 0, y = -3, z = 0\<rparr>]"
    by (simp add: constrain3_def Let_def eval_nat_numeral)
  have u: "[0..<3] = [0, Suc 0, Suc (Suc 0)]" by (simp add: eval_nat_numeral)
  have p: "constraint_pass3 1 3
      [\<lparr>x = 0, y = 0, z = 0\<rparr>, \<lparr>x = 0, y = -3 / 2, z = 0\<rparr>,
       \<lparr>x = 0, y = -11 / 4, z = 0\<rparr>, \<lparr>x = 0, y = -3, z = 0\<rparr>] =
      [\<lparr>x = 0, y = 0, z = 0\<rparr>, \<lparr>x = 0, y = -11 / 8, z = 0\<rparr>,
       \<lparr>x = 0, y = -2, z = 0\<rparr>, \<lparr>x = 0, y = -3, z = 0\<rparr>]"
    unfolding constraint_pass3_def u by (simp only: fold_simps a b c id_apply o_apply)
  show ?thesis using p by (simp add: solve3_def)
qed

lemma moving_maxVel3:
  "Max (insert 0 ((\<lambda>i. vMag3 (inDamping moving_ports3) (positions moving_rope3 ! i)
        (prevPositions moving_rope3 ! i)) ` {1..<3})) = 1 / 4"
proof -
  have "{1..<3::nat} = {1, 2}" by auto
  then show ?thesis
    by (simp add: vMag3_def moving_ports3_def moving_rope3_def)
qed

lemma moving_spec2:
  "spec_motion2 moving_ports2 (1 / 4) 0 0 0 (-3) moving_rope2 =
     [\<lparr>x = 0, y = 0\<rparr>, \<lparr>x = 0, y = -3 / 2\<rparr>,
      \<lparr>x = 0, y = -11 / 4\<rparr>, \<lparr>x = 0, y = -3\<rparr>]"
  by (simp add: spec_motion2_def spec_moved2_def moving_ports2_def moving_rope2_def
      eval_nat_numeral power2_eq_square)

lemma moving_solve2:
  "solve2 1 3 (Suc 0)
     [\<lparr>x = 0, y = 0\<rparr>, \<lparr>x = 0, y = -3 / 2\<rparr>,
      \<lparr>x = 0, y = -11 / 4\<rparr>, \<lparr>x = 0, y = -3\<rparr>] =
     [\<lparr>x = 0, y = 0\<rparr>, \<lparr>x = 0, y = -11 / 8\<rparr>,
      \<lparr>x = 0, y = -2\<rparr>, \<lparr>x = 0, y = -3\<rparr>]"
proof -
  have a: "constrain2 1 3 0
      [\<lparr>x = 0, y = 0\<rparr>, \<lparr>x = 0, y = -3 / 2\<rparr>,
       \<lparr>x = 0, y = -11 / 4\<rparr>, \<lparr>x = 0, y = -3\<rparr>] =
      [\<lparr>x = 0, y = 0\<rparr>, \<lparr>x = 0, y = -1\<rparr>,
       \<lparr>x = 0, y = -11 / 4\<rparr>, \<lparr>x = 0, y = -3\<rparr>]"
    by (simp add: constrain2_def Let_def)
  have b: "constrain2 1 3 (Suc 0)
      [\<lparr>x = 0, y = 0\<rparr>, \<lparr>x = 0, y = -1\<rparr>,
       \<lparr>x = 0, y = -11 / 4\<rparr>, \<lparr>x = 0, y = -3\<rparr>] =
      [\<lparr>x = 0, y = 0\<rparr>, \<lparr>x = 0, y = -11 / 8\<rparr>,
       \<lparr>x = 0, y = -19 / 8\<rparr>, \<lparr>x = 0, y = -3\<rparr>]"
    by (simp add: constrain2_def Let_def)
  have c: "constrain2 1 3 (Suc (Suc 0))
      [\<lparr>x = 0, y = 0\<rparr>, \<lparr>x = 0, y = -11 / 8\<rparr>,
       \<lparr>x = 0, y = -19 / 8\<rparr>, \<lparr>x = 0, y = -3\<rparr>] =
      [\<lparr>x = 0, y = 0\<rparr>, \<lparr>x = 0, y = -11 / 8\<rparr>,
       \<lparr>x = 0, y = -2\<rparr>, \<lparr>x = 0, y = -3\<rparr>]"
    by (simp add: constrain2_def Let_def eval_nat_numeral)
  have u: "[0..<3] = [0, Suc 0, Suc (Suc 0)]" by (simp add: eval_nat_numeral)
  have p: "constraint_pass2 1 3
      [\<lparr>x = 0, y = 0\<rparr>, \<lparr>x = 0, y = -3 / 2\<rparr>,
       \<lparr>x = 0, y = -11 / 4\<rparr>, \<lparr>x = 0, y = -3\<rparr>] =
      [\<lparr>x = 0, y = 0\<rparr>, \<lparr>x = 0, y = -11 / 8\<rparr>,
       \<lparr>x = 0, y = -2\<rparr>, \<lparr>x = 0, y = -3\<rparr>]"
    unfolding constraint_pass2_def u by (simp only: fold_simps a b c id_apply o_apply)
  show ?thesis using p by (simp add: solve2_def)
qed

lemma moving_maxVel2:
  "Max (insert 0 ((\<lambda>i. vMag2 (inDamping moving_ports2) (positions moving_rope2 ! i)
        (prevPositions moving_rope2 ! i)) ` {1..<3})) = 1 / 4"
proof -
  have "{1..<3::nat} = {1, 2}" by auto
  then show ?thesis
    by (simp add: vMag2_def moving_ports2_def moving_rope2_def)
qed

theorem step_motion_update_witness:
  "length (positions moving_rope3) = 3 + 1 \<and> (1::nat) \<le> 3 \<and>
   length (positions moving_rope3) \<le> length (prevPositions moving_rope3) \<and>
   length (positions moving_rope2) = 3 + 1 \<and>
   length (positions moving_rope2) \<le> length (prevPositions moving_rope2) \<and>
   (\<exists>st' mv. step3 moving_ports3 (1 / 4) 0 0 0 0 (-3) 0 moving_rope3 = Some (st', mv) \<and>
      positions st' =
        [\<lparr>x = 0, y = 0, z = 0\<rparr>, \<lparr>x = 0, y = -11 / 8, z = 0\<rparr>,
         \<lparr>x = 0, y = -2, z = 0\<rparr>, \<lparr>x = 0, y = -3, z = 0\<rparr>] \<and>
      prevPositions st' ! 2 = \<lparr>x = 0, y = -2, z = 0\<rparr> \<and> mv = 1 / 4) \<and>
   (\<exists>s' mv. step2 moving_ports2 (1 / 4) 0 0 0 (-3) moving_rope2 = Some (s', mv) \<and>
      positions s' =
        [\<lparr>x = 0, y = 0\<rparr>, \<lparr>x = 0, y = -11 / 8\<rparr>, \<lparr>x = 0, y = -2\<rparr>, \<lparr>x = 0, y = -3\<rparr>] \<and>
      prevPositions s' ! 2 = \<lparr>x = 0, y = -2\<rparr> \<and> mv = 1 / 4)"
proof -
  have h: "length (positions moving_rope3) = 3 + 1" "(1::nat) \<le> 3"
    "length (positions moving_rope3) \<le> length (prevPositions moving_rope3)"
    "length (positions moving_rope2) = 3 + 1"
    "length (positions moving_rope2) \<le> length (prevPositions moving_rope2)"
    by (simp_all add: moving_rope3_def moving_rope2_def)
  have k: "inLength moving_ports3 / real (3::nat) = 1" "nat (max 1 (to_int32 (inIter moving_ports3))) = Suc 0"
    "inLength moving_ports2 / real (3::nat) = 1" "nat (max 1 (to_int32 (inIter moving_ports2))) = Suc 0"
    "positions moving_rope3 ! 2 = \<lparr>x = 0, y = -2, z = 0\<rparr>"
    "positions moving_rope2 ! 2 = \<lparr>x = 0, y = -2\<rparr>"
    by (simp_all add: moving_ports3_def moving_ports2_def moving_rope3_def moving_rope2_def to_int32_def
        eval_nat_numeral)
  from step_motion_update [OF h(1,2,3) h(4) h(2) h(5),
      where P = moving_ports3 and Q = moving_ports2 and dt = "1 / 4"
        and tX = 0 and tY = 0 and tZ = 0 and bX = 0 and bY = "-3" and bZ = 0]
  obtain st' mv s' mv' where
    a: "step3 moving_ports3 (1 / 4) 0 0 0 0 (-3) 0 moving_rope3 = Some (st', mv)"
      "positions st' =
         solve3 (inLength moving_ports3 / real (3::nat)) 3 (nat (max 1 (to_int32 (inIter moving_ports3))))
           (spec_motion3 moving_ports3 (1 / 4) 0 0 0 0 (-3) 0 moving_rope3)"
      "\<forall>i. 1 \<le> i \<and> i < 3 \<longrightarrow> prevPositions st' ! i = positions moving_rope3 ! i"
      "mv = Max (insert 0 ((\<lambda>i. vMag3 (inDamping moving_ports3) (positions moving_rope3 ! i)
              (prevPositions moving_rope3 ! i)) ` {1..<3}))"
    and b: "step2 moving_ports2 (1 / 4) 0 0 0 (-3) moving_rope2 = Some (s', mv')"
      "positions s' =
         solve2 (inLength moving_ports2 / real (3::nat)) 3 (nat (max 1 (to_int32 (inIter moving_ports2))))
           (spec_motion2 moving_ports2 (1 / 4) 0 0 0 (-3) moving_rope2)"
      "\<forall>i. 1 \<le> i \<and> i < 3 \<longrightarrow> prevPositions s' ! i = positions moving_rope2 ! i"
      "mv' = Max (insert 0 ((\<lambda>i. vMag2 (inDamping moving_ports2) (positions moving_rope2 ! i)
              (prevPositions moving_rope2 ! i)) ` {1..<3}))"
    by blast
  from a(3) b(3) have c: "prevPositions st' ! 2 = positions moving_rope3 ! 2"
    "prevPositions s' ! 2 = positions moving_rope2 ! 2" by simp_all
  have d: "positions st' =
        [\<lparr>x = 0, y = 0, z = 0\<rparr>, \<lparr>x = 0, y = -11 / 8, z = 0\<rparr>,
         \<lparr>x = 0, y = -2, z = 0\<rparr>, \<lparr>x = 0, y = -3, z = 0\<rparr>]"
    unfolding a(2) k moving_spec3 by (rule moving_solve3)
  have e: "positions s' =
        [\<lparr>x = 0, y = 0\<rparr>, \<lparr>x = 0, y = -11 / 8\<rparr>, \<lparr>x = 0, y = -2\<rparr>, \<lparr>x = 0, y = -3\<rparr>]"
    unfolding b(2) k moving_spec2 by (rule moving_solve2)
  have f: "mv = 1 / 4" unfolding a(4) by (rule moving_maxVel3)
  have g: "mv' = 1 / 4" unfolding b(4) by (rule moving_maxVel2)
  have A: "\<exists>st' mv. step3 moving_ports3 (1 / 4) 0 0 0 0 (-3) 0 moving_rope3 = Some (st', mv) \<and>
      positions st' =
        [\<lparr>x = 0, y = 0, z = 0\<rparr>, \<lparr>x = 0, y = -11 / 8, z = 0\<rparr>,
         \<lparr>x = 0, y = -2, z = 0\<rparr>, \<lparr>x = 0, y = -3, z = 0\<rparr>] \<and>
      prevPositions st' ! 2 = \<lparr>x = 0, y = -2, z = 0\<rparr> \<and> mv = 1 / 4"
    using a(1) d c(1) [unfolded k(5)] f by blast
  have B: "\<exists>s' mv. step2 moving_ports2 (1 / 4) 0 0 0 (-3) moving_rope2 = Some (s', mv) \<and>
      positions s' =
        [\<lparr>x = 0, y = 0\<rparr>, \<lparr>x = 0, y = -11 / 8\<rparr>, \<lparr>x = 0, y = -2\<rparr>, \<lparr>x = 0, y = -3\<rparr>] \<and>
      prevPositions s' ! 2 = \<lparr>x = 0, y = -2\<rparr> \<and> mv = 1 / 4"
    using b(1) e c(2) [unfolded k(6)] g by blast
  from h A B show ?thesis by blast
qed

subsection \<open>Segments of length zero\<close>

text \<open>
  Claim C8.  When a pass reaches a segment whose two points coincide, the length
  \<^verbatim>\<open>dist\<close> is exactly 0 and the segment is skipped: the array is left as it is, and the
  pass goes on with the next segment.  \<^verbatim>\<open>dist\<close> is 0 only for coincident points and is
  never negative, so the division by \<^verbatim>\<open>dist\<close>, which only a segment that is not skipped
  performs, has a positive divisor.

  That no division by zero occurs is stated of the second form of \<^verbatim>\<open>step\<close>, in which a
  quotient with the divisor 0 has no value and ends the run with the fault \<open>DivByZero\<close>:
  the turn for the coincident segment ends without a fault and with the array as it was,
  the pass goes on from there, no turn of any pass ends with a fault, and so no call of
  \<^verbatim>\<open>step\<close> ends with \<open>DivByZero\<close>; the second form of \<^verbatim>\<open>step\<close> returns what \<^verbatim>\<open>step\<close> returns.
  Without the test \<^verbatim>\<open>if (!dist) continue\<close> the turn for a coincident segment would evaluate
  \<open>js_div (0 - restLen) 0\<close>, which is \<open>None\<close>.  Stated for Rope3D, then for Rope2D.
\<close>

theorem zero_length_segment_skipped:
  fixes pos q :: "point3 list" and ps u :: "point2 list"
  assumes "i < n" "q = fold (constrain3 r n) [0..<i] pos" "q ! i = q ! (i + 1)"
    and "j < m" "u = fold (constrain2 r m) [0..<j] ps" "u ! j = u ! (j + 1)"
  shows
    "seg_dist3 q i = 0 \<and> constrain3 r n i q = q \<and>
     constraint_pass3 r n pos = fold (constrain3 r n) [Suc i..<n] q \<and>
     (\<forall>a k. (seg_dist3 a k = 0 \<longleftrightarrow> a ! k = a ! (k + 1)) \<and> 0 \<le> seg_dist3 a k) \<and>
     constrain3_checked r n i q = Some q \<and>
     fold (checked_turn3 r n) [0..<i] (Some pos) = Some q \<and>
     constraint_pass3_checked r n (Some pos) = fold (checked_turn3 r n) [Suc i..<n] (Some q) \<and>
     (\<forall>a k. constrain3_checked r n k a = Some (constrain3 r n k a)) \<and>
     (\<forall>a k. solve3_checked r n k a = Some (solve3 r n k a)) \<and>
     (\<forall>P dt tX tY tZ bX bY bZ st.
        step3_checked P dt tX tY tZ bX bY bZ st \<noteq> Inl DivByZero \<and>
        step3_checked P dt tX tY tZ bX bY bZ st =
          (case step3 P dt tX tY tZ bX bY bZ st of None \<Rightarrow> Inl TypeError | Some res \<Rightarrow> Inr res)) \<and>
     seg_dist2 u j = 0 \<and> constrain2 r m j u = u \<and>
     constraint_pass2 r m ps = fold (constrain2 r m) [Suc j..<m] u \<and>
     (\<forall>a k. (seg_dist2 a k = 0 \<longleftrightarrow> a ! k = a ! (k + 1)) \<and> 0 \<le> seg_dist2 a k) \<and>
     constrain2_checked r m j u = Some u \<and>
     fold (checked_turn2 r m) [0..<j] (Some ps) = Some u \<and>
     constraint_pass2_checked r m (Some ps) = fold (checked_turn2 r m) [Suc j..<m] (Some u) \<and>
     (\<forall>a k. constrain2_checked r m k a = Some (constrain2 r m k a)) \<and>
     (\<forall>a k. solve2_checked r m k a = Some (solve2 r m k a)) \<and>
     (\<forall>Q dt tX tY bX bY s.
        step2_checked Q dt tX tY bX bY s \<noteq> Inl DivByZero \<and>
        step2_checked Q dt tX tY bX bY s =
          (case step2 Q dt tX tY bX bY s of None \<Rightarrow> Inl TypeError | Some res \<Rightarrow> Inr res))"
proof (intro conjI)
  show "seg_dist3 q i = 0" using assms(3) by (simp add: seg_dist3_zero)
  show s3: "constrain3 r n i q = q" using assms(3) by (rule constrain3_skip)
  show p3: "constraint_pass3 r n pos = fold (constrain3 r n) [Suc i..<n] q"
    using pass3_split [OF assms(1), of r pos] s3 assms(2) by simp
  show "\<forall>a k. (seg_dist3 a k = 0 \<longleftrightarrow> a ! k = a ! (k + 1)) \<and> 0 \<le> seg_dist3 a k"
    by (simp add: seg_dist3_zero) (simp add: seg_dist3_def hypot3_nonneg)
  show "constrain3_checked r n i q = Some q" using s3 by (simp add: constrain3_checked_eq)
  show "fold (checked_turn3 r n) [0..<i] (Some pos) = Some q"
    using assms(2) by (simp add: checked_fold3)
  show "constraint_pass3_checked r n (Some pos) = fold (checked_turn3 r n) [Suc i..<n] (Some q)"
    using p3 by (simp add: pass3_checked_eq checked_fold3)
  show "\<forall>a k. constrain3_checked r n k a = Some (constrain3 r n k a)"
    by (simp add: constrain3_checked_eq)
  show "\<forall>a k. solve3_checked r n k a = Some (solve3 r n k a)"
    by (simp add: solve3_checked_eq)
  show "\<forall>P dt tX tY tZ bX bY bZ st.
        step3_checked P dt tX tY tZ bX bY bZ st \<noteq> Inl DivByZero \<and>
        step3_checked P dt tX tY tZ bX bY bZ st =
          (case step3 P dt tX tY tZ bX bY bZ st of None \<Rightarrow> Inl TypeError | Some res \<Rightarrow> Inr res)"
    using step3_checked_no_div step3_checked_eq by blast
  show "seg_dist2 u j = 0" using assms(6) by (simp add: seg_dist2_zero)
  show s2: "constrain2 r m j u = u" using assms(6) by (rule constrain2_skip)
  show p2: "constraint_pass2 r m ps = fold (constrain2 r m) [Suc j..<m] u"
    using pass2_split [OF assms(4), of r ps] s2 assms(5) by simp
  show "\<forall>a k. (seg_dist2 a k = 0 \<longleftrightarrow> a ! k = a ! (k + 1)) \<and> 0 \<le> seg_dist2 a k"
    by (simp add: seg_dist2_zero) (simp add: seg_dist2_def hypot2_nonneg)
  show "constrain2_checked r m j u = Some u" using s2 by (simp add: constrain2_checked_eq)
  show "fold (checked_turn2 r m) [0..<j] (Some ps) = Some u"
    using assms(5) by (simp add: checked_fold2)
  show "constraint_pass2_checked r m (Some ps) = fold (checked_turn2 r m) [Suc j..<m] (Some u)"
    using p2 by (simp add: pass2_checked_eq checked_fold2)
  show "\<forall>a k. constrain2_checked r m k a = Some (constrain2 r m k a)"
    by (simp add: constrain2_checked_eq)
  show "\<forall>a k. solve2_checked r m k a = Some (solve2 r m k a)"
    by (simp add: solve2_checked_eq)
  show "\<forall>Q dt tX tY bX bY s.
        step2_checked Q dt tX tY bX bY s \<noteq> Inl DivByZero \<and>
        step2_checked Q dt tX tY bX bY s =
          (case step2 Q dt tX tY bX bY s of None \<Rightarrow> Inl TypeError | Some res \<Rightarrow> Inr res)"
    using step2_checked_no_div step2_checked_eq by blast
qed

lemma collapsed_step3:
  "step3 collapsed_ports3 (1 / 60) 0 0 0 0 0 0 collapsed_rope3 = Some (collapsed_rope3, 0)"
proof -
  let ?o = "\<lparr>x = 0, y = 0, z = 0\<rparr>"
  let ?a = "[?o, ?o, ?o]"
  have l: "2 \<le> length (positions collapsed_rope3)"
    "length (positions collapsed_rope3) \<le> length (prevPositions collapsed_rope3)"
    by (simp_all add: collapsed_rope3_def)
  have f: "positions collapsed_rope3 = ?a" "prevPositions collapsed_rope3 = ?a"
    "inGravity collapsed_ports3 = 0"
    by (simp_all add: collapsed_rope3_def collapsed_ports3_def)
  have i: "integrate3 0 (1 / 60) d (Suc (Suc 0)) ?a ?a = (?a, ?a, 0)" for d
    by (simp add: integrate3_def verlet3_def Let_def)
  have s: "solve3 r (Suc (Suc 0)) k ?a = ?a" for r k
    by (rule solve3_coincident) (simp add: nth_Cons')
  have e: "collapsed_rope3\<lparr>positions := ?a, prevPositions := ?a\<rparr> = collapsed_rope3"
    by (simp add: collapsed_rope3_def)
  show ?thesis
    by (simp add: step3_unfold [OF l] Let_def f i s e)
qed

lemma collapsed_step2:
  "step2 collapsed_ports2 (1 / 60) 0 0 0 0 collapsed_rope2 = Some (collapsed_rope2, 0)"
proof -
  let ?o = "\<lparr>x = 0, y = 0\<rparr>"
  let ?a = "[?o, ?o, ?o]"
  have l: "2 \<le> length (positions collapsed_rope2)"
    "length (positions collapsed_rope2) \<le> length (prevPositions collapsed_rope2)"
    by (simp_all add: collapsed_rope2_def)
  have f: "positions collapsed_rope2 = ?a" "prevPositions collapsed_rope2 = ?a"
    "inGravity collapsed_ports2 = 0"
    by (simp_all add: collapsed_rope2_def collapsed_ports2_def)
  have i: "integrate2 0 (1 / 60) d (Suc (Suc 0)) ?a ?a = (?a, ?a, 0)" for d
    by (simp add: integrate2_def verlet2_def Let_def)
  have s: "solve2 r (Suc (Suc 0)) k ?a = ?a" for r k
    by (rule solve2_coincident) (simp add: nth_Cons')
  have e: "collapsed_rope2\<lparr>positions := ?a, prevPositions := ?a\<rparr> = collapsed_rope2"
    by (simp add: collapsed_rope2_def)
  show ?thesis
    by (simp add: step2_unfold [OF l] Let_def f i s e)
qed

theorem zero_length_segment_skipped_witness:
  "(0::nat) < 2 \<and>
   [\<lparr>x = 0, y = 0, z = 0\<rparr>, \<lparr>x = 0, y = 0, z = 0\<rparr>, \<lparr>x = 0, y = -1, z = 0\<rparr>] =
     fold (constrain3 1 2) [0..<0] [\<lparr>x = 0, y = 0, z = 0\<rparr>, \<lparr>x = 0, y = 0, z = 0\<rparr>, \<lparr>x = 0, y = -1, z = 0\<rparr>] \<and>
   [\<lparr>x = 0, y = 0, z = 0\<rparr>, \<lparr>x = 0, y = 0, z = 0\<rparr>, \<lparr>x = 0, y = -1, z = 0\<rparr>] ! 0 =
     [\<lparr>x = 0, y = 0, z = 0\<rparr>, \<lparr>x = 0, y = 0, z = 0\<rparr>, \<lparr>x = 0, y = -1, z = 0\<rparr>] ! (0 + 1) \<and>
   [\<lparr>x = 0, y = 0\<rparr>, \<lparr>x = 0, y = 0\<rparr>, \<lparr>x = 0, y = -1\<rparr>] =
     fold (constrain2 1 2) [0..<0] [\<lparr>x = 0, y = 0\<rparr>, \<lparr>x = 0, y = 0\<rparr>, \<lparr>x = 0, y = -1\<rparr>] \<and>
   [\<lparr>x = 0, y = 0\<rparr>, \<lparr>x = 0, y = 0\<rparr>, \<lparr>x = 0, y = -1\<rparr>] ! 0 =
     [\<lparr>x = 0, y = 0\<rparr>, \<lparr>x = 0, y = 0\<rparr>, \<lparr>x = 0, y = -1\<rparr>] ! (0 + 1) \<and>
   constrain3 1 2 0 [\<lparr>x = 0, y = 0, z = 0\<rparr>, \<lparr>x = 0, y = 0, z = 0\<rparr>, \<lparr>x = 0, y = -1, z = 0\<rparr>] =
     [\<lparr>x = 0, y = 0, z = 0\<rparr>, \<lparr>x = 0, y = 0, z = 0\<rparr>, \<lparr>x = 0, y = -1, z = 0\<rparr>] \<and>
   constrain2 1 2 0 [\<lparr>x = 0, y = 0\<rparr>, \<lparr>x = 0, y = 0\<rparr>, \<lparr>x = 0, y = -1\<rparr>] =
     [\<lparr>x = 0, y = 0\<rparr>, \<lparr>x = 0, y = 0\<rparr>, \<lparr>x = 0, y = -1\<rparr>] \<and>
   constrain3_checked 1 2 0 [\<lparr>x = 0, y = 0, z = 0\<rparr>, \<lparr>x = 0, y = 0, z = 0\<rparr>, \<lparr>x = 0, y = -1, z = 0\<rparr>] =
     Some [\<lparr>x = 0, y = 0, z = 0\<rparr>, \<lparr>x = 0, y = 0, z = 0\<rparr>, \<lparr>x = 0, y = -1, z = 0\<rparr>] \<and>
   constrain2_checked 1 2 0 [\<lparr>x = 0, y = 0\<rparr>, \<lparr>x = 0, y = 0\<rparr>, \<lparr>x = 0, y = -1\<rparr>] =
     Some [\<lparr>x = 0, y = 0\<rparr>, \<lparr>x = 0, y = 0\<rparr>, \<lparr>x = 0, y = -1\<rparr>] \<and>
   step3_checked collapsed_ports3 (1 / 60) 0 0 0 0 0 0 collapsed_rope3 = Inr (collapsed_rope3, 0) \<and>
   step2_checked collapsed_ports2 (1 / 60) 0 0 0 0 collapsed_rope2 = Inr (collapsed_rope2, 0)"
proof -
  let ?a = "[\<lparr>x = 0, y = 0, z = 0\<rparr>, \<lparr>x = 0, y = 0, z = 0\<rparr>, \<lparr>x = 0, y = -1, z = 0\<rparr>]"
  let ?b = "[\<lparr>x = 0, y = 0\<rparr>, \<lparr>x = 0, y = 0\<rparr>, \<lparr>x = 0, y = -1\<rparr>]"
  have h: "(0::nat) < 2" "?a = fold (constrain3 1 2) [0..<0] ?a" "?a ! 0 = ?a ! (0 + 1)"
    "?b = fold (constrain2 1 2) [0..<0] ?b" "?b ! 0 = ?b ! (0 + 1)"
    by simp_all
  note t = zero_length_segment_skipped [OF h(1,2,3) h(1) h(4,5)]
  from t have c: "constrain3 1 2 0 ?a = ?a" "constrain2 1 2 0 ?b = ?b"
    "constrain3_checked 1 2 0 ?a = Some ?a" "constrain2_checked 1 2 0 ?b = Some ?b"
    by blast+
  from t have
    "step3_checked collapsed_ports3 (1 / 60) 0 0 0 0 0 0 collapsed_rope3 =
       (case step3 collapsed_ports3 (1 / 60) 0 0 0 0 0 0 collapsed_rope3 of
          None \<Rightarrow> Inl TypeError | Some res \<Rightarrow> Inr res)"
    "step2_checked collapsed_ports2 (1 / 60) 0 0 0 0 collapsed_rope2 =
       (case step2 collapsed_ports2 (1 / 60) 0 0 0 0 collapsed_rope2 of
          None \<Rightarrow> Inl TypeError | Some res \<Rightarrow> Inr res)"
    by simp_all
  then have d: "step3_checked collapsed_ports3 (1 / 60) 0 0 0 0 0 0 collapsed_rope3 = Inr (collapsed_rope3, 0)"
    "step2_checked collapsed_ports2 (1 / 60) 0 0 0 0 collapsed_rope2 = Inr (collapsed_rope2, 0)"
    by (simp_all add: collapsed_step3 collapsed_step2)
  from h c d show ?thesis by blast
qed

subsection \<open>initRope\<close>

lemma to_int32_wrap: "to_int32 4294967298 = 2"
  by (simp add: to_int32_def)

text \<open>
  Claim C9 says that \<^verbatim>\<open>initRope\<close> makes \<open>N + 1\<close> points, \<open>N\<close> being the segment count clamped
  below to 1, for every segment count.  The count is first converted by \<^verbatim>\<open>| 0\<close>: for the
  segment count \<open>2^32 + 2 = 4294967298\<close> the conversion gives 2, and \<^verbatim>\<open>initRope\<close> makes 3
  points, not 4294967299.
\<close>

theorem initRope_large_count_counterexample:
  "length (positions (initRope3 (example_ports3\<lparr>inSegments := 4294967298\<rparr>) 0 1.5 0 example_rope3)) = 3 \<and>
   length (positions (initRope3 (example_ports3\<lparr>inSegments := 4294967298\<rparr>) 0 1.5 0 example_rope3))
     \<noteq> nat (max 1 (inSegments (example_ports3\<lparr>inSegments := 4294967298\<rparr>))) + 1 \<and>
   length (positions (initRope2 (example_ports2\<lparr>inSegments := 4294967298\<rparr>) 0 1.5 example_rope2)) = 3 \<and>
   length (positions (initRope2 (example_ports2\<lparr>inSegments := 4294967298\<rparr>) 0 1.5 example_rope2))
     \<noteq> nat (max 1 (inSegments (example_ports2\<lparr>inSegments := 4294967298\<rparr>))) + 1"
  by (simp add: initRope3_length initRope2_length to_int32_wrap)

text \<open>
  Claim C9, amended.  With \<open>N\<close> the segment count converted by \<^verbatim>\<open>| 0\<close> to a signed 32-bit
  integer and then clamped below to 1, which is the segment count clamped below to 1 when
  the count is between \<open>-2^31\<close> and \<open>2^31 - 1\<close>: \<^verbatim>\<open>initRope\<close> replaces both arrays by the \<open>N + 1\<close>
  points \<open>(topX, topY - (L / N) * i, topZ)\<close>, \<open>i = 0..N\<close>, the previous positions equal to the
  current ones, clears the sleep flag and the counter and changes nothing else; a
  second call with the same arguments changes nothing.  It is a total function: it never
  fails.  Stated for Rope3D, then for Rope2D.
\<close>

theorem initRope_straight_line:
  fixes st :: state3 and s :: state2 and P :: ports3 and Q :: ports2
  shows
    "initRope3 P tX tY tZ st =
       st\<lparr>positions := map (\<lambda>i. \<lparr>x = tX,
                                    y = tY - inLength P / real (nat (max 1 (to_int32 (inSegments P)))) * real i,
                                    z = tZ\<rparr>)
                           [0..<nat (max 1 (to_int32 (inSegments P))) + 1],
           prevPositions := map (\<lambda>i. \<lparr>x = tX,
                                    y = tY - inLength P / real (nat (max 1 (to_int32 (inSegments P)))) * real i,
                                    z = tZ\<rparr>)
                           [0..<nat (max 1 (to_int32 (inSegments P))) + 1],
           isSleeping := False, sleepCounter := 0\<rparr> \<and>
     length (positions (initRope3 P tX tY tZ st)) = nat (max 1 (to_int32 (inSegments P))) + 1 \<and>
     prevPositions (initRope3 P tX tY tZ st) = positions (initRope3 P tX tY tZ st) \<and>
     initRope3 P tX tY tZ (initRope3 P tX tY tZ st) = initRope3 P tX tY tZ st \<and>
     (- (2 ^ 31) \<le> inSegments P \<and> inSegments P < 2 ^ 31 \<longrightarrow>
        nat (max 1 (to_int32 (inSegments P))) = nat (max 1 (inSegments P))) \<and>
     initRope2 Q tX tY s =
       s\<lparr>positions := map (\<lambda>i. \<lparr>x = tX,
                                   y = tY - inLength Q / real (nat (max 1 (to_int32 (inSegments Q)))) * real i\<rparr>)
                          [0..<nat (max 1 (to_int32 (inSegments Q))) + 1],
          prevPositions := map (\<lambda>i. \<lparr>x = tX,
                                   y = tY - inLength Q / real (nat (max 1 (to_int32 (inSegments Q)))) * real i\<rparr>)
                          [0..<nat (max 1 (to_int32 (inSegments Q))) + 1],
          isSleeping := False, sleepCounter := 0\<rparr> \<and>
     length (positions (initRope2 Q tX tY s)) = nat (max 1 (to_int32 (inSegments Q))) + 1 \<and>
     prevPositions (initRope2 Q tX tY s) = positions (initRope2 Q tX tY s) \<and>
     initRope2 Q tX tY (initRope2 Q tX tY s) = initRope2 Q tX tY s \<and>
     (- (2 ^ 31) \<le> inSegments Q \<and> inSegments Q < 2 ^ 31 \<longrightarrow>
        nat (max 1 (to_int32 (inSegments Q))) = nat (max 1 (inSegments Q)))"
proof (intro conjI)
  show "initRope3 P tX tY tZ st =
       st\<lparr>positions := map (\<lambda>i. \<lparr>x = tX,
                                    y = tY - inLength P / real (nat (max 1 (to_int32 (inSegments P)))) * real i,
                                    z = tZ\<rparr>)
                           [0..<nat (max 1 (to_int32 (inSegments P))) + 1],
           prevPositions := map (\<lambda>i. \<lparr>x = tX,
                                    y = tY - inLength P / real (nat (max 1 (to_int32 (inSegments P)))) * real i,
                                    z = tZ\<rparr>)
                           [0..<nat (max 1 (to_int32 (inSegments P))) + 1],
           isSleeping := False, sleepCounter := 0\<rparr>"
    by (simp only: initRope3_def Let_def initRope3_push_fold) simp
  show "initRope2 Q tX tY s =
       s\<lparr>positions := map (\<lambda>i. \<lparr>x = tX,
                                   y = tY - inLength Q / real (nat (max 1 (to_int32 (inSegments Q)))) * real i\<rparr>)
                          [0..<nat (max 1 (to_int32 (inSegments Q))) + 1],
          prevPositions := map (\<lambda>i. \<lparr>x = tX,
                                   y = tY - inLength Q / real (nat (max 1 (to_int32 (inSegments Q)))) * real i\<rparr>)
                          [0..<nat (max 1 (to_int32 (inSegments Q))) + 1],
          isSleeping := False, sleepCounter := 0\<rparr>"
    by (simp only: initRope2_def Let_def initRope2_push_fold) simp
  show "length (positions (initRope3 P tX tY tZ st)) = nat (max 1 (to_int32 (inSegments P))) + 1"
    by (rule initRope3_length)
  show "length (positions (initRope2 Q tX tY s)) = nat (max 1 (to_int32 (inSegments Q))) + 1"
    by (rule initRope2_length)
  show "prevPositions (initRope3 P tX tY tZ st) = positions (initRope3 P tX tY tZ st)"
    by (rule initRope3_prevPositions)
  show "prevPositions (initRope2 Q tX tY s) = positions (initRope2 Q tX tY s)"
    by (rule initRope2_prevPositions)
  show "initRope3 P tX tY tZ (initRope3 P tX tY tZ st) = initRope3 P tX tY tZ st"
    by (rule initRope3_idem)
  show "initRope2 Q tX tY (initRope2 Q tX tY s) = initRope2 Q tX tY s"
    by (rule initRope2_idem)
  show "- (2 ^ 31) \<le> inSegments P \<and> inSegments P < 2 ^ 31 \<longrightarrow>
        nat (max 1 (to_int32 (inSegments P))) = nat (max 1 (inSegments P))"
    by (simp add: to_int32_id)
  show "- (2 ^ 31) \<le> inSegments Q \<and> inSegments Q < 2 ^ 31 \<longrightarrow>
        nat (max 1 (to_int32 (inSegments Q))) = nat (max 1 (inSegments Q))"
    by (simp add: to_int32_id)
qed

theorem initRope_straight_line_witness:
  "- (2 ^ 31) \<le> inSegments example_ports3 \<and> inSegments example_ports3 < 2 ^ 31 \<and>
   - (2 ^ 31) \<le> inSegments example_ports2 \<and> inSegments example_ports2 < 2 ^ 31 \<and>
   nat (max 1 (to_int32 (inSegments example_ports3))) = nat (max 1 (inSegments example_ports3)) \<and>
   nat (max 1 (to_int32 (inSegments example_ports2))) = nat (max 1 (inSegments example_ports2)) \<and>
   length (positions (initRope3 example_ports3 0 1.5 0 example_rope3)) = 3 \<and>
   length (positions (initRope2 example_ports2 0 1.5 example_rope2)) = 3"
proof -
  have h: "- (2 ^ 31) \<le> inSegments example_ports3 \<and> inSegments example_ports3 < 2 ^ 31"
    "- (2 ^ 31) \<le> inSegments example_ports2 \<and> inSegments example_ports2 < 2 ^ 31"
    "inSegments example_ports3 = 2" "inSegments example_ports2 = 2"
    by (simp_all add: example_ports3_def example_ports2_def)
  from initRope_straight_line [of example_ports3 0 "1.5" 0 example_rope3 example_ports2 example_rope2] h(1,2)
  have "nat (max 1 (to_int32 (inSegments example_ports3))) = nat (max 1 (inSegments example_ports3))"
    "nat (max 1 (to_int32 (inSegments example_ports2))) = nat (max 1 (inSegments example_ports2))"
    "length (positions (initRope3 example_ports3 0 1.5 0 example_rope3)) =
       nat (max 1 (to_int32 (inSegments example_ports3))) + 1"
    "length (positions (initRope2 example_ports2 0 1.5 example_rope2)) =
       nat (max 1 (to_int32 (inSegments example_ports2))) + 1"
    by blast+
  with h show ?thesis by simp
qed

subsection \<open>The number of points\<close>

text \<open>
  Claim C10.  In a valid configuration, that is for a segment count from 1 to \<open>2^31 - 1\<close>,
  both arrays have \<open>segmentCount + 1\<close> points after \<^verbatim>\<open>initRope\<close>.  \<^verbatim>\<open>step\<close> returns and keeps
  the lengths of both arrays, whatever its arguments, on every chain whose \<^verbatim>\<open>prevPositions\<close>
  is not shorter than \<^verbatim>\<open>positions\<close>; and after any number of frames of the handler, both
  arrays still have \<open>segmentCount + 1\<close> points.  Stated for Rope3D, then for Rope2D.
\<close>

theorem chain_has_segments_plus_one_points:
  fixes st :: state3 and s :: state2 and P :: ports3 and Q :: ports2
  assumes "1 \<le> inSegments P" "inSegments P < 2 ^ 31"
    and "1 \<le> inSegments Q" "inSegments Q < 2 ^ 31"
  shows
    "length (positions (initRope3 P tX tY tZ st)) = nat (inSegments P) + 1 \<and>
     length (prevPositions (initRope3 P tX tY tZ st)) = nat (inSegments P) + 1 \<and>
     (\<forall>P' dt aX aY aZ bX bY bZ c. length (positions c) \<le> length (prevPositions c) \<longrightarrow>
        (\<exists>c' mv. step3 P' dt aX aY aZ bX bY bZ c = Some (c', mv) \<and>
           length (positions c') = length (positions c) \<and>
           length (prevPositions c') = length (prevPositions c))) \<and>
     (\<forall>fs. \<exists>c. run3 fs (initRope3 P tX tY tZ st) = Some c \<and>
        length (positions c) = nat (inSegments P) + 1 \<and>
        length (prevPositions c) = nat (inSegments P) + 1) \<and>
     length (positions (initRope2 Q tX tY s)) = nat (inSegments Q) + 1 \<and>
     length (prevPositions (initRope2 Q tX tY s)) = nat (inSegments Q) + 1 \<and>
     (\<forall>Q' dt aX aY bX bY c. length (positions c) \<le> length (prevPositions c) \<longrightarrow>
        (\<exists>c' mv. step2 Q' dt aX aY bX bY c = Some (c', mv) \<and>
           length (positions c') = length (positions c) \<and>
           length (prevPositions c') = length (prevPositions c))) \<and>
     (\<forall>fs. \<exists>c. run2 fs (initRope2 Q tX tY s) = Some c \<and>
        length (positions c) = nat (inSegments Q) + 1 \<and>
        length (prevPositions c) = nat (inSegments Q) + 1)"
proof -
  from assms have n3: "nat (max 1 (to_int32 (inSegments P))) = nat (inSegments P)"
    and n2: "nat (max 1 (to_int32 (inSegments Q))) = nat (inSegments Q)"
    by (simp_all add: to_int32_id)
  let ?i3 = "initRope3 P tX tY tZ st" and ?i2 = "initRope2 Q tX tY s"
  have l3: "length (positions ?i3) = nat (inSegments P) + 1"
    "length (prevPositions ?i3) = nat (inSegments P) + 1"
    by (simp_all add: initRope3_prevPositions initRope3_length n3)
  have l2: "length (positions ?i2) = nat (inSegments Q) + 1"
    "length (prevPositions ?i2) = nat (inSegments Q) + 1"
    by (simp_all add: initRope2_prevPositions initRope2_length n2)
  have s3: "\<forall>P' dt aX aY aZ bX bY bZ c. length (positions c) \<le> length (prevPositions c) \<longrightarrow>
        (\<exists>c' mv. step3 P' dt aX aY aZ bX bY bZ c = Some (c', mv) \<and>
           length (positions c') = length (positions c) \<and>
           length (prevPositions c') = length (prevPositions c))"
    using step3_total by blast
  have s2: "\<forall>Q' dt aX aY bX bY c. length (positions c) \<le> length (prevPositions c) \<longrightarrow>
        (\<exists>c' mv. step2 Q' dt aX aY bX bY c = Some (c', mv) \<and>
           length (positions c') = length (positions c) \<and>
           length (prevPositions c') = length (prevPositions c))"
    using step2_total by blast
  have r3: "\<forall>fs. \<exists>c. run3 fs ?i3 = Some c \<and>
        length (positions c) = nat (inSegments P) + 1 \<and>
        length (prevPositions c) = nat (inSegments P) + 1"
  proof
    fix fs
    from l3 have "positions ?i3 \<noteq> []" "length (prevPositions ?i3) = length (positions ?i3)" by auto
    from run3_chain [OF this, of fs] l3 show "\<exists>c. run3 fs ?i3 = Some c \<and>
        length (positions c) = nat (inSegments P) + 1 \<and>
        length (prevPositions c) = nat (inSegments P) + 1" by auto
  qed
  have r2: "\<forall>fs. \<exists>c. run2 fs ?i2 = Some c \<and>
        length (positions c) = nat (inSegments Q) + 1 \<and>
        length (prevPositions c) = nat (inSegments Q) + 1"
  proof
    fix fs
    from l2 have "positions ?i2 \<noteq> []" "length (prevPositions ?i2) = length (positions ?i2)" by auto
    from run2_chain [OF this, of fs] l2 show "\<exists>c. run2 fs ?i2 = Some c \<and>
        length (positions c) = nat (inSegments Q) + 1 \<and>
        length (prevPositions c) = nat (inSegments Q) + 1" by auto
  qed
  from l3 l2 s3 s2 r3 r2 show ?thesis by blast
qed

theorem chain_has_segments_plus_one_points_witness:
  "1 \<le> inSegments example_ports3 \<and> inSegments example_ports3 < 2 ^ 31 \<and>
   1 \<le> inSegments example_ports2 \<and> inSegments example_ports2 < 2 ^ 31 \<and>
   length (positions (initRope3 example_ports3 0 1.5 0 example_rope3)) = 3 \<and>
   length (prevPositions (initRope3 example_ports3 0 1.5 0 example_rope3)) = 3 \<and>
   length (positions (initRope2 example_ports2 0 1.5 example_rope2)) = 3 \<and>
   length (prevPositions (initRope2 example_ports2 0 1.5 example_rope2)) = 3"
proof -
  have h: "1 \<le> inSegments example_ports3" "inSegments example_ports3 < 2 ^ 31"
    "1 \<le> inSegments example_ports2" "inSegments example_ports2 < 2 ^ 31"
    and v: "inSegments example_ports3 = 2" "inSegments example_ports2 = 2"
    by (simp_all add: example_ports3_def example_ports2_def)
  from chain_has_segments_plus_one_points [OF h,
      where tX = 0 and tY = "1.5" and tZ = 0 and st = example_rope3 and s = example_rope2]
  have "length (positions (initRope3 example_ports3 0 1.5 0 example_rope3)) = nat (inSegments example_ports3) + 1"
    "length (prevPositions (initRope3 example_ports3 0 1.5 0 example_rope3)) = nat (inSegments example_ports3) + 1"
    "length (positions (initRope2 example_ports2 0 1.5 example_rope2)) = nat (inSegments example_ports2) + 1"
    "length (prevPositions (initRope2 example_ports2 0 1.5 example_rope2)) = nat (inSegments example_ports2) + 1"
    by blast+
  with h v show ?thesis by simp
qed

subsection \<open>Re-seeding on port changes\<close>

lemma example_count: "nat (max 1 (to_int32 2)) = 2"
  by (simp add: to_int32_def)

text \<open>
  Claim C7 says that in Rope2D a change of the top position does not re-seed the chain.
  The 2D source registers \<^verbatim>\<open>inTopX.onChange\<close> and \<^verbatim>\<open>inTopY.onChange\<close>, and both call
  \<^verbatim>\<open>initRope\<close>: on the chain hanging from the origin, a change of Top X with the top inputs
  at \<open>(0, 1.5)\<close> replaces the chain by the straight line from \<open>(0, 1.5)\<close>.
\<close>

theorem rope2D_top_change_counterexample:
  "onChange2 TopX example_ports2 example_rope2 = initRope2 example_ports2 0 1.5 example_rope2 \<and>
   positions (onChange2 TopX example_ports2 example_rope2) =
     [\<lparr>x = 0, y = 1.5\<rparr>, \<lparr>x = 0, y = 0.5\<rparr>, \<lparr>x = 0, y = -0.5\<rparr>] \<and>
   positions example_rope2 = [\<lparr>x = 0, y = 0\<rparr>, \<lparr>x = 0, y = -1\<rparr>, \<lparr>x = 0, y = -2\<rparr>] \<and>
   onChange2 TopX example_ports2 example_rope2 \<noteq> example_rope2"
proof -
  have o: "onChange2 TopX example_ports2 example_rope2 = initRope2 example_ports2 0 1.5 example_rope2"
    by (simp add: onChange2_def example_ports2_def)
  have p: "positions (initRope2 example_ports2 0 1.5 example_rope2) =
     [\<lparr>x = 0, y = 1.5\<rparr>, \<lparr>x = 0, y = 0.5\<rparr>, \<lparr>x = 0, y = -0.5\<rparr>]"
    by (simp add: initRope2_positions example_ports2_def example_count eval_nat_numeral)
  have q: "positions example_rope2 = [\<lparr>x = 0, y = 0\<rparr>, \<lparr>x = 0, y = -1\<rparr>, \<lparr>x = 0, y = -2\<rparr>]"
    by (simp add: example_rope2_def)
  from p q have "positions (initRope2 example_ports2 0 1.5 example_rope2) \<noteq> positions example_rope2"
    by simp
  then have "initRope2 example_ports2 0 1.5 example_rope2 \<noteq> example_rope2" by auto
  with o p q show ?thesis by simp
qed

text \<open>
  Claim C7, amended.  In both operators a change of the top position re-seeds the chain:
  Rope2D calls \<^verbatim>\<open>initRope\<close> with the current top position when Segments, Rope Length, Top X
  or Top Y changes, Rope3D when one of these or Top Z changes, and a change of any other
  port leaves the chain as it is.  After the re-seed the chain starts at the top
  position, has no stored velocity, and the rope is awake.
\<close>

theorem reseed_on_top_change:
  fixes st :: state3 and s :: state2 and P :: ports3 and Q :: ports2
  shows
    "(p \<in> {Segments, Length, TopX, TopY} \<longrightarrow>
        onChange2 p Q s = initRope2 Q (inTopX Q) (inTopY Q) s \<and>
        positions (onChange2 p Q s) ! 0 = \<lparr>x = inTopX Q, y = inTopY Q\<rparr> \<and>
        prevPositions (onChange2 p Q s) = positions (onChange2 p Q s) \<and>
        \<not> isSleeping (onChange2 p Q s) \<and> sleepCounter (onChange2 p Q s) = 0) \<and>
     (p \<notin> {Segments, Length, TopX, TopY} \<longrightarrow> onChange2 p Q s = s) \<and>
     (p \<in> {Segments, Length, TopX, TopY, TopZ} \<longrightarrow>
        onChange3 p P st = initRope3 P (inTopX P) (inTopY P) (inTopZ P) st \<and>
        positions (onChange3 p P st) ! 0 = \<lparr>x = inTopX P, y = inTopY P, z = inTopZ P\<rparr> \<and>
        prevPositions (onChange3 p P st) = positions (onChange3 p P st) \<and>
        \<not> isSleeping (onChange3 p P st) \<and> sleepCounter (onChange3 p P st) = 0) \<and>
     (p \<notin> {Segments, Length, TopX, TopY, TopZ} \<longrightarrow> onChange3 p P st = st)"
proof -
  have a2: "positions (initRope2 Q (inTopX Q) (inTopY Q) s) ! 0 = \<lparr>x = inTopX Q, y = inTopY Q\<rparr>"
    by (simp add: initRope2_positions nth_append del: upt_Suc)
  have a3: "positions (initRope3 P (inTopX P) (inTopY P) (inTopZ P) st) ! 0 =
      \<lparr>x = inTopX P, y = inTopY P, z = inTopZ P\<rparr>"
    by (simp add: initRope3_positions nth_append del: upt_Suc)
  show ?thesis
    by (simp add: onChange2_def onChange3_def a2 a3 initRope2_prevPositions initRope3_prevPositions
        initRope2_flags initRope3_flags)
qed

theorem reseed_on_top_change_witness:
  "TopX \<in> {Segments, Length, TopX, TopY} \<and>
   onChange2 TopX example_ports2 example_rope2 =
     initRope2 example_ports2 (inTopX example_ports2) (inTopY example_ports2) example_rope2 \<and>
   BottomX \<notin> {Segments, Length, TopX, TopY} \<and>
   onChange2 BottomX example_ports2 example_rope2 = example_rope2 \<and>
   TopZ \<in> {Segments, Length, TopX, TopY, TopZ} \<and>
   onChange3 TopZ example_ports3 example_rope3 =
     initRope3 example_ports3 (inTopX example_ports3) (inTopY example_ports3) (inTopZ example_ports3)
       example_rope3 \<and>
   BottomX \<notin> {Segments, Length, TopX, TopY, TopZ} \<and>
   onChange3 BottomX example_ports3 example_rope3 = example_rope3"
  using reseed_on_top_change [of TopX example_ports2 example_rope2 example_ports3 example_rope3]
    reseed_on_top_change [of BottomX example_ports2 example_rope2 example_ports3 example_rope3]
    reseed_on_top_change [of TopZ example_ports2 example_rope2 example_ports3 example_rope3]
  by simp

subsection \<open>The sleep controller\<close>

text \<open>
  Claim C6.  On a frame where the rope is asleep and the inputs moved, the handler clears
  the sleep flag, resets the counter, makes every previous position equal to the current
  one and reads the clock again; it then calls \<^verbatim>\<open>step\<close> on that state in the same frame, with
  \<open>dt = 0\<close>, and the frame ends awake with the counter at 0.  The hypotheses on the arrays
  hold in every reachable state: the two arrays have the same length, and a sleeping rope
  has a chain (\<open>reachable3_chain\<close>, \<open>reachable2_chain\<close>).  Stated for Rope3D, then for
  Rope2D.
\<close>

theorem wake_up_on_moved_inputs:
  fixes st :: state3 and s :: state2 and P :: ports3 and Q :: ports2
  assumes "isSleeping st" "positions st \<noteq> []"
    and "length (prevPositions st) = length (positions st)" "inputsMoved3 P st"
    and "isSleeping s" "positions s \<noteq> []"
    and "length (prevPositions s) = length (positions s)" "inputsMoved2 Q s"
  shows
    "(\<exists>st1 mv.
        step3 P 0 (inTopX P) (inTopY P) (inTopZ P) (inBottomX P) (inBottomY P) (inBottomZ P)
          ((begin3 now P st)\<lparr>isSleeping := False, sleepCounter := 0,
             prevPositions := positions st, lastTime := now'\<rparr>) = Some (st1, mv) \<and>
        positions (begin3 now P st) = positions st \<and>
        onTriggered3 now now' P st = Some (st1\<lparr>sleepCounter := 0\<rparr>, flat3 (positions st1)) \<and>
        \<not> isSleeping st1) \<and>
     (\<exists>s1 mv.
        step2 Q 0 (inTopX Q) (inTopY Q) (inBottomX Q) (inBottomY Q)
          ((begin2 now Q s)\<lparr>isSleeping := False, sleepCounter := 0,
             prevPositions := positions s, lastTime := now'\<rparr>) = Some (s1, mv) \<and>
        positions (begin2 now Q s) = positions s \<and>
        onTriggered2 now now' Q s = Some (s1\<lparr>sleepCounter := 0\<rparr>, flat2 (positions s1)) \<and>
        \<not> isSleeping s1)"
proof
  let ?w = "(begin3 now P st)\<lparr>isSleeping := False, sleepCounter := 0,
             prevPositions := positions st, lastTime := now'\<rparr>"
  have b: "positions (begin3 now P st) = positions st" using assms(2) by (simp add: begin3_same)
  then have "length (positions ?w) \<le> length (prevPositions ?w)" by simp
  from step3_total [OF this, of P 0 "inTopX P" "inTopY P" "inTopZ P" "inBottomX P" "inBottomY P" "inBottomZ P"]
  obtain st1 mv where r: "step3 P 0 (inTopX P) (inTopY P) (inTopZ P) (inBottomX P) (inBottomY P) (inBottomZ P) ?w
      = Some (st1, mv)" and a: "\<not> isSleeping st1" by auto
  from onTriggered3_wake [OF assms(1,2,4,3) r] r b a
  show "\<exists>st1 mv.
        step3 P 0 (inTopX P) (inTopY P) (inTopZ P) (inBottomX P) (inBottomY P) (inBottomZ P) ?w
          = Some (st1, mv) \<and>
        positions (begin3 now P st) = positions st \<and>
        onTriggered3 now now' P st = Some (st1\<lparr>sleepCounter := 0\<rparr>, flat3 (positions st1)) \<and>
        \<not> isSleeping st1" by blast
next
  let ?w = "(begin2 now Q s)\<lparr>isSleeping := False, sleepCounter := 0,
             prevPositions := positions s, lastTime := now'\<rparr>"
  have b: "positions (begin2 now Q s) = positions s" using assms(6) by (simp add: begin2_same)
  then have "length (positions ?w) \<le> length (prevPositions ?w)" by simp
  from step2_total [OF this, of Q 0 "inTopX Q" "inTopY Q" "inBottomX Q" "inBottomY Q"]
  obtain s1 mv where r: "step2 Q 0 (inTopX Q) (inTopY Q) (inBottomX Q) (inBottomY Q) ?w
      = Some (s1, mv)" and a: "\<not> isSleeping s1" by auto
  from onTriggered2_wake [OF assms(5,6,8,7) r] r b a
  show "\<exists>s1 mv.
        step2 Q 0 (inTopX Q) (inTopY Q) (inBottomX Q) (inBottomY Q) ?w = Some (s1, mv) \<and>
        positions (begin2 now Q s) = positions s \<and>
        onTriggered2 now now' Q s = Some (s1\<lparr>sleepCounter := 0\<rparr>, flat2 (positions s1)) \<and>
        \<not> isSleeping s1" by blast
qed

theorem wake_up_on_moved_inputs_witness:
  "isSleeping sleeping_rope3 \<and> positions sleeping_rope3 \<noteq> [] \<and>
   length (prevPositions sleeping_rope3) = length (positions sleeping_rope3) \<and>
   inputsMoved3 example_ports3 sleeping_rope3 \<and>
   isSleeping sleeping_rope2 \<and> positions sleeping_rope2 \<noteq> [] \<and>
   length (prevPositions sleeping_rope2) = length (positions sleeping_rope2) \<and>
   inputsMoved2 example_ports2 sleeping_rope2 \<and>
   (\<exists>st1 out. onTriggered3 100 101 example_ports3 sleeping_rope3 = Some (st1, out) \<and>
      \<not> isSleeping st1 \<and> sleepCounter st1 = 0) \<and>
   (\<exists>s1 out. onTriggered2 100 101 example_ports2 sleeping_rope2 = Some (s1, out) \<and>
      \<not> isSleeping s1 \<and> sleepCounter s1 = 0)"
proof -
  have h: "isSleeping sleeping_rope3" "positions sleeping_rope3 \<noteq> []"
    "length (prevPositions sleeping_rope3) = length (positions sleeping_rope3)"
    "inputsMoved3 example_ports3 sleeping_rope3"
    "isSleeping sleeping_rope2" "positions sleeping_rope2 \<noteq> []"
    "length (prevPositions sleeping_rope2) = length (positions sleeping_rope2)"
    "inputsMoved2 example_ports2 sleeping_rope2"
    by (simp_all add: sleeping_rope3_def sleeping_rope2_def example_rope3_def example_rope2_def
        inputsMoved3_def inputsMoved2_def example_ports3_def example_ports2_def num_def INPUT_EPS_def)
  from wake_up_on_moved_inputs [OF h, where now = 100 and now' = 101]
  have "(\<exists>st1 out. onTriggered3 100 101 example_ports3 sleeping_rope3 = Some (st1, out) \<and>
      \<not> isSleeping st1 \<and> sleepCounter st1 = 0) \<and>
   (\<exists>s1 out. onTriggered2 100 101 example_ports2 sleeping_rope2 = Some (s1, out) \<and>
      \<not> isSleeping s1 \<and> sleepCounter s1 = 0)"
    by fastforce
  with h show ?thesis by simp
qed

text \<open>
  Claim C5.  After six consecutive still frames, that is frames in which the inputs did
  not move and, where \<^verbatim>\<open>step\<close> was called, it returned a \<^verbatim>\<open>maxVel\<close> below \<open>1e-3\<close>, the sleep flag
  is set.  From then on, a frame whose inputs did not move only stores the clock and the
  inputs: it does not call \<^verbatim>\<open>step\<close>, and through any number of such frames the rope stays
  asleep and both arrays stay as they are.  Stated for Rope3D, then for Rope2D.
\<close>

theorem sleeps_after_six_still_frames:
  fixes st :: state3 and s :: state2
  assumes "length fs = SLEEP_FRAMES" "still_run3 fs st"
    and "length gs = SLEEP_FRAMES" "still_run2 gs s"
  shows
    "(\<exists>c. run3 fs st = Some c \<and> isSleeping c \<and>
        (\<forall>now now' P. \<not> inputsMoved3 P c \<longrightarrow>
           onTriggered3 now now' P c =
             Some (c\<lparr>lastTime := now,
                     lastTopX := Some (inTopX P), lastTopY := Some (inTopY P),
                     lastTopZ := Some (inTopZ P),
                     lastBottomX := Some (inBottomX P), lastBottomY := Some (inBottomY P),
                     lastBottomZ := Some (inBottomZ P)\<rparr>, flat3 (positions c))) \<and>
        (\<forall>hs. unmoved_run3 hs c \<longrightarrow>
           (\<exists>c'. run3 hs c = Some c' \<and> isSleeping c' \<and>
              positions c' = positions c \<and> prevPositions c' = prevPositions c))) \<and>
     (\<exists>c. run2 gs s = Some c \<and> isSleeping c \<and>
        (\<forall>now now' Q. \<not> inputsMoved2 Q c \<longrightarrow>
           onTriggered2 now now' Q c =
             Some (c\<lparr>lastTime := now,
                     lastTopX := Some (inTopX Q), lastTopY := Some (inTopY Q),
                     lastBottomX := Some (inBottomX Q), lastBottomY := Some (inBottomY Q)\<rparr>,
                   flat2 (positions c))) \<and>
        (\<forall>hs. unmoved_run2 hs c \<longrightarrow>
           (\<exists>c'. run2 hs c = Some c' \<and> isSleeping c' \<and>
              positions c' = positions c \<and> prevPositions c' = prevPositions c)))"
proof
  from still_run3_sleeps [OF assms(2,1)]
  obtain c where r: "run3 fs st = Some c" and a: "isSleeping c" and ne: "positions c \<noteq> []"
    by auto
  have f: "\<forall>now now' P. \<not> inputsMoved3 P c \<longrightarrow>
           onTriggered3 now now' P c =
             Some (c\<lparr>lastTime := now,
                     lastTopX := Some (inTopX P), lastTopY := Some (inTopY P),
                     lastTopZ := Some (inTopZ P),
                     lastBottomX := Some (inBottomX P), lastBottomY := Some (inBottomY P),
                     lastBottomZ := Some (inBottomZ P)\<rparr>, flat3 (positions c))"
    using onTriggered3_asleep [OF a ne] by blast
  have u: "\<forall>hs. unmoved_run3 hs c \<longrightarrow>
           (\<exists>c'. run3 hs c = Some c' \<and> isSleeping c' \<and>
              positions c' = positions c \<and> prevPositions c' = prevPositions c)"
    using unmoved_run3_frozen [OF _ a ne] by blast
  from r a f u show "\<exists>c. run3 fs st = Some c \<and> isSleeping c \<and>
        (\<forall>now now' P. \<not> inputsMoved3 P c \<longrightarrow>
           onTriggered3 now now' P c =
             Some (c\<lparr>lastTime := now,
                     lastTopX := Some (inTopX P), lastTopY := Some (inTopY P),
                     lastTopZ := Some (inTopZ P),
                     lastBottomX := Some (inBottomX P), lastBottomY := Some (inBottomY P),
                     lastBottomZ := Some (inBottomZ P)\<rparr>, flat3 (positions c))) \<and>
        (\<forall>hs. unmoved_run3 hs c \<longrightarrow>
           (\<exists>c'. run3 hs c = Some c' \<and> isSleeping c' \<and>
              positions c' = positions c \<and> prevPositions c' = prevPositions c))" by blast
next
  from still_run2_sleeps [OF assms(4,3)]
  obtain c where r: "run2 gs s = Some c" and a: "isSleeping c" and ne: "positions c \<noteq> []"
    by auto
  have f: "\<forall>now now' Q. \<not> inputsMoved2 Q c \<longrightarrow>
           onTriggered2 now now' Q c =
             Some (c\<lparr>lastTime := now,
                     lastTopX := Some (inTopX Q), lastTopY := Some (inTopY Q),
                     lastBottomX := Some (inBottomX Q), lastBottomY := Some (inBottomY Q)\<rparr>,
                   flat2 (positions c))"
    using onTriggered2_asleep [OF a ne] by blast
  have u: "\<forall>hs. unmoved_run2 hs c \<longrightarrow>
           (\<exists>c'. run2 hs c = Some c' \<and> isSleeping c' \<and>
              positions c' = positions c \<and> prevPositions c' = prevPositions c)"
    using unmoved_run2_frozen [OF _ a ne] by blast
  from r a f u show "\<exists>c. run2 gs s = Some c \<and> isSleeping c \<and>
        (\<forall>now now' Q. \<not> inputsMoved2 Q c \<longrightarrow>
           onTriggered2 now now' Q c =
             Some (c\<lparr>lastTime := now,
                     lastTopX := Some (inTopX Q), lastTopY := Some (inTopY Q),
                     lastBottomX := Some (inBottomX Q), lastBottomY := Some (inBottomY Q)\<rparr>,
                   flat2 (positions c))) \<and>
        (\<forall>hs. unmoved_run2 hs c \<longrightarrow>
           (\<exists>c'. run2 hs c = Some c' \<and> isSleeping c' \<and>
              positions c' = positions c \<and> prevPositions c' = prevPositions c))" by blast
qed

lemma solve3_fixed: "constraint_pass3 r n pos = pos \<Longrightarrow> solve3 r n k pos = pos"
  by (induction k) (simp_all add: solve3_def)

lemma resting_rope3_fields:
  "positions (resting_rope3 c) = [\<lparr>x = 0, y = 0, z = 0\<rparr>, \<lparr>x = 0, y = -1, z = 0\<rparr>, \<lparr>x = 0, y = -2, z = 0\<rparr>]"
  "prevPositions (resting_rope3 c) = [\<lparr>x = 0, y = 0, z = 0\<rparr>, \<lparr>x = 0, y = -1, z = 0\<rparr>, \<lparr>x = 0, y = -2, z = 0\<rparr>]"
  "lastTime (resting_rope3 c) = 0" "isSleeping (resting_rope3 c) = False"
  "sleepCounter (resting_rope3 c) = c"
  "lastTopX (resting_rope3 c) = Some 0" "lastTopY (resting_rope3 c) = Some 0"
  "lastTopZ (resting_rope3 c) = Some 0" "lastBottomX (resting_rope3 c) = Some 0"
  "lastBottomY (resting_rope3 c) = Some (-2)" "lastBottomZ (resting_rope3 c) = Some 0"
  by (simp_all add: resting_rope3_def sleeping_rope3_def example_rope3_def)

lemma resting_ports3_fields:
  "inTopX resting_ports3 = 0" "inTopY resting_ports3 = 0" "inTopZ resting_ports3 = 0"
  "inBottomX resting_ports3 = 0" "inBottomY resting_ports3 = -2" "inBottomZ resting_ports3 = 0"
  "inLength resting_ports3 = 2" "inIter resting_ports3 = 8"
  by (simp_all add: resting_ports3_def example_ports3_def)

lemma resting_pass3:
  "constraint_pass3 1 (Suc (Suc 0)) [\<lparr>x = 0, y = 0, z = 0\<rparr>, \<lparr>x = 0, y = -1, z = 0\<rparr>, \<lparr>x = 0, y = -2, z = 0\<rparr>] =
     [\<lparr>x = 0, y = 0, z = 0\<rparr>, \<lparr>x = 0, y = -1, z = 0\<rparr>, \<lparr>x = 0, y = -2, z = 0\<rparr>]"
  by (simp add: constraint_pass3_def constrain3_def Let_def eval_nat_numeral)

lemma resting_integrate3:
  "integrate3 g 0 d (Suc (Suc 0)) [\<lparr>x = 0, y = 0, z = 0\<rparr>, \<lparr>x = 0, y = -1, z = 0\<rparr>, \<lparr>x = 0, y = -2, z = 0\<rparr>]
       [\<lparr>x = 0, y = 0, z = 0\<rparr>, \<lparr>x = 0, y = -1, z = 0\<rparr>, \<lparr>x = 0, y = -2, z = 0\<rparr>] =
     ([\<lparr>x = 0, y = 0, z = 0\<rparr>, \<lparr>x = 0, y = -1, z = 0\<rparr>, \<lparr>x = 0, y = -2, z = 0\<rparr>],
      [\<lparr>x = 0, y = 0, z = 0\<rparr>, \<lparr>x = 0, y = -1, z = 0\<rparr>, \<lparr>x = 0, y = -2, z = 0\<rparr>], 0)"
  by (simp add: integrate3_def verlet3_def Let_def eval_nat_numeral)

lemma resting_step3:
  "step3 resting_ports3 0 0 0 0 0 (-2) 0 (resting_rope3 c) = Some (resting_rope3 c, 0)"
proof -
  have l: "2 \<le> length (positions (resting_rope3 c))"
    "length (positions (resting_rope3 c)) \<le> length (prevPositions (resting_rope3 c))"
    by (simp_all add: resting_rope3_fields)
  have e: "resting_rope3 c\<lparr>positions := positions (resting_rope3 c),
      prevPositions := prevPositions (resting_rope3 c)\<rparr> = resting_rope3 c"
    by simp
  show ?thesis
    using e by (simp add: step3_unfold [OF l] Let_def resting_rope3_fields resting_ports3_fields
        resting_integrate3 resting_pass3 solve3_fixed)
qed

lemma resting_begin3: "begin3 0 resting_ports3 (resting_rope3 c) = resting_rope3 c"
  by (simp add: begin3_def Let_def resting_ports3_fields)
    (simp add: resting_rope3_def sleeping_rope3_def example_rope3_def)

lemma resting_unmoved3: "\<not> inputsMoved3 resting_ports3 (resting_rope3 c)"
  by (simp add: inputsMoved3_def resting_rope3_fields resting_ports3_fields num_def INPUT_EPS_def)

lemma resting_still3: "still3 0 resting_ports3 (resting_rope3 c)"
  by (simp add: still3_def resting_unmoved3 resting_begin3 resting_rope3_fields resting_ports3_fields
      frame_dt_def resting_step3 VEL_EPS_def)

lemma resting_frame3:
  "c < 5 \<Longrightarrow> \<exists>out. onTriggered3 0 0 resting_ports3 (resting_rope3 c) = Some (resting_rope3 (Suc c), out)"
proof -
  assume c: "c < 5"
  have e: "resting_rope3 c\<lparr>sleepCounter := Suc c\<rparr> = resting_rope3 (Suc c)"
    by (simp add: resting_rope3_def)
  from c show ?thesis
    by (simp add: onTriggered3_def Let_def resting_unmoved3 resting_begin3 wake3_def physics3_def
      resting_rope3_fields resting_ports3_fields frame_dt_def resting_step3 VEL_EPS_def SLEEP_FRAMES_def e)
qed

lemma resting_last_frame3:
  "\<exists>c out. onTriggered3 0 0 resting_ports3 (resting_rope3 5) = Some (c, out)"
  by (simp add: onTriggered3_def Let_def resting_unmoved3 resting_begin3 wake3_def physics3_def
      resting_rope3_fields resting_ports3_fields frame_dt_def resting_step3 VEL_EPS_def SLEEP_FRAMES_def
      freeze3_eq)

lemma resting_still_run3:
  "c + k \<le> 6 \<Longrightarrow> still_run3 (replicate k (0, 0, resting_ports3)) (resting_rope3 c)"
proof (induction k arbitrary: c)
  case 0
  then show ?case by simp
next
  case (Suc k)
  show ?case
  proof (cases "c < 5")
    case True
    with resting_frame3 [of c] obtain out where
      f: "onTriggered3 0 0 resting_ports3 (resting_rope3 c) = Some (resting_rope3 (Suc c), out)"
      by auto
    from Suc.prems have "Suc c + k \<le> 6" by simp
    from Suc.IH [OF this] f show ?thesis by (simp add: resting_still3)
  next
    case False
    with Suc.prems have c: "c = 5" and k: "k = 0" by simp_all
    from resting_last_frame3 obtain c5 o5 where
      "onTriggered3 0 0 resting_ports3 (resting_rope3 5) = Some (c5, o5)" by auto
    with c k show ?thesis by (simp add: resting_still3)
  qed
qed

lemma solve2_fixed: "constraint_pass2 r n pos = pos \<Longrightarrow> solve2 r n k pos = pos"
  by (induction k) (simp_all add: solve2_def)

lemma resting_rope2_fields:
  "positions (resting_rope2 c) = [\<lparr>x = 0, y = 0\<rparr>, \<lparr>x = 0, y = -1\<rparr>, \<lparr>x = 0, y = -2\<rparr>]"
  "prevPositions (resting_rope2 c) = [\<lparr>x = 0, y = 0\<rparr>, \<lparr>x = 0, y = -1\<rparr>, \<lparr>x = 0, y = -2\<rparr>]"
  "lastTime (resting_rope2 c) = 0" "isSleeping (resting_rope2 c) = False"
  "sleepCounter (resting_rope2 c) = c"
  "lastTopX (resting_rope2 c) = Some 0" "lastTopY (resting_rope2 c) = Some 0"
  "lastBottomX (resting_rope2 c) = Some 0"
  "lastBottomY (resting_rope2 c) = Some (-2)"
  by (simp_all add: resting_rope2_def sleeping_rope2_def example_rope2_def)

lemma resting_ports2_fields:
  "inTopX resting_ports2 = 0" "inTopY resting_ports2 = 0"
  "inBottomX resting_ports2 = 0" "inBottomY resting_ports2 = -2"
  "inLength resting_ports2 = 2" "inIter resting_ports2 = 8"
  by (simp_all add: resting_ports2_def example_ports2_def)

lemma resting_pass2:
  "constraint_pass2 1 (Suc (Suc 0)) [\<lparr>x = 0, y = 0\<rparr>, \<lparr>x = 0, y = -1\<rparr>, \<lparr>x = 0, y = -2\<rparr>] =
     [\<lparr>x = 0, y = 0\<rparr>, \<lparr>x = 0, y = -1\<rparr>, \<lparr>x = 0, y = -2\<rparr>]"
  by (simp add: constraint_pass2_def constrain2_def Let_def eval_nat_numeral)

lemma resting_integrate2:
  "integrate2 g 0 d (Suc (Suc 0)) [\<lparr>x = 0, y = 0\<rparr>, \<lparr>x = 0, y = -1\<rparr>, \<lparr>x = 0, y = -2\<rparr>]
       [\<lparr>x = 0, y = 0\<rparr>, \<lparr>x = 0, y = -1\<rparr>, \<lparr>x = 0, y = -2\<rparr>] =
     ([\<lparr>x = 0, y = 0\<rparr>, \<lparr>x = 0, y = -1\<rparr>, \<lparr>x = 0, y = -2\<rparr>],
      [\<lparr>x = 0, y = 0\<rparr>, \<lparr>x = 0, y = -1\<rparr>, \<lparr>x = 0, y = -2\<rparr>], 0)"
  by (simp add: integrate2_def verlet2_def Let_def eval_nat_numeral)

lemma resting_step2:
  "step2 resting_ports2 0 0 0 0 (-2) (resting_rope2 c) = Some (resting_rope2 c, 0)"
proof -
  have l: "2 \<le> length (positions (resting_rope2 c))"
    "length (positions (resting_rope2 c)) \<le> length (prevPositions (resting_rope2 c))"
    by (simp_all add: resting_rope2_fields)
  have e: "resting_rope2 c\<lparr>positions := positions (resting_rope2 c),
      prevPositions := prevPositions (resting_rope2 c)\<rparr> = resting_rope2 c"
    by simp
  show ?thesis
    using e by (simp add: step2_unfold [OF l] Let_def resting_rope2_fields resting_ports2_fields
        resting_integrate2 resting_pass2 solve2_fixed)
qed

lemma resting_begin2: "begin2 0 resting_ports2 (resting_rope2 c) = resting_rope2 c"
  by (simp add: begin2_def Let_def resting_ports2_fields)
    (simp add: resting_rope2_def sleeping_rope2_def example_rope2_def)

lemma resting_unmoved2: "\<not> inputsMoved2 resting_ports2 (resting_rope2 c)"
  by (simp add: inputsMoved2_def resting_rope2_fields resting_ports2_fields num_def INPUT_EPS_def)

lemma resting_still2: "still2 0 resting_ports2 (resting_rope2 c)"
  by (simp add: still2_def resting_unmoved2 resting_begin2 resting_rope2_fields resting_ports2_fields
      frame_dt_def resting_step2 VEL_EPS_def)

lemma resting_frame2:
  "c < 5 \<Longrightarrow> \<exists>out. onTriggered2 0 0 resting_ports2 (resting_rope2 c) = Some (resting_rope2 (Suc c), out)"
proof -
  assume c: "c < 5"
  have e: "resting_rope2 c\<lparr>sleepCounter := Suc c\<rparr> = resting_rope2 (Suc c)"
    by (simp add: resting_rope2_def)
  from c show ?thesis
    by (simp add: onTriggered2_def Let_def resting_unmoved2 resting_begin2 wake2_def physics2_def
      resting_rope2_fields resting_ports2_fields frame_dt_def resting_step2 VEL_EPS_def SLEEP_FRAMES_def e)
qed

lemma resting_last_frame2:
  "\<exists>c out. onTriggered2 0 0 resting_ports2 (resting_rope2 5) = Some (c, out)"
  by (simp add: onTriggered2_def Let_def resting_unmoved2 resting_begin2 wake2_def physics2_def
      resting_rope2_fields resting_ports2_fields frame_dt_def resting_step2 VEL_EPS_def SLEEP_FRAMES_def
      freeze2_eq)

lemma resting_still_run2:
  "c + k \<le> 6 \<Longrightarrow> still_run2 (replicate k (0, 0, resting_ports2)) (resting_rope2 c)"
proof (induction k arbitrary: c)
  case 0
  then show ?case by simp
next
  case (Suc k)
  show ?case
  proof (cases "c < 5")
    case True
    with resting_frame2 [of c] obtain out where
      f: "onTriggered2 0 0 resting_ports2 (resting_rope2 c) = Some (resting_rope2 (Suc c), out)"
      by auto
    from Suc.prems have "Suc c + k \<le> 6" by simp
    from Suc.IH [OF this] f show ?thesis by (simp add: resting_still2)
  next
    case False
    with Suc.prems have c: "c = 5" and k: "k = 0" by simp_all
    from resting_last_frame2 obtain c5 o5 where
      "onTriggered2 0 0 resting_ports2 (resting_rope2 5) = Some (c5, o5)" by auto
    with c k show ?thesis by (simp add: resting_still2)
  qed
qed

theorem sleeps_after_six_still_frames_witness:
  "length (replicate 6 (0::real, 0::real, resting_ports3)) = SLEEP_FRAMES \<and>
   still_run3 (replicate 6 (0, 0, resting_ports3)) (resting_rope3 0) \<and>
   length (replicate 6 (0::real, 0::real, resting_ports2)) = SLEEP_FRAMES \<and>
   still_run2 (replicate 6 (0, 0, resting_ports2)) (resting_rope2 0) \<and>
   (\<exists>c. run3 (replicate 6 (0, 0, resting_ports3)) (resting_rope3 0) = Some c \<and> isSleeping c) \<and>
   (\<exists>c. run2 (replicate 6 (0, 0, resting_ports2)) (resting_rope2 0) = Some c \<and> isSleeping c)"
proof -
  have h: "length (replicate 6 (0::real, 0::real, resting_ports3)) = SLEEP_FRAMES"
    "still_run3 (replicate 6 (0, 0, resting_ports3)) (resting_rope3 0)"
    "length (replicate 6 (0::real, 0::real, resting_ports2)) = SLEEP_FRAMES"
    "still_run2 (replicate 6 (0, 0, resting_ports2)) (resting_rope2 0)"
    by (simp_all add: SLEEP_FRAMES_def resting_still_run3 resting_still_run2)
  from sleeps_after_six_still_frames [OF h]
  have "(\<exists>c. run3 (replicate 6 (0, 0, resting_ports3)) (resting_rope3 0) = Some c \<and> isSleeping c) \<and>
   (\<exists>c. run2 (replicate 6 (0, 0, resting_ports2)) (resting_rope2 0) = Some c \<and> isSleeping c)"
    by blast
  with h show ?thesis by simp
qed

end
